theory Spec2Isabelle
  imports Complex_Main "HOL-Library.Log_Nat"
begin

section \<open>Data model (types.ts)\<close>

text \<open>
  The TypeScript interfaces become records and the string unions become datatypes.
  Isabelle record fields are global names, so a field that several interfaces share
  (\<open>id\<close>, \<open>url\<close>, \<open>depth\<close>, \<open>issues\<close>, \<open>scores\<close>, \<open>error\<close>) keeps its plain name in
  one record and carries a short prefix in the others.  An optional field is an
  \<open>option\<close>.  JavaScript numbers that hold counts are \<open>nat\<close>, numbers that hold signed
  integers are \<open>int\<close>, and numbers that can be fractional (timings, weighted totals)
  are \<open>rat\<close>: every finite IEEE double is a rational number.  Where the code computes
  with fractions that doubles cannot hold exactly (the weights and the weighted totals of
  \<open>calculateAuditScores\<close>), the rounding of every operation to the nearest double is
  written out with \<open>roundDouble\<close>.
\<close>

datatype AuditStatus = QUEUED | RUNNING | COMPLETED | FAILED

datatype ScoreCategory = Seo | Performance | Accessibility | Content | UxDesign

datatype Severity = Critical | Major | Minor

record 'n Scores =
  overall :: 'n
  seo :: 'n
  performance :: 'n
  accessibility :: 'n
  content :: 'n
  uxDesign :: 'n

record Issue =
  issue_id :: string
  category :: ScoreCategory
  code :: string
  severity :: Severity
  message :: string
  pageUrl :: "string option"

record PageResult =
  url :: string
  statusCode :: int
  html :: string
  depth :: nat
  internalLinks :: "string list"
  externalLinks :: "string list"
  error :: "string option"

record SeoData =
  title :: string
  metaDescription :: "string option"
  h1Text :: string
  wordCount :: nat
  imagesWithoutAlt :: nat
  canonical :: "string option"
  robots :: "string option"

record PerformanceData =
  performanceScore :: "rat option"
  firstContentfulPaintMs :: "rat option"
  largestContentfulPaintMs :: "rat option"
  totalBlockingTimeMs :: "rat option"
  cumulativeLayoutShift :: "rat option"
  strategy :: "string option"
  perf_error :: "string option"

record Landmarks =
  lm_main :: bool
  lm_nav :: bool
  lm_header :: bool
  lm_footer :: bool

record AccessibilityData =
  hasLangAttribute :: bool
  landmarks :: Landmarks
  labeledInputs :: nat
  unlabeledInputs :: nat

record ContentStructureData =
  pageType :: string
  internalLinkCount :: nat
  externalLinkCount :: nat
  brokenLinks :: "string list"
  inboundLinks :: nat
  outboundLinks :: nat

record DesignUxData =
  hasNavigation :: bool
  primaryCtaFound :: bool
  primaryCtaAboveFold :: bool
  fontCount :: nat
  colorCount :: nat
  hasViewportMeta :: bool

record PageData =
  pd_id :: string
  pd_url :: string
  pd_statusCode :: int
  pd_depth :: nat
  scores :: "int Scores"
  issues :: "Issue list"
  seoData :: "SeoData option"
  performanceData :: "PerformanceData option"
  accessibilityData :: "AccessibilityData option"
  contentData :: "ContentStructureData option"
  designUxData :: "DesignUxData option"

record IssuesSummary =
  critical :: nat
  major :: nat
  minor :: nat
  byCategory :: "ScoreCategory \<Rightarrow> nat"

record Audit =
  a_id :: string
  a_url :: string
  status :: AuditStatus
  createdAt :: string
  completedAt :: "string option"
  a_scores :: "int Scores"
  issuesSummary :: IssuesSummary
  pages :: "PageData list"
  reportMarkdown :: "string option"


section \<open>Scoring (scoring.ts, the version with calculatePageScores)\<close>

fun severityPenalty :: "Severity \<Rightarrow> int" where
  "severityPenalty Critical = 25"
| "severityPenalty Major = 15"
| "severityPenalty Minor = 7"

text \<open>\<open>Math.round\<close> rounds to the nearest integer, a tie going up.\<close>

definition js_round :: "rat \<Rightarrow> int" where
  "js_round x = \<lfloor>x + 1 / 2\<rfloor>"

definition clampScore :: "rat \<Rightarrow> int" where
  "clampScore score = max 0 (min 100 (js_round score))"

definition scoreCategory :: "int \<Rightarrow> Issue list \<Rightarrow> ScoreCategory \<Rightarrow> int \<Rightarrow> int" where
  "scoreCategory base iss cat extraPenalty =
     (let totalPenalty =
            foldl (\<lambda>acc issue. acc + severityPenalty (severity issue)) 0
              (filter (\<lambda>issue. category issue = cat) iss)
      in clampScore (of_int (base - totalPenalty - extraPenalty)))"

definition scorePerformance :: "PerformanceData option \<Rightarrow> Issue list \<Rightarrow> int" where
  "scorePerformance pdata iss =
     (case (case pdata of None \<Rightarrow> None | Some d \<Rightarrow> performanceScore d) of
        Some ps \<Rightarrow>
          (let penalty =
                 foldl (\<lambda>acc i. acc + of_int (severityPenalty (severity i)) / 2) (0 :: rat)
                   (filter (\<lambda>i. category i = Performance) iss)
           in clampScore (ps - penalty))
      | None \<Rightarrow> scoreCategory 80 iss Performance 0)"

definition seoPenalty :: "PageData \<Rightarrow> int" where
  "seoPenalty page =
     (case seoData page of
        None \<Rightarrow> 0
      | Some d \<Rightarrow> if wordCount d \<noteq> 0 \<and> wordCount d < 120 then 5 else 0)"

definition accessibilityPenalty :: "PageData \<Rightarrow> int" where
  "accessibilityPenalty page =
     (case accessibilityData page of
        None \<Rightarrow> 0
      | Some d \<Rightarrow> if unlabeledInputs d \<noteq> 0 then 5 else 0)"

definition contentPenalty :: "PageData \<Rightarrow> int" where
  "contentPenalty page =
     (case contentData page of
        None \<Rightarrow> 0
      | Some d \<Rightarrow>
          (if internalLinkCount d = 0 then 10 else 0) +
          (if length (brokenLinks d) > 0 then 5 else 0) +
          (if inboundLinks d = 0 \<and> pd_depth page > 0 then 10 else 0))"

definition uxPenalty :: "PageData \<Rightarrow> int" where
  "uxPenalty page =
     (case designUxData page of
        None \<Rightarrow> 0
      | Some d \<Rightarrow> if \<not> hasNavigation d then 10 else 0)"

definition calculatePageScores :: "PageData \<Rightarrow> int Scores" where
  "calculatePageScores page =
     (let iss = issues page;
          seo' = scoreCategory 100 iss Seo (seoPenalty page);
          accessibility' = scoreCategory 100 iss Accessibility (accessibilityPenalty page);
          content' = scoreCategory 95 iss Content (contentPenalty page);
          uxDesign' = scoreCategory 100 iss UxDesign (uxPenalty page);
          performance' = scorePerformance (performanceData page) iss;
          overall' = clampScore
            (of_int (seo' + accessibility' + content' + uxDesign' + performance') / 5)
      in \<lparr>overall = overall', seo = seo', performance = performance',
          accessibility = accessibility', content = content', uxDesign = uxDesign'\<rparr>)"

text \<open>
  The arithmetic of JavaScript numbers.  A double holds a sign, a significand of 53 bits
  and a binary exponent; the result of \<open>+\<close>, \<open>*\<close> and \<open>/\<close> is the exact result rounded
  to the nearest such number, a tie going to the even significand.  \<open>binade x\<close> is the
  exponent \<open>e\<close> with \<open>2 powi e \<le> \<bar>x\<bar> < 2 powi (e + 1)\<close>, so the doubles around \<open>x\<close>
  are \<open>2 powi (e - 52)\<close> apart and \<open>x\<close> is rounded to a multiple of that step.  The
  exponent is not bounded here: overflow to infinity (from \<open>2 powi 1024\<close> on) and gradual
  underflow (below \<open>2 powi (-1022)\<close>) are left out; scores, weights and weighted totals
  stay far from both.
\<close>

definition binade :: "rat \<Rightarrow> int" where
  "binade x =
     (let pq = quotient_of \<bar>x\<bar>; k = bitlen (fst pq) - bitlen (snd pq)
      in if 2 powi k \<le> \<bar>x\<bar> then k else k - 1)"

definition roundTiesToEven :: "rat \<Rightarrow> int" where
  "roundTiesToEven y =
     (let n = \<lfloor>y\<rfloor>; r = y - of_int n
      in if r < 1 / 2 then n else if 1 / 2 < r then n + 1 else if even n then n else n + 1)"

definition roundDouble :: "rat \<Rightarrow> rat" where
  "roundDouble x =
     (if x = 0 then 0
      else (let ulp = 2 powi (binade x - 52)
            in of_int (roundTiesToEven (x / ulp)) * ulp))"

text \<open>
  The body of the \<open>for\<close> loop of \<open>calculateAuditScores\<close>: one page is added to the
  running weighted totals and to the running total weight.  Every page record carries a
  depth, so the default of \<open>page.depth ?? 0\<close> is never used.  The sum \<open>1 + depth\<close>, the
  quotient, each product \<open>score * weight\<close> and each \<open>+=\<close> is one operation on doubles.
\<close>

definition pageWeight :: "PageData \<Rightarrow> rat" where
  "pageWeight page = roundDouble (1 / roundDouble (1 + of_nat (pd_depth page)))"

definition addWeighted :: "rat Scores \<times> rat \<Rightarrow> PageData \<Rightarrow> rat Scores \<times> rat" where
  "addWeighted acc page =
     (let weightedTotals = fst acc; totalWeight = snd acc; weight = pageWeight page
      in (\<lparr>overall = roundDouble (overall weightedTotals +
                      roundDouble (of_int (overall (scores page)) * weight)),
           seo = roundDouble (seo weightedTotals +
                      roundDouble (of_int (seo (scores page)) * weight)),
           performance = roundDouble (performance weightedTotals +
                      roundDouble (of_int (performance (scores page)) * weight)),
           accessibility = roundDouble (accessibility weightedTotals +
                      roundDouble (of_int (accessibility (scores page)) * weight)),
           content = roundDouble (content weightedTotals +
                      roundDouble (of_int (content (scores page)) * weight)),
           uxDesign = roundDouble (uxDesign weightedTotals +
                      roundDouble (of_int (uxDesign (scores page)) * weight))\<rparr>,
          roundDouble (totalWeight + weight)))"

definition zeroScores :: "'n::zero Scores" where
  "zeroScores = \<lparr>overall = 0, seo = 0, performance = 0, accessibility = 0, content = 0,
                 uxDesign = 0\<rparr>"

definition summarize :: "Issue list \<Rightarrow> IssuesSummary" where
  "summarize allIssues =
     \<lparr>critical = length (filter (\<lambda>i. severity i = Critical) allIssues),
      major = length (filter (\<lambda>i. severity i = Major) allIssues),
      minor = length (filter (\<lambda>i. severity i = Minor) allIssues),
      byCategory = (\<lambda>c. length (filter (\<lambda>i. category i = c) allIssues))\<rparr>"

definition calculateAuditScores :: "PageData list \<Rightarrow> int Scores \<times> IssuesSummary" where
  "calculateAuditScores ps =
     (if length ps = 0 then
        (zeroScores,
         \<lparr>critical = 0, major = 0, minor = 0, byCategory = (\<lambda>c. 0)\<rparr>)
      else
        (let acc = foldl addWeighted (zeroScores, 0) ps;
             weightedTotals = fst acc; totalWeight = snd acc;
             scores' = \<lparr>overall = clampScore (roundDouble (overall weightedTotals / totalWeight)),
                        seo = clampScore (roundDouble (seo weightedTotals / totalWeight)),
                        performance =
                          clampScore (roundDouble (performance weightedTotals / totalWeight)),
                        accessibility =
                          clampScore (roundDouble (accessibility weightedTotals / totalWeight)),
                        content =
                          clampScore (roundDouble (content weightedTotals / totalWeight)),
                        uxDesign =
                          clampScore (roundDouble (uxDesign weightedTotals / totalWeight))\<rparr>;
             allIssues = concat (map issues ps)
         in (scores', summarize allIssues)))"


section \<open>String helpers of the JavaScript runtime\<close>

text \<open>
  Strings are byte lists.  \<open>trim\<close> strips the ASCII white space characters and
  \<open>toLowerCase\<close> folds the ASCII letters; other characters are left unchanged.
\<close>

definition isSpace :: "char \<Rightarrow> bool" where
  "isSpace c = (c \<in> set [CHR '' '', CHR 0x09, CHR 0x0A, CHR 0x0B, CHR 0x0C, CHR 0x0D])"

definition trim :: "string \<Rightarrow> string" where
  "trim s = rev (dropWhile isSpace (rev (dropWhile isSpace s)))"

definition lowerChar :: "char \<Rightarrow> char" where
  "lowerChar c =
     (case map_of (zip ''ABCDEFGHIJKLMNOPQRSTUVWXYZ'' ''abcdefghijklmnopqrstuvwxyz'') c of
        Some l \<Rightarrow> l
      | None \<Rightarrow> c)"

definition toLowerCase :: "string \<Rightarrow> string" where
  "toLowerCase s = map lowerChar s"

fun startsWith :: "string \<Rightarrow> string \<Rightarrow> bool" where
  "startsWith s [] = True"
| "startsWith [] (k # ks) = False"
| "startsWith (c # cs) (k # ks) = (c = k \<and> startsWith cs ks)"

fun includes_str :: "string \<Rightarrow> string \<Rightarrow> bool" where
  "includes_str [] k = (k = [])"
| "includes_str (c # cs) k = (startsWith (c # cs) k \<or> includes_str cs k)"

text \<open>\<open>indexOf\<close> gives the first position of the needle, or \<open>-1\<close>.\<close>

fun indexOf :: "string \<Rightarrow> string \<Rightarrow> int" where
  "indexOf [] k = (if k = [] then 0 else -1)"
| "indexOf (c # cs) k =
     (if startsWith (c # cs) k then 0
      else (let r = indexOf cs k in if r < 0 then -1 else r + 1))"

fun show_nat :: "nat \<Rightarrow> string" where
  "show_nat n =
     (if n < 10 then [''0123456789'' ! n]
      else show_nat (n div 10) @ [''0123456789'' ! (n mod 10)])"

declare show_nat.simps [simp del]

definition show_int :: "int \<Rightarrow> string" where
  "show_int i = (if i < 0 then ''-'' @ show_nat (nat (- i)) else show_nat (nat i))"

text \<open>
  \<open>toFixed\<close> is only applied to positive timings here; the value is rounded to the
  requested number of decimals, a tie going up.
\<close>

definition toFixed0 :: "rat \<Rightarrow> string" where
  "toFixed0 x = show_nat (nat \<lfloor>x + 1 / 2\<rfloor>)"

definition toFixed1 :: "rat \<Rightarrow> string" where
  "toFixed1 x =
     (let n = nat \<lfloor>x * 10 + 1 / 2\<rfloor>
      in show_nat (n div 10) @ ''.'' @ show_nat (n mod 10))"

text \<open>JavaScript truthiness of an optional string: present and non-empty.\<close>

fun truthy :: "string option \<Rightarrow> bool" where
  "truthy None = False"
| "truthy (Some s) = (s \<noteq> [])"


section \<open>Analyzers (analyzers.ts)\<close>

text \<open>
  The analyzers query the parsed document through cheerio selectors and regular
  expressions.  The answers to those queries are the fields of \<open>PageDom\<close>; the
  function \<open>parse\<close> from markup to these answers is a parameter of the model, and it
  is \<open>None\<close> when one of the queries throws.  The network calls (the HEAD probe and
  the PageSpeed request) and the process environment are parameters as well.
\<close>

record PageDom =
  dom_titleText :: string
  dom_metaDescription :: "string option"
  dom_h1Count :: nat
  dom_h1FirstText :: string
  dom_wordCount :: nat
  dom_imagesWithoutAlt :: nat
  dom_canonical :: "string option"
  dom_robots :: "string option"
  dom_lang :: "string option"
  dom_hasMain :: bool
  dom_hasNav :: bool
  dom_hasHeader :: bool
  dom_hasFooter :: bool
  dom_inputsLabeled :: "bool list"
  dom_emptyButtons :: nat
  dom_hasNavigation :: bool
  dom_fontCount :: nat
  dom_colorCount :: nat
  dom_hasViewportMeta :: bool

record Lighthouse =
  lh_score :: "rat option"
  lh_firstContentfulPaint :: "rat option"
  lh_largestContentfulPaint :: "rat option"
  lh_totalBlockingTime :: "rat option"
  lh_cumulativeLayoutShift :: "rat option"

datatype PsiOutcome = PsiThrew "string option" | PsiResponse Lighthouse

record AnalysisEnv =
  parse :: "string \<Rightarrow> PageDom option"
  headStatus :: "string \<Rightarrow> int option"
  apiKey :: "string option"
  pageSpeed :: "string \<Rightarrow> PsiOutcome"

record AnalyzerOutput =
  ao_issues :: "Issue list"
  ao_seoData :: "SeoData option"
  ao_performanceData :: "PerformanceData option"
  ao_accessibilityData :: "AccessibilityData option"
  ao_contentData :: "ContentStructureData option"
  ao_designUxData :: "DesignUxData option"

definition CTA_KEYWORDS :: "string list" where
  "CTA_KEYWORDS = [''prenota'', ''ordina'', ''chiama'', ''contattaci'', ''acquista'',
     ''book now'', ''order now'', ''call us'', ''contact'', ''buy now'']"

definition CTA_ABOVE_FOLD_THRESHOLD :: int where
  "CTA_ABOVE_FOLD_THRESHOLD = 5000"

definition createIssue ::
  "ScoreCategory \<Rightarrow> string \<Rightarrow> Severity \<Rightarrow> string \<Rightarrow> string option \<Rightarrow> Issue" where
  "createIssue cat c sev msg purl =
     \<lparr>issue_id = [], category = cat, code = c, severity = sev, message = msg, pageUrl = purl\<rparr>"

definition analyzeSeo :: "PageDom \<Rightarrow> string \<Rightarrow> SeoData \<times> Issue list" where
  "analyzeSeo doc u =
     (let title' = trim (dom_titleText doc);
          metaDescription' = map_option trim (dom_metaDescription doc);
          h1Count = dom_h1Count doc;
          h1Text' = trim (dom_h1FirstText doc);
          wordCount' = dom_wordCount doc;
          imagesWithoutAlt' = dom_imagesWithoutAlt doc;
          issues1 =
            (if title' = [] then
               [createIssue Seo ''MISSING_TITLE'' Critical ''Missing <title> tag'' (Some u)]
             else if length title' < 20 then
               [createIssue Seo ''SHORT_TITLE'' Minor ''Title is shorter than 20 characters''
                  (Some u)]
             else []);
          issues2 =
            (if \<not> truthy metaDescription' then
               [createIssue Seo ''MISSING_META_DESCRIPTION'' Major ''Missing meta description''
                  (Some u)]
             else if length (case metaDescription' of None \<Rightarrow> [] | Some m \<Rightarrow> m) < 60 then
               [createIssue Seo ''SHORT_META_DESCRIPTION'' Minor
                  ''Meta description is quite short'' (Some u)]
             else []);
          issues3 =
            (if h1Count = 0 then
               [createIssue Seo ''MISSING_H1'' Major ''No H1 heading found'' (Some u)]
             else if h1Count > 1 then
               [createIssue Seo ''MULTIPLE_H1'' Minor ''Multiple H1 headings found'' (Some u)]
             else []);
          issues4 =
            (if wordCount' < 200 then
               [createIssue Seo ''LOW_WORD_COUNT'' Major ''Low on-page word count (<200 words)''
                  (Some u)]
             else []);
          issues5 =
            (if imagesWithoutAlt' > 0 then
               [createIssue Seo ''IMAGES_WITHOUT_ALT'' Major
                  (show_nat imagesWithoutAlt' @ '' images missing alt text'') (Some u)]
             else [])
      in (\<lparr>title = title', metaDescription = metaDescription', h1Text = h1Text',
           wordCount = wordCount', imagesWithoutAlt = imagesWithoutAlt',
           canonical = dom_canonical doc, robots = dom_robots doc\<rparr>,
          issues1 @ issues2 @ issues3 @ issues4 @ issues5))"

text \<open>
  \<open>analyzePerformance\<close>: without an API key nothing is requested.  Otherwise the
  request either throws (\<open>PsiThrew\<close>, caught by the \<open>catch\<close> block) or answers with a
  Lighthouse result.
\<close>

definition analyzePerformance ::
  "AnalysisEnv \<Rightarrow> string \<Rightarrow> PerformanceData option \<times> Issue list" where
  "analyzePerformance env u =
     (if \<not> truthy (apiKey env) then
        (None,
         [createIssue Performance ''PERFORMANCE_DATA_UNAVAILABLE'' Minor
            ''PageSpeed API key not configured; using placeholder score'' (Some u)])
      else
        (case pageSpeed env u of
           PsiThrew msg \<Rightarrow>
             (Some \<lparr>performanceScore = None, firstContentfulPaintMs = None,
                    largestContentfulPaintMs = None, totalBlockingTimeMs = None,
                    cumulativeLayoutShift = None, strategy = None, perf_error = msg\<rparr>,
              [createIssue Performance ''PERFORMANCE_DATA_UNAVAILABLE'' Minor
                 ''Failed to retrieve PageSpeed data'' (Some u)])
         | PsiResponse lighthouse \<Rightarrow>
             (let performanceScore' =
                    js_round ((case lh_score lighthouse of None \<Rightarrow> 0 | Some sc \<Rightarrow> sc) * 100);
                  largestContentfulPaintMs' = lh_largestContentfulPaint lighthouse;
                  totalBlockingTimeMs' = lh_totalBlockingTime lighthouse;
                  issues1 =
                    (case largestContentfulPaintMs' of
                       None \<Rightarrow> []
                     | Some lcp \<Rightarrow>
                         if lcp \<noteq> 0 \<and> lcp > 4000 then
                           [createIssue Performance ''SLOW_LCP_MOBILE'' Critical
                              (''LCP is '' @ toFixed1 (lcp / 1000) @ ''s on mobile'') (Some u)]
                         else []);
                  issues2 =
                    (case totalBlockingTimeMs' of
                       None \<Rightarrow> []
                     | Some tbt \<Rightarrow>
                         if tbt \<noteq> 0 \<and> tbt > 600 then
                           [createIssue Performance ''HIGH_TBT'' Major
                              (''Total blocking time is '' @ toFixed0 tbt @ ''ms'') (Some u)]
                         else []);
                  issues3 =
                    (if performanceScore' < 50 then
                       [createIssue Performance ''POOR_PERFORMANCE_SCORE'' Critical
                          (''Performance score is '' @ show_int performanceScore' @ ''/100'')
                          (Some u)]
                     else [])
              in (Some \<lparr>performanceScore = Some (of_int performanceScore'),
                        firstContentfulPaintMs = lh_firstContentfulPaint lighthouse,
                        largestContentfulPaintMs = largestContentfulPaintMs',
                        totalBlockingTimeMs = totalBlockingTimeMs',
                        cumulativeLayoutShift = lh_cumulativeLayoutShift lighthouse,
                        strategy = Some ''mobile'', perf_error = None\<rparr>,
                  issues1 @ issues2 @ issues3))))"

definition analyzeAccessibility :: "PageDom \<Rightarrow> string \<Rightarrow> AccessibilityData \<times> Issue list" where
  "analyzeAccessibility doc u =
     (let lang = dom_lang doc;
          landmarks' = \<lparr>lm_main = dom_hasMain doc, lm_nav = dom_hasNav doc,
                        lm_header = dom_hasHeader doc, lm_footer = dom_hasFooter doc\<rparr>;
          inputs = dom_inputsLabeled doc;
          labeledInputs' = length (filter (\<lambda>b. b) inputs);
          unlabeledInputs' = length inputs - labeledInputs';
          issues1 =
            (if \<not> truthy lang then
               [createIssue Accessibility ''MISSING_LANG'' Major
                  ''html element is missing lang attribute'' (Some u)]
             else []);
          issues2 =
            (if \<not> lm_main landmarks' then
               [createIssue Accessibility ''MISSING_MAIN'' Minor ''Main landmark not found''
                  (Some u)]
             else []);
          issues3 =
            (if unlabeledInputs' > 0 then
               [createIssue Accessibility ''UNLABELED_INPUTS'' Major
                  (show_nat unlabeledInputs' @ '' form fields missing labels'') (Some u)]
             else []);
          emptyButtons = dom_emptyButtons doc;
          issues4 =
            (if emptyButtons > 0 then
               [createIssue Accessibility ''EMPTY_BUTTONS'' Minor
                  (show_nat emptyButtons @ '' buttons have no accessible name'') (Some u)]
             else [])
      in (\<lparr>hasLangAttribute = truthy lang, landmarks = landmarks',
           labeledInputs = labeledInputs', unlabeledInputs = unlabeledInputs'\<rparr>,
          issues1 @ issues2 @ issues3 @ issues4))"

text \<open>
  The HEAD probe of one internal link: the link counts as broken when the request
  throws (\<open>None\<close>) or answers with a status of 400 or more.
\<close>

definition isBroken :: "AnalysisEnv \<Rightarrow> string \<Rightarrow> bool" where
  "isBroken env link = (case headStatus env link of None \<Rightarrow> True | Some st \<Rightarrow> st \<ge> 400)"

definition analyzeContentStructure ::
  "AnalysisEnv \<Rightarrow> PageDom \<Rightarrow> PageResult \<Rightarrow> ContentStructureData \<times> Issue list" where
  "analyzeContentStructure env doc page =
     (let title' = toLowerCase (dom_titleText doc);
          h1 = toLowerCase (dom_h1FirstText doc);
          combined = url page @ '' '' @ title' @ '' '' @ h1;
          pageType' =
            (if includes_str combined ''contact'' then ''contact''
             else if includes_str combined ''about'' then ''about''
             else if includes_str combined ''menu'' \<or> includes_str combined ''services''
               then ''menu''
             else if includes_str combined ''home'' then ''home''
             else ''generic'');
          brokenLinks' =
            (if depth page \<le> 1 then filter (isBroken env) (take 5 (internalLinks page))
             else []);
          issues' =
            (if depth page \<le> 1 \<and> length brokenLinks' > 0 then
               [createIssue Content ''BROKEN_INTERNAL_LINK'' Major
                  (show_nat (length brokenLinks') @ '' internal links appear broken'')
                  (Some (url page))]
             else [])
      in (\<lparr>pageType = pageType', internalLinkCount = length (internalLinks page),
           externalLinkCount = length (externalLinks page), brokenLinks = brokenLinks',
           inboundLinks = 0, outboundLinks = length (internalLinks page)\<rparr>,
          issues'))"

definition analyzeDesignUx :: "string \<Rightarrow> PageDom \<Rightarrow> string \<Rightarrow> DesignUxData \<times> Issue list" where
  "analyzeDesignUx markup doc u =
     (let hasNavigation' = dom_hasNavigation doc;
          lowerHtml = toLowerCase markup;
          primaryCtaMatch = find (\<lambda>keyword. includes_str lowerHtml keyword) CTA_KEYWORDS;
          primaryCtaFound' = (primaryCtaMatch \<noteq> None);
          primaryCtaAboveFold' =
            (case primaryCtaMatch of
               None \<Rightarrow> False
             | Some m \<Rightarrow> indexOf lowerHtml m < CTA_ABOVE_FOLD_THRESHOLD);
          fontCount' = dom_fontCount doc;
          colorCount' = dom_colorCount doc;
          hasViewportMeta' = dom_hasViewportMeta doc;
          issues1 =
            (if \<not> hasNavigation' then
               [createIssue UxDesign ''MISSING_NAV'' Major ''Navigation landmark not detected''
                  (Some u)]
             else []);
          issues2 =
            (if \<not> primaryCtaFound' then
               [createIssue UxDesign ''NO_PRIMARY_CTA'' Major ''No clear call-to-action found''
                  (Some u)]
             else if \<not> primaryCtaAboveFold' then
               [createIssue UxDesign ''NO_CTA_ABOVE_FOLD'' Minor
                  ''Primary call-to-action not found near top of page'' (Some u)]
             else []);
          issues3 =
            (if \<not> hasViewportMeta' then
               [createIssue UxDesign ''MISSING_VIEWPORT_META'' Critical
                  ''Missing responsive viewport meta tag'' (Some u)]
             else []);
          issues4 =
            (if fontCount' > 4 then
               [createIssue UxDesign ''EXCESSIVE_FONTS'' Minor
                  ''Too many different fonts detected'' (Some u)]
             else []);
          issues5 =
            (if colorCount' > 8 then
               [createIssue UxDesign ''EXCESSIVE_COLORS'' Minor
                  ''High number of inline text colors may hurt consistency'' (Some u)]
             else [])
      in (\<lparr>hasNavigation = hasNavigation', primaryCtaFound = primaryCtaFound',
           primaryCtaAboveFold = primaryCtaAboveFold', fontCount = fontCount',
           colorCount = colorCount', hasViewportMeta = hasViewportMeta'\<rparr>,
          issues1 @ issues2 @ issues3 @ issues4 @ issues5))"

text \<open>
  \<open>analyzePage\<close>, in two parts: \<open>analyzeDocument\<close> is its body once the markup has
  been parsed, and \<open>analyzePage\<close> itself is \<open>None\<close> when a document query throws (the
  exception leaves the function).
\<close>

definition analyzeDocument :: "AnalysisEnv \<Rightarrow> PageResult \<Rightarrow> PageDom \<Rightarrow> AnalyzerOutput" where
  "analyzeDocument env page doc =
     (let seo' = analyzeSeo doc (url page);
          accessibility' = analyzeAccessibility doc (url page);
          ux = analyzeDesignUx (html page) doc (url page);
          content' = analyzeContentStructure env doc page;
          perf = (if depth page = 0 then analyzePerformance env (url page) else (None, []))
      in \<lparr>ao_issues = snd seo' @ snd perf @ snd accessibility' @ snd content' @ snd ux,
          ao_seoData = Some (fst seo'), ao_performanceData = fst perf,
          ao_accessibilityData = Some (fst accessibility'),
          ao_contentData = Some (fst content'), ao_designUxData = Some (fst ux)\<rparr>)"

definition analyzePage :: "AnalysisEnv \<Rightarrow> PageResult \<Rightarrow> AnalyzerOutput option" where
  "analyzePage env page =
     (if html page = [] then
        Some \<lparr>ao_issues =
           [createIssue Content ''PAGE_UNREACHABLE'' Critical ''Page could not be retrieved''
              (Some (url page))],
         ao_seoData = None, ao_performanceData = None, ao_accessibilityData = None,
         ao_contentData = None, ao_designUxData = None\<rparr>
      else map_option (analyzeDocument env page) (parse env (html page)))"


section \<open>Crawler (crawler.ts, the version with depth tracking)\<close>

text \<open>
  The network and the libraries are parameters of the model: \<open>fetch\<close> is the outcome
  of the GET request for a URL (it throws, or it answers), \<open>anchors\<close> lists the
  \<open>href\<close> attribute of every anchor element of a document in document order,
  \<open>resolveUrl href base\<close> is \<open>new URL(href, base).href\<close> and \<open>hostname\<close> is
  \<open>new URL(u).hostname\<close>; the last two are \<open>None\<close> where the constructor throws.
  The page and depth limits are integers; an option that the caller leaves out takes
  its value from \<open>DEFAULT_OPTIONS\<close>.  The time limit only decides whether a request
  throws, which is part of \<open>fetch\<close>.
\<close>

record QueueItem =
  q_url :: string
  q_depth :: nat

record CrawlOptions =
  opt_maxPages :: "int option"
  opt_maxDepth :: "int option"
  opt_timeoutMs :: "int option"

record RequiredCrawlOptions =
  req_maxPages :: int
  req_maxDepth :: int
  req_timeoutMs :: int

datatype ResponseData = StringData string | OtherData

record HttpResponse =
  resp_status :: int
  resp_contentType :: "string option"
  resp_data :: ResponseData

datatype FetchOutcome = FetchThrew string | FetchResponse HttpResponse

record CrawlEnv =
  fetch :: "string \<Rightarrow> FetchOutcome"
  anchors :: "string \<Rightarrow> string option list"
  resolveUrl :: "string \<Rightarrow> string \<Rightarrow> string option"
  hostname :: "string \<Rightarrow> string option"

definition DEFAULT_OPTIONS :: RequiredCrawlOptions where
  "DEFAULT_OPTIONS = \<lparr>req_maxPages = 20, req_maxDepth = 2, req_timeoutMs = 12000\<rparr>"

definition isValidLink :: "string \<Rightarrow> bool" where
  "isValidLink href =
     (let trimmed = trim href
      in if trimmed = [] then False
         else (let lower = toLowerCase trimmed
               in \<not> startsWith lower ''mailto:'' \<and>
                  \<not> startsWith lower ''tel:'' \<and>
                  \<not> startsWith lower ''javascript:'' \<and>
                  \<not> startsWith lower ''#'' \<and>
                  \<not> startsWith lower ''data:''))"

text \<open>
  One anchor, up to the classification: the anchors without a usable \<open>href\<close> and those
  whose URL cannot be built are dropped; the others give the absolute URL and its host.
\<close>

definition resolveAnchor :: "CrawlEnv \<Rightarrow> string \<Rightarrow> string option \<Rightarrow> (string \<times> string) option" where
  "resolveAnchor env currentUrl href =
     (case href of
        None \<Rightarrow> None
      | Some h \<Rightarrow>
          if h = [] \<or> \<not> isValidLink h then None
          else (case resolveUrl env h currentUrl of
                  None \<Rightarrow> None
                | Some absoluteUrl \<Rightarrow>
                    (case hostname env absoluteUrl of
                       None \<Rightarrow> None
                     | Some linkDomain \<Rightarrow> Some (absoluteUrl, linkDomain))))"

text \<open>
  The callback of \<open>$('a').each\<close>.  Its state is the two link lists of the page and the
  work queue, which it extends in place.
\<close>

definition scanAnchor ::
  "CrawlEnv \<Rightarrow> string \<Rightarrow> int \<Rightarrow> string set \<Rightarrow> string \<Rightarrow> nat \<Rightarrow>
   string list \<times> string list \<times> QueueItem list \<Rightarrow> string option \<Rightarrow>
   string list \<times> string list \<times> QueueItem list" where
  "scanAnchor env domain maxDepth visited currentUrl d st href =
     (case resolveAnchor env currentUrl href of
        None \<Rightarrow> st
      | Some (absoluteUrl, linkDomain) \<Rightarrow>
          (let il = fst st; el = fst (snd st); queue = snd (snd st);
               isInternal = (linkDomain = domain)
           in if isInternal then
                (let shouldQueue = (int d < maxDepth \<and> absoluteUrl \<notin> visited \<and>
                                    \<not> list_ex (\<lambda>item. q_url item = absoluteUrl) queue)
                 in (il @ [absoluteUrl], el,
                     if shouldQueue then queue @ [\<lparr>q_url = absoluteUrl, q_depth = d + 1\<rparr>]
                     else queue))
              else (il, el @ [absoluteUrl], queue)))"

text \<open>
  The body of the \<open>while\<close> loop for a URL that was not visited before: the request,
  the link scan and the result record.  It returns the result and the queue.
\<close>

definition visitPage ::
  "CrawlEnv \<Rightarrow> string \<Rightarrow> int \<Rightarrow> string set \<Rightarrow> QueueItem \<Rightarrow> QueueItem list \<Rightarrow>
   PageResult \<times> QueueItem list" where
  "visitPage env domain maxDepth visited next queue =
     (let currentUrl = q_url next; d = q_depth next
      in case fetch env currentUrl of
           FetchThrew msg \<Rightarrow>
             (\<lparr>url = currentUrl, statusCode = 0, html = [], depth = d, internalLinks = [],
               externalLinks = [], error = Some msg\<rparr>, queue)
         | FetchResponse response \<Rightarrow>
             (let contentType = (case resp_contentType response of None \<Rightarrow> [] | Some c \<Rightarrow> c);
                  isHtml = includes_str contentType ''text/html'';
                  html' = (case resp_data response of
                             StringData body \<Rightarrow> if isHtml then body else []
                           | OtherData \<Rightarrow> []);
                  st = (if html' \<noteq> [] \<and> resp_status response \<ge> 200 \<and>
                           resp_status response < 400
                        then foldl (scanAnchor env domain maxDepth visited currentUrl d)
                               ([], [], queue) (anchors env html')
                        else ([], [], queue))
              in (\<lparr>url = currentUrl, statusCode = resp_status response, html = html',
                   depth = d, internalLinks = fst st, externalLinks = fst (snd st),
                   error = None\<rparr>, snd (snd st))))"

text \<open>
  The \<open>while\<close> loop of \<open>crawlSite\<close> on its three variables: the queue, the visited
  set and the results.  It ends when the queue is empty or the results have reached
  \<open>maxPages\<close>; each round either drops a queued URL that was visited already or adds
  one result.
\<close>

function crawl_loop ::
  "CrawlEnv \<Rightarrow> string \<Rightarrow> int \<Rightarrow> int \<Rightarrow> QueueItem list \<Rightarrow> string set \<Rightarrow>
   PageResult list \<Rightarrow> PageResult list" where
  "crawl_loop env domain maxPages maxDepth queue visited results =
     (case queue of
        [] \<Rightarrow> results
      | next # rest \<Rightarrow>
          if \<not> int (length results) < maxPages then results
          else if q_url next \<in> visited then
            crawl_loop env domain maxPages maxDepth rest visited results
          else
            (let visited' = insert (q_url next) visited;
                 step = visitPage env domain maxDepth visited' next rest
             in crawl_loop env domain maxPages maxDepth (snd step) visited'
                  (results @ [fst step])))"
  by pat_completeness auto
termination
  by (relation "measures
        [\<lambda>(env, domain, maxPages, maxDepth, queue, visited, results).
           nat (maxPages - int (length results)),
         \<lambda>(env, domain, maxPages, maxDepth, queue, visited, results). length queue]")
     auto

declare crawl_loop.simps [simp del]

definition crawlSite :: "CrawlEnv \<Rightarrow> string \<Rightarrow> CrawlOptions \<Rightarrow> PageResult list" where
  "crawlSite env startUrl options =
     (let maxPages = (case opt_maxPages options of
                        Some v \<Rightarrow> v
                      | None \<Rightarrow> req_maxPages DEFAULT_OPTIONS);
          maxDepth = (case opt_maxDepth options of
                        Some v \<Rightarrow> v
                      | None \<Rightarrow> req_maxDepth DEFAULT_OPTIONS)
      in case hostname env startUrl of
           None \<Rightarrow> []
         | Some domain \<Rightarrow>
             crawl_loop env domain maxPages maxDepth [\<lparr>q_url = startUrl, q_depth = 0\<rparr>] {} [])"


section \<open>Storage (storage.ts)\<close>

text \<open>
  The JSON file is the list of audits it holds.  \<open>Partial<Audit>\<close> is a record of
  optional fields and \<open>{...audit, ...updates}\<close> overwrites the fields that are present.
\<close>

record AuditUpdates =
  u_id :: "string option"
  u_url :: "string option"
  u_status :: "AuditStatus option"
  u_createdAt :: "string option"
  u_completedAt :: "string option"
  u_scores :: "int Scores option"
  u_issuesSummary :: "IssuesSummary option"
  u_pages :: "PageData list option"
  u_reportMarkdown :: "string option"

definition noUpdates :: AuditUpdates where
  "noUpdates = \<lparr>u_id = None, u_url = None, u_status = None, u_createdAt = None,
     u_completedAt = None, u_scores = None, u_issuesSummary = None, u_pages = None,
     u_reportMarkdown = None\<rparr>"

definition mergeAudit :: "Audit \<Rightarrow> AuditUpdates \<Rightarrow> Audit" where
  "mergeAudit a u =
     \<lparr>a_id = (case u_id u of None \<Rightarrow> a_id a | Some v \<Rightarrow> v),
      a_url = (case u_url u of None \<Rightarrow> a_url a | Some v \<Rightarrow> v),
      status = (case u_status u of None \<Rightarrow> status a | Some v \<Rightarrow> v),
      createdAt = (case u_createdAt u of None \<Rightarrow> createdAt a | Some v \<Rightarrow> v),
      completedAt = (case u_completedAt u of None \<Rightarrow> completedAt a | Some v \<Rightarrow> Some v),
      a_scores = (case u_scores u of None \<Rightarrow> a_scores a | Some v \<Rightarrow> v),
      issuesSummary = (case u_issuesSummary u of None \<Rightarrow> issuesSummary a | Some v \<Rightarrow> v),
      pages = (case u_pages u of None \<Rightarrow> pages a | Some v \<Rightarrow> v),
      reportMarkdown =
        (case u_reportMarkdown u of None \<Rightarrow> reportMarkdown a | Some v \<Rightarrow> Some v)\<rparr>"

fun findIndex :: "('a \<Rightarrow> bool) \<Rightarrow> 'a list \<Rightarrow> int" where
  "findIndex P [] = -1"
| "findIndex P (x # xs) =
     (if P x then 0 else (let r = findIndex P xs in if r = -1 then -1 else r + 1))"

definition storage_get :: "Audit list \<Rightarrow> string \<Rightarrow> Audit option" where
  "storage_get audits i = find (\<lambda>a. a_id a = i) audits"

definition storage_create :: "Audit list \<Rightarrow> string \<Rightarrow> string \<Rightarrow> string \<Rightarrow> Audit \<times> Audit list" where
  "storage_create audits newId u now =
     (let newAudit =
            \<lparr>a_id = newId, a_url = u, status = QUEUED, createdAt = now, completedAt = None,
             a_scores = zeroScores,
             issuesSummary = \<lparr>critical = 0, major = 0, minor = 0, byCategory = (\<lambda>c. 0)\<rparr>,
             pages = [], reportMarkdown = None\<rparr>
      in (newAudit, audits @ [newAudit]))"

definition storage_update :: "Audit list \<Rightarrow> string \<Rightarrow> AuditUpdates \<Rightarrow> Audit list" where
  "storage_update audits i updates =
     (let index = findIndex (\<lambda>a. a_id a = i) audits
      in if index \<noteq> -1 then audits[nat index := mergeAudit (audits ! nat index) updates]
         else audits)"


section \<open>Orchestrator (runner.ts)\<close>

definition bumpInbound :: "(string \<rightharpoonup> nat) \<Rightarrow> string \<Rightarrow> (string \<rightharpoonup> nat)" where
  "bumpInbound inbound link =
     (case inbound link of None \<Rightarrow> inbound | Some c \<Rightarrow> inbound(link \<mapsto> c + 1))"

definition buildInboundLinkMap :: "PageResult list \<Rightarrow> (string \<rightharpoonup> nat)" where
  "buildInboundLinkMap ps =
     foldl (\<lambda>inbound page. foldl bumpInbound inbound (internalLinks page))
       (foldl (\<lambda>inbound p. inbound(url p \<mapsto> 0)) Map.empty ps) ps"

definition applyContentGraphIssues :: "PageData \<Rightarrow> nat \<Rightarrow> PageData" where
  "applyContentGraphIssues page inbound =
     (let contentData' =
            map_option (\<lambda>c. c\<lparr>inboundLinks := inbound, outboundLinks := internalLinkCount c\<rparr>)
              (contentData page);
          issues' =
            issues page @
            (if inbound = 0 \<and> pd_depth page > 0 then
               [\<lparr>issue_id = [], category = Content, code = ''ORPHAN_PAGE'', severity = Major,
                 message = ''Page has no inbound internal links'',
                 pageUrl = Some (pd_url page)\<rparr>]
             else [])
      in page\<lparr>contentData := contentData', issues := issues'\<rparr>)"

definition nl :: string where
  "nl = [CHR 0x0A]"

definition dq :: string where
  "dq = [CHR 0x22]"

text \<open>\<open>JSON.stringify(byCategory, null, 2)\<close>, the keys in the order of the object literal.\<close>

definition stringifyByCategory :: "(ScoreCategory \<Rightarrow> nat) \<Rightarrow> string" where
  "stringifyByCategory bc =
     ''{'' @ nl @
     ''  '' @ dq @ ''seo'' @ dq @ '': '' @ show_nat (bc Seo) @ '','' @ nl @
     ''  '' @ dq @ ''performance'' @ dq @ '': '' @ show_nat (bc Performance) @ '','' @ nl @
     ''  '' @ dq @ ''accessibility'' @ dq @ '': '' @ show_nat (bc Accessibility) @ '','' @ nl @
     ''  '' @ dq @ ''content'' @ dq @ '': '' @ show_nat (bc Content) @ '','' @ nl @
     ''  '' @ dq @ ''uxDesign'' @ dq @ '': '' @ show_nat (bc UxDesign) @ nl @
     ''}''"

definition generateReport :: "string \<Rightarrow> int Scores \<Rightarrow> IssuesSummary \<Rightarrow> string" where
  "generateReport u sc summary =
     ''# Audit Report for '' @ u @ nl @ nl @
     ''## Overview'' @ nl @
     ''- **Overall score:** '' @ show_int (overall sc) @ ''/100'' @ nl @
     ''- **SEO:** '' @ show_int (seo sc) @ nl @
     ''- **Performance:** '' @ show_int (performance sc) @ nl @
     ''- **Accessibility:** '' @ show_int (accessibility sc) @ nl @
     ''- **Content:** '' @ show_int (content sc) @ nl @
     ''- **UX & Design:** '' @ show_int (uxDesign sc) @ nl @ nl @
     ''## Issues summary'' @ nl @
     ''- Critical: '' @ show_nat (critical summary) @ nl @
     ''- Major: '' @ show_nat (major summary) @ nl @
     ''- Minor: '' @ show_nat (minor summary) @ nl @
     ''- By category: '' @ stringifyByCategory (byCategory summary) @ nl @ nl @
     ''## Next steps'' @ nl @
     ''1. Address critical and major issues starting from the homepage and top-level navigation pages.'' @ nl @
     ''2. Improve metadata (titles, descriptions, headings) on thin-content pages.'' @ nl @
     ''3. Add responsive viewport meta tags and clear CTAs above the fold where missing.'' @ nl @
     ''4. Re-run the audit after fixes to validate improvements.'' @ nl"

text \<open>
  The body of the \<open>for\<close> loop of \<open>startAudit\<close> for one crawl result, in two parts:
  \<open>buildPage\<close> makes the scored page record from the analysis of a result, and
  \<open>processPage\<close> is the whole iteration, \<open>None\<close> when \<open>analyzePage\<close> throws.
  \<open>pid\<close> is the value of the \<open>randomUUID()\<close> call of the iteration.
\<close>

definition buildPage ::
  "(string \<rightharpoonup> nat) \<Rightarrow> string \<Rightarrow> PageResult \<Rightarrow> AnalyzerOutput \<Rightarrow> PageData" where
  "buildPage inboundMap pid raw analysis =
     (let pageBase =
            \<lparr>pd_id = pid, pd_url = url raw, pd_statusCode = statusCode raw,
             pd_depth = depth raw, scores = zeroScores, issues = ao_issues analysis,
             seoData = ao_seoData analysis, performanceData = ao_performanceData analysis,
             accessibilityData = ao_accessibilityData analysis,
             contentData = ao_contentData analysis,
             designUxData = ao_designUxData analysis\<rparr>;
          withGraph = applyContentGraphIssues pageBase
            (case inboundMap (url raw) of None \<Rightarrow> 0 | Some n \<Rightarrow> n);
          issuesWithIds =
            map (\<lambda>(idx, issue).
                   issue\<lparr>issue_id := pd_id withGraph @ ''-'' @ show_nat idx,
                         pageUrl := Some (pd_url withGraph)\<rparr>)
              (enumerate 0 (issues withGraph));
          scoredPage = withGraph\<lparr>issues := issuesWithIds\<rparr>
      in scoredPage\<lparr>scores := calculatePageScores scoredPage\<rparr>)"

definition processPage ::
  "AnalysisEnv \<Rightarrow> (string \<rightharpoonup> nat) \<Rightarrow> string \<Rightarrow> PageResult \<Rightarrow> PageData option" where
  "processPage env inboundMap pid raw =
     (if truthy (error raw) then
        Some \<lparr>pd_id = pid, pd_url = url raw, pd_statusCode = statusCode raw,
         pd_depth = depth raw, scores = zeroScores,
         issues = [\<lparr>issue_id = [], category = Content, code = ''PAGE_UNREACHABLE'',
                    severity = Critical,
                    message = (case error raw of None \<Rightarrow> [] | Some m \<Rightarrow> m),
                    pageUrl = Some (url raw)\<rparr>],
         seoData = None, performanceData = None, accessibilityData = None,
         contentData = None, designUxData = None\<rparr>
      else map_option (buildPage inboundMap pid raw) (analyzePage env raw))"

text \<open>
  The \<open>for\<close> loop of \<open>startAudit\<close> over the crawl results, in crawl order.  An
  exception in any iteration leaves the loop, and the pages analysed so far are lost.
\<close>

definition analyzeAll ::
  "AnalysisEnv \<Rightarrow> (nat \<Rightarrow> string) \<Rightarrow> PageResult list \<Rightarrow> PageData list option" where
  "analyzeAll env uuid crawledPages =
     (let inboundMap = buildInboundLinkMap crawledPages
      in those (map (\<lambda>(k, raw). processPage env inboundMap (uuid k) raw)
                  (enumerate 0 crawledPages)))"

text \<open>
  \<open>startAudit\<close> returns the successive contents of the store, one per
  \<open>storage.update\<close> call, so that the status transitions are visible.  \<open>uuid k\<close> is the
  value of the \<open>k\<close>-th \<open>randomUUID()\<close> call and \<open>now\<close> the time stamp of the final
  update.  The \<open>catch\<close> block is reached when the analysis of a page throws; the crawl,
  the scorer and the report template do not throw.
\<close>

definition startAudit ::
  "CrawlEnv \<Rightarrow> AnalysisEnv \<Rightarrow> (nat \<Rightarrow> string) \<Rightarrow> string \<Rightarrow> Audit list \<Rightarrow> string \<Rightarrow> int \<Rightarrow>
   Audit list list" where
  "startAudit cenv aenv uuid now db auditId maxPages =
     (case storage_get db auditId of
        None \<Rightarrow> []
      | Some audit \<Rightarrow>
          (let db1 = storage_update db auditId (noUpdates\<lparr>u_status := Some RUNNING\<rparr>);
               crawledPages = crawlSite cenv (a_url audit)
                 \<lparr>opt_maxPages = Some maxPages, opt_maxDepth = Some 2, opt_timeoutMs = None\<rparr>
           in if length crawledPages = 0 then
                [db1,
                 storage_update db1 auditId
                   (noUpdates\<lparr>u_status := Some FAILED, u_completedAt := Some now\<rparr>)]
              else
                (case analyzeAll aenv uuid crawledPages of
                   None \<Rightarrow>
                     [db1,
                      storage_update db1 auditId
                        (noUpdates\<lparr>u_status := Some FAILED, u_completedAt := Some now\<rparr>)]
                 | Some analyzedPages \<Rightarrow>
                     (let result = calculateAuditScores analyzedPages;
                          reportMarkdown' =
                            generateReport (a_url audit) (fst result) (snd result)
                      in [db1,
                          storage_update db1 auditId
                            (noUpdates\<lparr>u_status := Some COMPLETED,
                               u_completedAt := Some now, u_scores := Some (fst result),
                               u_issuesSummary := Some (snd result),
                               u_pages := Some analyzedPages,
                               u_reportMarkdown := Some reportMarkdown'\<rparr>)]))))"


section \<open>Reference notions used in the statements\<close>

text \<open>
  The quantities the specification speaks of, written as it words them: the sum of
  the severity penalties over the issues of one category, clamping to [0,100] followed
  by rounding, the category score formula, and the depth-weighted mean: the exact one
  (\<open>spec_weightedMean\<close>) and the one that is computed in double arithmetic, page by
  page (\<open>double_weightedMean\<close>).
\<close>

definition penaltySum :: "Issue list \<Rightarrow> ScoreCategory \<Rightarrow> int" where
  "penaltySum iss cat =
     (\<Sum>i\<leftarrow>filter (\<lambda>i. category i = cat) iss. severityPenalty (severity i))"

definition spec_clampRound :: "rat \<Rightarrow> int" where
  "spec_clampRound x = js_round (max 0 (min 100 x))"

definition spec_categoryScore :: "rat \<Rightarrow> Issue list \<Rightarrow> ScoreCategory \<Rightarrow> int \<Rightarrow> int" where
  "spec_categoryScore base iss cat extra =
     spec_clampRound (base - of_int (penaltySum iss cat) - of_int extra)"

definition spec_weightedMean :: "(int Scores \<Rightarrow> int) \<Rightarrow> PageData list \<Rightarrow> rat" where
  "spec_weightedMean f ps =
     (\<Sum>p\<leftarrow>ps. of_int (f (scores p)) * (1 / (1 + of_nat (pd_depth p)))) /
     (\<Sum>p\<leftarrow>ps. 1 / (1 + of_nat (pd_depth p)))"

definition double_sum :: "rat list \<Rightarrow> rat" where
  "double_sum xs = foldl (\<lambda>acc x. roundDouble (acc + x)) 0 xs"

definition double_weight :: "nat \<Rightarrow> rat" where
  "double_weight d = roundDouble (1 / roundDouble (1 + of_nat d))"

definition double_weightedMean :: "(int Scores \<Rightarrow> int) \<Rightarrow> PageData list \<Rightarrow> rat" where
  "double_weightedMean f ps =
     roundDouble
       (double_sum
          (map (\<lambda>p. roundDouble (of_int (f (scores p)) * double_weight (pd_depth p))) ps) /
        double_sum (map (\<lambda>p. double_weight (pd_depth p)) ps))"

text \<open>
  The error analysis measures a computed value \<open>a\<close> against the exact value \<open>b\<close> in
  rounding steps: \<open>accurate k a b\<close> says that each is at most the other times
  \<open>(1 + 2 powi (-52)) ^ k\<close>.
\<close>

definition roundoff :: rat where
  "roundoff = 1 + 1 / 2 ^ 52"

definition accurate :: "nat \<Rightarrow> rat \<Rightarrow> rat \<Rightarrow> bool" where
  "accurate k a b \<longleftrightarrow> b \<le> a * roundoff ^ k \<and> a \<le> b * roundoff ^ k"


section \<open>Example inputs\<close>

definition examplePage :: PageData where
  "examplePage =
     \<lparr>pd_id = ''p0'', pd_url = ''http://site.test/'', pd_statusCode = 200, pd_depth = 0,
      scores = zeroScores, issues = [], seoData = None, performanceData = None,
      accessibilityData = None, contentData = None, designUxData = None\<rparr>"

definition slowLcpIssue :: Issue where
  "slowLcpIssue =
     \<lparr>issue_id = ''p0-0'', category = Performance, code = ''SLOW_LCP_MOBILE'',
      severity = Critical, message = ''LCP is 5.0s on mobile'',
      pageUrl = Some ''http://site.test/''\<rparr>"

definition measuredPage :: PageData where
  "measuredPage =
     examplePage\<lparr>issues := [slowLcpIssue],
       performanceData :=
         Some \<lparr>performanceScore = Some 90, firstContentfulPaintMs = None,
                largestContentfulPaintMs = Some 5000, totalBlockingTimeMs = None,
                cumulativeLayoutShift = None, strategy = Some ''mobile'',
                perf_error = None\<rparr>\<rparr>"

definition scoredPages :: "PageData list" where
  "scoredPages =
     [examplePage\<lparr>scores := \<lparr>overall = 90, seo = 80, performance = 73, accessibility = 100,
                               content = 95, uxDesign = 100\<rparr>\<rparr>,
      examplePage\<lparr>pd_id := ''p1'', pd_url := ''http://site.test/a'', pd_depth := 1,
        scores := \<lparr>overall = 60, seo = 50, performance = 80, accessibility = 70,
                    content = 55, uxDesign = 45\<rparr>\<rparr>]"

definition tiePages :: "PageData list" where
  "tiePages =
     [examplePage\<lparr>scores := \<lparr>overall = 55, seo = 60, performance = 73, accessibility = 50,
                                content = 45, uxDesign = 47\<rparr>\<rparr>,
      examplePage\<lparr>pd_id := ''p1'', pd_url := ''http://site.test/a'', pd_depth := 1,
        scores := \<lparr>overall = 60, seo = 70, performance = 66, accessibility = 60,
                    content = 50, uxDesign = 54\<rparr>\<rparr>,
      examplePage\<lparr>pd_id := ''p2'', pd_url := ''http://site.test/b'', pd_depth := 1,
        scores := \<lparr>overall = 41, seo = 40, performance = 36, accessibility = 50,
                    content = 35, uxDesign = 44\<rparr>\<rparr>,
      examplePage\<lparr>pd_id := ''p3'', pd_url := ''http://site.test/a/c'', pd_depth := 2,
        scores := \<lparr>overall = 58, seo = 60, performance = 59, accessibility = 60,
                    content = 50, uxDesign = 61\<rparr>\<rparr>]"

text \<open>What an issue says, apart from its identifier and page reference.\<close>

definition issueCore :: "Issue \<Rightarrow> ScoreCategory \<times> string \<times> Severity \<times> string" where
  "issueCore i = (category i, code i, severity i, message i)"

text \<open>
  The issues of a page that concern performance: those of the performance category
  and those that carry the code of missing performance data.
\<close>

definition performanceCores :: "PageData \<Rightarrow> (ScoreCategory \<times> string \<times> Severity \<times> string) list" where
  "performanceCores p =
     filter (\<lambda>c. fst c = Performance \<or> fst (snd c) = ''PERFORMANCE_DATA_UNAVAILABLE'')
       (map issueCore (issues p))"

definition exampleDom :: PageDom where
  "exampleDom =
     \<lparr>dom_titleText = ''Example site'', dom_metaDescription = None, dom_h1Count = 1,
      dom_h1FirstText = ''Welcome'', dom_wordCount = 250, dom_imagesWithoutAlt = 0,
      dom_canonical = None, dom_robots = None, dom_lang = Some ''en'', dom_hasMain = True,
      dom_hasNav = True, dom_hasHeader = True, dom_hasFooter = True, dom_inputsLabeled = [],
      dom_emptyButtons = 0, dom_hasNavigation = True, dom_fontCount = 1, dom_colorCount = 2,
      dom_hasViewportMeta = True\<rparr>"

definition unconfiguredEnv :: AnalysisEnv where
  "unconfiguredEnv =
     \<lparr>parse = (\<lambda>markup. Some exampleDom), headStatus = (\<lambda>link. Some 200), apiKey = None,
      pageSpeed = (\<lambda>u. PsiThrew (Some ''timeout of 15000ms exceeded''))\<rparr>"

definition failingEnv :: AnalysisEnv where
  "failingEnv = unconfiguredEnv\<lparr>apiKey := Some ''key''\<rparr>"

definition measuredLighthouse :: Lighthouse where
  "measuredLighthouse =
     \<lparr>lh_score = Some (9 / 10), lh_firstContentfulPaint = Some 1200,
      lh_largestContentfulPaint = Some 3000, lh_totalBlockingTime = Some 100,
      lh_cumulativeLayoutShift = Some (1 / 2)\<rparr>"

definition measuredEnv :: AnalysisEnv where
  "measuredEnv = failingEnv\<lparr>pageSpeed := (\<lambda>u. PsiResponse measuredLighthouse)\<rparr>"

definition slowEnv :: AnalysisEnv where
  "slowEnv =
     failingEnv\<lparr>pageSpeed :=
       (\<lambda>u. PsiResponse (measuredLighthouse\<lparr>lh_largestContentfulPaint := Some 5000\<rparr>))\<rparr>"

definition seedResult :: PageResult where
  "seedResult =
     \<lparr>url = ''http://site.test/'', statusCode = 200, html = ''<html></html>'', depth = 0,
      internalLinks = [], externalLinks = [], error = None\<rparr>"

definition pdfResult :: PageResult where
  "pdfResult =
     \<lparr>url = ''http://site.test/menu.pdf'', statusCode = 200, html = [], depth = 1,
      internalLinks = [], externalLinks = [], error = None\<rparr>"

text \<open>The orphan issue that the orchestrator appends, as a core.\<close>

definition orphanCores :: "nat \<Rightarrow> nat \<Rightarrow> (ScoreCategory \<times> string \<times> Severity \<times> string) list" where
  "orphanCores inbound d =
     (if inbound = 0 \<and> d > 0
      then [(Content, ''ORPHAN_PAGE'', Major, ''Page has no inbound internal links'')] else [])"

text \<open>An issue that is neither of the performance category nor about missing performance data.\<close>

definition offPerformance :: "Issue \<Rightarrow> bool" where
  "offPerformance i =
     (category i \<noteq> Performance \<and> code i \<noteq> ''PERFORMANCE_DATA_UNAVAILABLE'')"

text \<open>
  The anchors of a document that give a link: the absolute URL and the host of each,
  in document order.
\<close>

definition usableLinks :: "CrawlEnv \<Rightarrow> string \<Rightarrow> string \<Rightarrow> (string \<times> string) list" where
  "usableLinks env currentUrl markup =
     List.map_filter (resolveAnchor env currentUrl) (anchors env markup)"

text \<open>
  A response carries markup when its body is a string and its content type mentions
  \<open>text/html\<close>.
\<close>

definition isHtmlResponse :: "HttpResponse \<Rightarrow> bool" where
  "isHtmlResponse response =
     (case resp_data response of
        StringData body \<Rightarrow>
          includes_str (case resp_contentType response of None \<Rightarrow> [] | Some c \<Rightarrow> c)
            ''text/html''
      | OtherData \<Rightarrow> False)"

text \<open>
  A page is accounted for when it is the seed at depth 0 or when some result links to
  it, lies one level above it and lies below the depth limit.
\<close>

definition discovered :: "string \<Rightarrow> int \<Rightarrow> PageResult list \<Rightarrow> string \<Rightarrow> nat \<Rightarrow> bool" where
  "discovered startUrl maxDepth rs u d =
     ((u = startUrl \<and> d = 0) \<or>
      list_ex (\<lambda>p. u \<in> set (internalLinks p) \<and> d = depth p + 1 \<and> int (depth p) < maxDepth) rs)"

definition effectiveMaxDepth :: "CrawlOptions \<Rightarrow> int" where
  "effectiveMaxDepth options = (case opt_maxDepth options of Some v \<Rightarrow> v | None \<Rightarrow> 2)"

definition effectiveMaxPages :: "CrawlOptions \<Rightarrow> int" where
  "effectiveMaxPages options = (case opt_maxPages options of Some v \<Rightarrow> v | None \<Rightarrow> 20)"

text \<open>
  A small site: the seed links twice to a PDF, once to a page that cannot be reached,
  and once to another host.
\<close>

definition seedMarkup :: string where
  "seedMarkup = ''<a href=/menu.pdf>Menu</a><a href=/menu.pdf>PDF</a><a href=/b>B</a><a href=http://other.test/>O</a>''"

definition exampleWeb :: CrawlEnv where
  "exampleWeb =
     \<lparr>fetch = (\<lambda>u.
        if u = ''http://site.test/'' then
          FetchResponse \<lparr>resp_status = 200, resp_contentType = Some ''text/html; charset=utf-8'',
                          resp_data = StringData seedMarkup\<rparr>
        else if u = ''http://site.test/menu.pdf'' then
          FetchResponse \<lparr>resp_status = 200, resp_contentType = Some ''application/pdf'',
                          resp_data = StringData ''%PDF-1.4''\<rparr>
        else FetchThrew ''connect ECONNREFUSED''),
      anchors = (\<lambda>markup.
        if markup = seedMarkup
        then [Some ''/menu.pdf'', Some ''/menu.pdf'', Some ''/b'', Some ''http://other.test/'',
              Some ''mailto:info@site.test'', None]
        else []),
      resolveUrl = (\<lambda>href base.
        if href = ''/menu.pdf'' then Some ''http://site.test/menu.pdf''
        else if href = ''/b'' then Some ''http://site.test/b''
        else if href = ''http://other.test/'' then Some ''http://other.test/''
        else None),
      hostname = (\<lambda>u.
        if u = ''http://site.test/'' \<or> u = ''http://site.test/menu.pdf'' \<or>
           u = ''http://site.test/b'' then Some ''site.test''
        else if u = ''http://other.test/'' then Some ''other.test''
        else None)\<rparr>"

definition defaultOptions :: CrawlOptions where
  "defaultOptions = \<lparr>opt_maxPages = None, opt_maxDepth = None, opt_timeoutMs = None\<rparr>"

definition exampleCrawl :: "PageResult list" where
  "exampleCrawl =
     [\<lparr>url = ''http://site.test/'', statusCode = 200, html = seedMarkup, depth = 0,
       internalLinks = [''http://site.test/menu.pdf'', ''http://site.test/menu.pdf'',
                        ''http://site.test/b''],
       externalLinks = [''http://other.test/''], error = None\<rparr>,
      \<lparr>url = ''http://site.test/menu.pdf'', statusCode = 200, html = [], depth = 1,
       internalLinks = [], externalLinks = [], error = None\<rparr>,
      \<lparr>url = ''http://site.test/b'', statusCode = 0, html = [], depth = 1,
       internalLinks = [], externalLinks = [], error = Some ''connect ECONNREFUSED''\<rparr>]"

text \<open>
  The number of issues with a given property, counted page by page, and the
  consistency of an audit's summary with its pages.
\<close>

definition spec_issueCount :: "(Issue \<Rightarrow> bool) \<Rightarrow> PageData list \<Rightarrow> nat" where
  "spec_issueCount P ps = (\<Sum>p\<leftarrow>ps. length (filter P (issues p)))"

definition summaryConsistent :: "Audit \<Rightarrow> bool" where
  "summaryConsistent a =
     (critical (issuesSummary a) = spec_issueCount (\<lambda>i. severity i = Critical) (pages a) \<and>
      major (issuesSummary a) = spec_issueCount (\<lambda>i. severity i = Major) (pages a) \<and>
      minor (issuesSummary a) = spec_issueCount (\<lambda>i. severity i = Minor) (pages a) \<and>
      byCategory (issuesSummary a) Seo = spec_issueCount (\<lambda>i. category i = Seo) (pages a) \<and>
      byCategory (issuesSummary a) Performance =
        spec_issueCount (\<lambda>i. category i = Performance) (pages a) \<and>
      byCategory (issuesSummary a) Accessibility =
        spec_issueCount (\<lambda>i. category i = Accessibility) (pages a) \<and>
      byCategory (issuesSummary a) Content =
        spec_issueCount (\<lambda>i. category i = Content) (pages a) \<and>
      byCategory (issuesSummary a) UxDesign =
        spec_issueCount (\<lambda>i. category i = UxDesign) (pages a))"

text \<open>The options that the orchestrator passes to the crawler.\<close>

definition runnerOptions :: "int \<Rightarrow> CrawlOptions" where
  "runnerOptions maxPages =
     \<lparr>opt_maxPages = Some maxPages, opt_maxDepth = Some 2, opt_timeoutMs = None\<rparr>"

definition exampleUuid :: "nat \<Rightarrow> string" where
  "exampleUuid k = ''page-'' @ show_nat k"

definition freshStore :: "string \<Rightarrow> Audit list" where
  "freshStore u = snd (storage_create [] ''audit-1'' u ''2024-01-01T00:00:00.000Z'')"

text \<open>
  A result records the fetch of its URL: a request that throws gives empty markup,
  status 0 and the error message; a response gives its status and no error, and no
  markup and no links unless it carries markup.
\<close>

definition recordsFetch :: "CrawlEnv \<Rightarrow> PageResult \<Rightarrow> bool" where
  "recordsFetch env r =
     (case fetch env (url r) of
        FetchThrew msg \<Rightarrow>
          html r = [] \<and> statusCode r = 0 \<and> error r = Some msg \<and>
          internalLinks r = [] \<and> externalLinks r = []
      | FetchResponse response \<Rightarrow>
          error r = None \<and> statusCode r = resp_status response \<and>
          (if isHtmlResponse response then True
           else html r = [] \<and> internalLinks r = [] \<and> externalLinks r = []))"

text \<open>
  The link lists of a result follow the anchors of its markup: a result with markup and
  a status in [200,400) lists every usable anchor, the others list nothing.
\<close>

definition linksFollowAnchors :: "CrawlEnv \<Rightarrow> string \<Rightarrow> PageResult \<Rightarrow> bool" where
  "linksFollowAnchors env domain r =
     (if html r \<noteq> [] \<and> 200 \<le> statusCode r \<and> statusCode r < 400 then
        internalLinks r =
          map fst (filter (\<lambda>(a, h). h = domain) (usableLinks env (url r) (html r))) \<and>
        externalLinks r =
          map fst (filter (\<lambda>(a, h). h \<noteq> domain) (usableLinks env (url r) (html r)))
      else internalLinks r = [] \<and> externalLinks r = [])"

text \<open>What \<open>analyzePage\<close> returns for a result without markup.\<close>

definition unreachableAnalysis :: "PageResult \<Rightarrow> AnalyzerOutput" where
  "unreachableAnalysis raw =
     \<lparr>ao_issues =
        [createIssue Content ''PAGE_UNREACHABLE'' Critical ''Page could not be retrieved''
           (Some (url raw))],
      ao_seoData = None, ao_performanceData = None, ao_accessibilityData = None,
      ao_contentData = None, ao_designUxData = None\<rparr>"


section \<open>Properties of the scorer\<close>

lemma floor_rat_numeral_div:
  "\<lfloor>(numeral a :: rat) / numeral b\<rfloor> = numeral a div numeral b"
  using floor_divide_of_int_eq [of "numeral a" "numeral b", where ?'a = rat] by simp

lemma js_round_of_int: "js_round (of_int n) = n"
  unfolding js_round_def by linarith

lemma js_round_mono: "x \<le> y \<Longrightarrow> js_round x \<le> js_round y"
  unfolding js_round_def by (simp add: floor_mono)

lemma clampScore_eq_spec: "clampScore x = spec_clampRound x"
proof -
  have z: "js_round 0 = 0" and h: "js_round 100 = 100"
    using js_round_of_int [of 0] js_round_of_int [of 100] by simp_all
  consider "x < 0" | "0 \<le> x" "x \<le> 100" | "100 < x" by linarith
  then show ?thesis
  proof cases
    case 1
    then have "js_round x \<le> 0" using js_round_mono [of x 0] z by simp
    with 1 show ?thesis by (simp add: clampScore_def spec_clampRound_def z)
  next
    case 2
    then have "0 \<le> js_round x" "js_round x \<le> 100"
      using js_round_mono [of 0 x] js_round_mono [of x 100] z h by simp_all
    with 2 show ?thesis by (simp add: clampScore_def spec_clampRound_def)
  next
    case 3
    then have "100 \<le> js_round x" using js_round_mono [of 100 x] h by simp
    with 3 show ?thesis by (simp add: clampScore_def spec_clampRound_def h)
  qed
qed

lemma foldl_penalty:
  "foldl (\<lambda>acc issue. acc + severityPenalty (severity issue)) a xs
     = a + sum_list (map (\<lambda>i. severityPenalty (severity i)) xs)"
  by (induction xs arbitrary: a) auto

lemma foldl_half_penalty:
  "foldl (\<lambda>acc i. acc + of_int (severityPenalty (severity i)) / 2) (a::rat) xs
     = a + of_int (sum_list (map (\<lambda>i. severityPenalty (severity i)) xs)) / 2"
  by (induction xs arbitrary: a) (auto simp: add_divide_distrib)

lemma scoreCategory_eq_spec:
  "scoreCategory base iss cat extra = spec_categoryScore (of_int base) iss cat extra"
  by (simp add: scoreCategory_def spec_categoryScore_def penaltySum_def foldl_penalty
      clampScore_eq_spec)

lemma scorePerformance_eq:
  "scorePerformance pdata iss =
     (case (case pdata of None \<Rightarrow> None | Some d \<Rightarrow> performanceScore d) of
        None \<Rightarrow> spec_categoryScore 80 iss Performance 0
      | Some s \<Rightarrow> spec_clampRound (s - of_int (penaltySum iss Performance) / 2))"
  by (simp add: scorePerformance_def scoreCategory_eq_spec foldl_half_penalty penaltySum_def
      clampScore_eq_spec split: option.splits)

text \<open>
  Claim C2, as the code has it.  For every page, the seo, accessibility, content and
  uxDesign scores are the category base (100, 100, 95, 100) minus the sum of the severity
  penalties (critical 25, major 15, minor 7) of that category's issues, minus the extra
  penalty of the category (\<open>seoPenalty\<close>, \<open>accessibilityPenalty\<close>,
  \<open>contentPenalty\<close>, \<open>uxPenalty\<close>), clamped to [0,100] and rounded.  The performance
  score follows the same formula from base 80 when the page has no external performance
  score; when it has one, the score is the external score minus HALF the sum of the
  penalties of the performance issues, clamped and rounded.
\<close>

theorem page_scores_formula:
  "seo (calculatePageScores p) = spec_categoryScore 100 (issues p) Seo (seoPenalty p) \<and>
   accessibility (calculatePageScores p) =
     spec_categoryScore 100 (issues p) Accessibility (accessibilityPenalty p) \<and>
   content (calculatePageScores p) =
     spec_categoryScore 95 (issues p) Content (contentPenalty p) \<and>
   uxDesign (calculatePageScores p) =
     spec_categoryScore 100 (issues p) UxDesign (uxPenalty p) \<and>
   performance (calculatePageScores p) =
     (case (case performanceData p of None \<Rightarrow> None | Some d \<Rightarrow> performanceScore d) of
        None \<Rightarrow> spec_categoryScore 80 (issues p) Performance 0
      | Some s \<Rightarrow> spec_clampRound (s - of_int (penaltySum (issues p) Performance) / 2))"
  by (simp add: calculatePageScores_def Let_def scoreCategory_eq_spec scorePerformance_eq)

text \<open>
  Claim C2 as stated fails on a page with an external performance score: with the score
  90 and one critical performance issue the code yields 78, the stated formula 65.
\<close>

theorem page_scores_halved_counterexample:
  "performance (calculatePageScores measuredPage)
     \<noteq> spec_categoryScore 90 (issues measuredPage) Performance 0"
proof -
  have code: "performance (calculatePageScores measuredPage) = 78"
    by (simp add: calculatePageScores_def Let_def scorePerformance_def measuredPage_def
        examplePage_def slowLcpIssue_def clampScore_def js_round_def)
  have spec: "spec_categoryScore 90 (issues measuredPage) Performance 0 = 65"
    by (simp add: spec_categoryScore_def spec_clampRound_def penaltySum_def measuredPage_def
        examplePage_def slowLcpIssue_def js_round_def floor_rat_numeral_div)
  show ?thesis unfolding code spec by simp
qed


subsection \<open>Rounding to the nearest double\<close>

lemma roundTiesToEven_near: "\<bar>of_int (roundTiesToEven y) - y\<bar> \<le> 1 / 2"
  unfolding roundTiesToEven_def Let_def by (auto simp: abs_if; linarith)

lemma binade_bounds:
  assumes "x \<noteq> 0"
  shows "2 powi binade x \<le> \<bar>x\<bar>" and "\<bar>x\<bar> < 2 powi (binade x + 1)"
proof -
  obtain p q where pq: "quotient_of \<bar>x\<bar> = (p, q)" by (cases "quotient_of \<bar>x\<bar>")
  have q: "0 < q" using quotient_of_denom_pos [OF pq] .
  have x: "\<bar>x\<bar> = of_int p / of_int q" using quotient_of_div [OF pq] .
  have p: "0 < p"
  proof -
    have "0 < \<bar>x\<bar>" using assms by simp
    then have "0 < (of_int p :: rat) / of_int q" using x by simp
    then show ?thesis using q by (simp add: zero_less_divide_iff)
  qed
  define k where "k = bitlen p - bitlen q"
  have bp: "2 ^ nat (bitlen p - 1) \<le> p" "p < 2 ^ nat (bitlen p)"
    using bitlen_bounds [OF p] by simp_all
  have bq: "2 ^ nat (bitlen q - 1) \<le> q" "q < 2 ^ nat (bitlen q)"
    using bitlen_bounds [OF q] by simp_all
  have lp: "1 \<le> bitlen p" and lq: "1 \<le> bitlen q"
    using p q by (simp_all add: bitlen_def floorlog_def)
  have rp: "(2::rat) powi (bitlen p - 1) \<le> of_int p" "(of_int p :: rat) < 2 powi bitlen p"
  proof -
    have "(2::rat) powi (bitlen p - 1) = of_int (2 ^ nat (bitlen p - 1))"
      using lp by (simp add: power_int_def)
    then show "(2::rat) powi (bitlen p - 1) \<le> of_int p"
      using bp(1) by (simp only: of_int_le_iff)
    have "(2::rat) powi bitlen p = of_int (2 ^ nat (bitlen p))"
      using lp by (simp add: power_int_def)
    then show "(of_int p :: rat) < 2 powi bitlen p"
      using bp(2) by (simp only: of_int_less_iff)
  qed
  have rq: "(2::rat) powi (bitlen q - 1) \<le> of_int q" "(of_int q :: rat) < 2 powi bitlen q"
  proof -
    have "(2::rat) powi (bitlen q - 1) = of_int (2 ^ nat (bitlen q - 1))"
      using lq by (simp add: power_int_def)
    then show "(2::rat) powi (bitlen q - 1) \<le> of_int q"
      using bq(1) by (simp only: of_int_le_iff)
    have "(2::rat) powi bitlen q = of_int (2 ^ nat (bitlen q))"
      using lq by (simp add: power_int_def)
    then show "(of_int q :: rat) < 2 powi bitlen q"
      using bq(2) by (simp only: of_int_less_iff)
  qed
  have qpos: "(0::rat) < of_int q" using q by simp
  have lower: "(2::rat) powi (k - 1) < \<bar>x\<bar>"
  proof -
    have "(2::rat) powi (k - 1) = 2 powi (bitlen p - 1) / 2 powi bitlen q"
      by (simp add: k_def power_int_diff)
    also have "\<dots> \<le> of_int p / 2 powi bitlen q"
      using rp(1) by (simp add: divide_right_mono)
    also have "\<dots> < of_int p / of_int q"
      using rq(2) qpos p by (simp add: divide_strict_left_mono)
    finally show ?thesis using x by simp
  qed
  have upper: "\<bar>x\<bar> < (2::rat) powi (k + 1)"
  proof -
    have pw: "(0::rat) < 2 powi (bitlen q - 1)" by simp
    have "of_int p / of_int q \<le> (of_int p :: rat) / 2 powi (bitlen q - 1)"
      using rq(1) pw p by (intro frac_le) simp_all
    also have "\<dots> < 2 powi bitlen p / 2 powi (bitlen q - 1)"
      using rp(2) pw by (simp add: divide_strict_right_mono)
    also have "\<dots> = 2 powi (k + 1)"
      using power_int_diff [of "2::rat" "bitlen p" "bitlen q - 1"]
      by (simp add: k_def algebra_simps)
    finally show ?thesis using x by simp
  qed
  have b: "binade x = (if 2 powi k \<le> \<bar>x\<bar> then k else k - 1)"
    by (simp add: binade_def pq k_def Let_def)
  show "2 powi binade x \<le> \<bar>x\<bar>"
    using lower by (simp add: b)
  show "\<bar>x\<bar> < 2 powi (binade x + 1)"
    using upper by (simp add: b)
qed


lemma roundDouble_error: "\<bar>roundDouble x - x\<bar> \<le> \<bar>x\<bar> / 2 ^ 53"
proof (cases "x = 0")
  case True
  then show ?thesis by (simp add: roundDouble_def)
next
  case False
  define ulp :: rat where "ulp = 2 powi (binade x - 52)"
  have ulp: "0 < ulp" by (simp add: ulp_def)
  have r: "roundDouble x = of_int (roundTiesToEven (x / ulp)) * ulp"
    using False by (simp add: roundDouble_def ulp_def Let_def)
  have "roundDouble x - x = (of_int (roundTiesToEven (x / ulp)) - x / ulp) * ulp"
    using ulp by (simp add: r field_simps)
  then have "\<bar>roundDouble x - x\<bar> = \<bar>of_int (roundTiesToEven (x / ulp)) - x / ulp\<bar> * ulp"
    using ulp by (simp add: abs_mult)
  also have "\<dots> \<le> 1 / 2 * ulp"
    using roundTiesToEven_near [of "x / ulp"] ulp by (intro mult_right_mono) simp_all
  also have "\<dots> = 2 powi binade x / 2 ^ 53"
    using power_int_diff [of "2::rat" "binade x" 52] by (simp add: ulp_def)
  also have "\<dots> \<le> \<bar>x\<bar> / 2 ^ 53"
    using binade_bounds(1) [OF False] by (simp add: divide_right_mono)
  finally show ?thesis .
qed

lemma roundoff_ge_1: "1 \<le> roundoff"
  by (simp add: roundoff_def)

lemma roundoff_power_ge_1: "1 \<le> roundoff ^ k"
  using roundoff_ge_1 by (rule one_le_power)

lemma roundDouble_roundoff:
  assumes "0 \<le> x"
  shows "roundDouble x \<le> x * roundoff" and "x \<le> roundDouble x * roundoff"
    and "0 \<le> roundDouble x"
proof -
  have e: "\<bar>roundDouble x - x\<bar> \<le> x / 2 ^ 53"
    using roundDouble_error [of x] assms by simp
  then have up: "roundDouble x \<le> x + x / 2 ^ 53" and lo: "x - x / 2 ^ 53 \<le> roundDouble x"
    by linarith+
  have "x + x / 2 ^ 53 \<le> x * roundoff"
    using assms by (simp add: roundoff_def algebra_simps)
  with up show "roundDouble x \<le> x * roundoff" by linarith
  have "x \<le> (x - x / 2 ^ 53) * roundoff"
    using assms by (simp add: roundoff_def algebra_simps)
  also have "\<dots> \<le> roundDouble x * roundoff"
    using lo roundoff_ge_1 by (intro mult_right_mono) simp_all
  finally show "x \<le> roundDouble x * roundoff" .
  have "0 \<le> x - x / 2 ^ 53" using assms by (simp add: field_simps)
  with lo show "0 \<le> roundDouble x" by linarith
qed

lemma accurate_refl: "0 \<le> a \<Longrightarrow> accurate k a a"
  using roundoff_power_ge_1 [of k] by (simp add: accurate_def mult_le_cancel_left1)

lemma accurate_mono:
  assumes "accurate k a b" "k \<le> j" "0 \<le> a" "0 \<le> b"
  shows "accurate j a b"
proof -
  have "roundoff ^ k \<le> roundoff ^ j"
    using assms(2) roundoff_ge_1 by (rule power_increasing)
  then have "a * roundoff ^ k \<le> a * roundoff ^ j" "b * roundoff ^ k \<le> b * roundoff ^ j"
    using assms(3,4) by (simp_all add: mult_left_mono)
  then show ?thesis using assms(1) by (auto simp: accurate_def)
qed

lemma accurate_add:
  assumes "accurate k a b" "accurate k c d"
  shows "accurate k (a + c) (b + d)"
  using assms by (auto simp: accurate_def distrib_right)

lemma accurate_scale:
  assumes "accurate k a b" "0 \<le> s"
  shows "accurate k (s * a) (s * b)"
proof -
  have "s * b \<le> s * (a * roundoff ^ k)" "s * a \<le> s * (b * roundoff ^ k)"
    using assms by (simp_all add: accurate_def mult_left_mono)
  then show ?thesis by (simp add: accurate_def mult.assoc)
qed

lemma accurate_round:
  assumes "accurate k a b" "0 \<le> a"
  shows "accurate (Suc k) (roundDouble a) b"
proof -
  have p: "0 \<le> roundoff ^ k" using roundoff_power_ge_1 [of k] by simp
  have "b \<le> a * roundoff ^ k" using assms(1) by (simp add: accurate_def)
  also have "\<dots> \<le> (roundDouble a * roundoff) * roundoff ^ k"
    using roundDouble_roundoff(2) [OF assms(2)] p by (rule mult_right_mono)
  finally have 1: "b \<le> roundDouble a * roundoff ^ Suc k" by (simp add: mult.assoc)
  have r: "0 \<le> roundoff" using roundoff_ge_1 by simp
  have "roundDouble a \<le> a * roundoff" using roundDouble_roundoff(1) [OF assms(2)] .
  also have "\<dots> \<le> (b * roundoff ^ k) * roundoff"
    using assms(1) r by (simp add: accurate_def mult_right_mono)
  finally have 2: "roundDouble a \<le> b * roundoff ^ Suc k" by (simp add: mult_ac)
  show ?thesis using 1 2 by (simp add: accurate_def)
qed

lemma accurate_pos:
  assumes "accurate k a b" "0 < b"
  shows "0 < a"
proof (rule ccontr)
  assume "\<not> 0 < a"
  then have "a \<le> 0" by simp
  moreover have "0 \<le> roundoff ^ k" using roundoff_power_ge_1 [of k] by simp
  ultimately have "a * roundoff ^ k \<le> 0" by (rule mult_nonpos_nonneg)
  then show False using assms by (simp add: accurate_def)
qed

lemma accurate_divide:
  assumes "accurate k a b" "accurate j c d" "0 \<le> a" "0 \<le> b" "0 < c" "0 < d"
  shows "accurate (k + j) (a / c) (b / d)"
proof -
  have pk: "0 \<le> roundoff ^ k" and pj: "0 < roundoff ^ j"
    using roundoff_power_ge_1 [of k] roundoff_power_ge_1 [of j] by simp_all
  have ab: "b \<le> a * roundoff ^ k" "a \<le> b * roundoff ^ k"
    and cd: "d \<le> c * roundoff ^ j" "c \<le> d * roundoff ^ j"
    using assms(1,2) by (simp_all add: accurate_def)
  have "b * c \<le> (a * roundoff ^ k) * (d * roundoff ^ j)"
    using ab(1) cd(2) assms by (intro mult_mono) simp_all
  then have 1: "b / d \<le> a / c * roundoff ^ (k + j)"
    using assms(5,6) by (simp add: field_simps power_add)
  have "a * d \<le> (b * roundoff ^ k) * (c * roundoff ^ j)"
    using ab(2) cd(1) assms by (intro mult_mono) simp_all
  then have 2: "a / c \<le> b / d * roundoff ^ (k + j)"
    using assms(5,6) by (simp add: field_simps power_add)
  show ?thesis using 1 2 by (simp add: accurate_def)
qed


lemma foldl_accurate:
  assumes "\<forall>p\<in>set ps. accurate 3 (g p) (h p) \<and> 0 \<le> g p \<and> 0 \<le> h p"
    and "accurate k a b" "0 \<le> a" "0 \<le> b" "3 \<le> k"
  shows "accurate (k + length ps)
           (foldl (\<lambda>acc x. roundDouble (acc + x)) a (map g ps)) (b + sum_list (map h ps)) \<and>
         0 \<le> foldl (\<lambda>acc x. roundDouble (acc + x)) a (map g ps) \<and>
         0 \<le> b + sum_list (map h ps)"
  using assms
proof (induction ps arbitrary: k a b)
  case Nil
  then show ?case by simp
next
  case (Cons p ps)
  have p: "accurate 3 (g p) (h p)" "0 \<le> g p" "0 \<le> h p" using Cons.prems(1) by simp_all
  have "accurate k (g p) (h p)" using p(1) Cons.prems(5) p(2,3) by (rule accurate_mono)
  with Cons.prems(2) have s: "accurate k (a + g p) (b + h p)" by (rule accurate_add)
  have nn: "0 \<le> a + g p" "0 \<le> b + h p" using p Cons.prems(3,4) by simp_all
  have step: "accurate (Suc k) (roundDouble (a + g p)) (b + h p)"
    using s nn(1) by (rule accurate_round)
  have r: "0 \<le> roundDouble (a + g p)" using roundDouble_roundoff(3) [OF nn(1)] .
  have rest: "\<forall>p\<in>set ps. accurate 3 (g p) (h p) \<and> 0 \<le> g p \<and> 0 \<le> h p"
    using Cons.prems(1) by simp
  have k: "3 \<le> Suc k" using Cons.prems(5) by simp
  show ?case using Cons.IH [OF rest step r nn(2) k] by (simp add: add.assoc)
qed

lemma double_sum_accurate:
  assumes "\<forall>p\<in>set ps. accurate 3 (g p) (h p) \<and> 0 \<le> g p \<and> 0 \<le> h p"
  shows "accurate (3 + length ps) (double_sum (map g ps)) (sum_list (map h ps))"
    and "0 \<le> double_sum (map g ps)" and "0 \<le> sum_list (map h ps)"
  using foldl_accurate [where a = 0 and b = 0 and k = 3, OF assms accurate_refl]
  by (simp_all add: double_sum_def)

lemma roundoff_power_le: "k \<le> 2 ^ 51 \<Longrightarrow> roundoff ^ k \<le> 1 + of_nat k / 2 ^ 51"
proof (induction k)
  case 0
  show ?case by simp
next
  case (Suc k)
  define v :: rat where "v = 1 / 2 ^ 52"
  define x :: rat where "x = of_nat k / 2 ^ 51"
  have v: "0 \<le> v" "roundoff = 1 + v" "1 / 2 ^ 51 = 2 * v"
    by (simp_all add: v_def roundoff_def)
  have ih: "roundoff ^ k \<le> 1 + x" using Suc by (simp add: x_def)
  have "k \<le> 2 ^ 51" using Suc.prems by simp
  then have "(of_nat k :: rat) \<le> of_nat (2 ^ 51)" by (simp only: of_nat_le_iff)
  then have x: "x \<le> 1" "0 \<le> x" by (simp_all add: x_def)
  have s: "of_nat (Suc k) / 2 ^ 51 = x + 2 * v"
    by (simp add: x_def add_divide_distrib flip: v(3))
  have "roundoff ^ Suc k = roundoff ^ k * (1 + v)" by (simp add: v(2))
  also have "\<dots> \<le> (1 + x) * (1 + v)"
    using ih v(1) by (intro mult_right_mono) simp_all
  also have "\<dots> = 1 + x + v + x * v" by (simp add: algebra_simps)
  also have "\<dots> \<le> 1 + x + v + 1 * v"
    using x(1) v(1) by (intro add_left_mono mult_right_mono)
  also have "\<dots> = 1 + (x + 2 * v)" by simp
  finally show ?case by (simp only: s)
qed

lemma accurate_distance:
  assumes "accurate k a b" "k \<le> 2007" "0 \<le> b" "b \<le> 100"
  shows "\<bar>a - b\<bar> \<le> 1 / 2 ^ 33"
proof -
  define e where "e = roundoff ^ k - 1"
  have e0: "0 \<le> e" using roundoff_power_ge_1 [of k] by (simp add: e_def)
  have "roundoff ^ k \<le> 1 + of_nat k / 2 ^ 51"
    using assms(2) by (intro roundoff_power_le) simp
  also have "\<dots> \<le> 1 + 2007 / 2 ^ 51"
    using assms(2) of_nat_mono [of k 2007, where ?'a = rat] by (simp add: divide_right_mono)
  finally have e1: "e \<le> 2007 / 2 ^ 51" by (simp add: e_def)
  have ab: "b \<le> a * (1 + e)" "a \<le> b * (1 + e)"
    using assms(1) by (simp_all add: accurate_def e_def)
  have "a - b \<le> b * e" using ab(2) by (simp add: algebra_simps)
  also have "\<dots> \<le> 100 * (2007 / 2 ^ 51)"
    using assms(3,4) e0 e1 by (intro mult_mono) simp_all
  finally have up: "a - b \<le> 1 / 2 ^ 33" by simp
  have a100: "a \<le> 100 * (1 + 2007 / 2 ^ 51)"
  proof -
    have "a \<le> b * (1 + e)" using ab(2) .
    also have "\<dots> \<le> 100 * (1 + 2007 / 2 ^ 51)"
      using assms(3,4) e0 e1 by (intro mult_mono) simp_all
    finally show ?thesis .
  qed
  have a0: "0 \<le> a"
  proof (rule ccontr)
    assume "\<not> 0 \<le> a"
    then have "a < 0" by simp
    moreover have "0 < 1 + e" using e0 by simp
    ultimately have "a * (1 + e) < 0" by (rule mult_neg_pos)
    then have "a * (1 + e) < a * (1 + e) - a * (1 + e)" by simp
    then show False using ab(1) assms(3) \<open>a * (1 + e) < 0\<close> by simp
  qed
  have "b - a \<le> a * e" using ab(1) by (simp add: algebra_simps)
  also have "\<dots> \<le> (100 * (1 + 2007 / 2 ^ 51)) * (2007 / 2 ^ 51)"
    using a0 a100 e0 e1 by (intro mult_mono) simp_all
  finally have lo: "b - a \<le> 1 / 2 ^ 33" by simp
  show ?thesis using up lo by linarith
qed


subsection \<open>The audit-level scores\<close>

lemma foldl_addWeighted:
  "foldl addWeighted (t, w) ps =
     (\<lparr>overall = foldl (\<lambda>acc x. roundDouble (acc + x)) (overall t)
          (map (\<lambda>p. roundDouble (of_int (overall (scores p)) * double_weight (pd_depth p))) ps),
       seo = foldl (\<lambda>acc x. roundDouble (acc + x)) (seo t)
          (map (\<lambda>p. roundDouble (of_int (seo (scores p)) * double_weight (pd_depth p))) ps),
       performance = foldl (\<lambda>acc x. roundDouble (acc + x)) (performance t)
          (map (\<lambda>p. roundDouble (of_int (performance (scores p)) * double_weight (pd_depth p)))
             ps),
       accessibility = foldl (\<lambda>acc x. roundDouble (acc + x)) (accessibility t)
          (map (\<lambda>p. roundDouble (of_int (accessibility (scores p)) * double_weight (pd_depth p)))
             ps),
       content = foldl (\<lambda>acc x. roundDouble (acc + x)) (content t)
          (map (\<lambda>p. roundDouble (of_int (content (scores p)) * double_weight (pd_depth p))) ps),
       uxDesign = foldl (\<lambda>acc x. roundDouble (acc + x)) (uxDesign t)
          (map (\<lambda>p. roundDouble (of_int (uxDesign (scores p)) * double_weight (pd_depth p))) ps)\<rparr>,
      foldl (\<lambda>acc x. roundDouble (acc + x)) w (map (\<lambda>p. double_weight (pd_depth p)) ps))"
proof (induction ps arbitrary: t w)
  case Nil
  show ?case by simp
next
  case (Cons a ps)
  obtain t' w' where step: "addWeighted (t, w) a = (t', w')"
    by (cases "addWeighted (t, w) a")
  have parts:
    "overall t' =
       roundDouble (overall t + roundDouble (of_int (overall (scores a)) * double_weight (pd_depth a)))"
    "seo t' = roundDouble (seo t + roundDouble (of_int (seo (scores a)) * double_weight (pd_depth a)))"
    "performance t' =
       roundDouble (performance t +
         roundDouble (of_int (performance (scores a)) * double_weight (pd_depth a)))"
    "accessibility t' =
       roundDouble (accessibility t +
         roundDouble (of_int (accessibility (scores a)) * double_weight (pd_depth a)))"
    "content t' =
       roundDouble (content t + roundDouble (of_int (content (scores a)) * double_weight (pd_depth a)))"
    "uxDesign t' =
       roundDouble (uxDesign t +
         roundDouble (of_int (uxDesign (scores a)) * double_weight (pd_depth a)))"
    "w' = roundDouble (w + double_weight (pd_depth a))"
    using step by (auto simp: addWeighted_def Let_def pageWeight_def double_weight_def)
  have "foldl addWeighted (t, w) (a # ps) = foldl addWeighted (t', w') ps"
    by (simp add: step)
  then show ?case
    by (simp add: Cons.IH parts)
qed

lemma calculateAuditScores_double:
  assumes "ps \<noteq> []"
  shows "fst (calculateAuditScores ps) =
     \<lparr>overall = spec_clampRound (double_weightedMean overall ps),
      seo = spec_clampRound (double_weightedMean seo ps),
      performance = spec_clampRound (double_weightedMean performance ps),
      accessibility = spec_clampRound (double_weightedMean accessibility ps),
      content = spec_clampRound (double_weightedMean content ps),
      uxDesign = spec_clampRound (double_weightedMean uxDesign ps)\<rparr>"
  using assms
  by (simp add: calculateAuditScores_def Let_def foldl_addWeighted zeroScores_def
      clampScore_eq_spec double_weightedMean_def double_sum_def)

lemma double_weight_accurate:
  shows "accurate 2 (double_weight d) (1 / (1 + of_nat d))" and "0 < double_weight d"
proof -
  define m :: rat where "m = 1 + of_nat d"
  have m: "0 < m" by (simp add: m_def add_pos_nonneg)
  have "accurate 0 m m" using m by (intro accurate_refl) simp
  then have r: "accurate (Suc 0) (roundDouble m) m" using m by (intro accurate_round) simp_all
  then have rp: "0 < roundDouble m" using m by (rule accurate_pos)
  have "accurate (0 + Suc 0) (1 / roundDouble m) (1 / m)"
    using accurate_refl [of 1 0] r rp m by (intro accurate_divide) simp_all
  then have q: "accurate (Suc 0) (1 / roundDouble m) (1 / m)" by simp
  have qp: "0 \<le> 1 / roundDouble m" using rp by simp
  have "accurate (Suc (Suc 0)) (roundDouble (1 / roundDouble m)) (1 / m)"
    using q qp by (rule accurate_round)
  then show a: "accurate 2 (double_weight d) (1 / (1 + of_nat d))"
    by (simp add: double_weight_def m_def numeral_2_eq_2)
  show "0 < double_weight d"
    using a m by (intro accurate_pos [OF a]) (simp add: m_def)
qed

lemma weighted_score_accurate:
  assumes "0 \<le> s"
  shows "accurate 3 (roundDouble (of_int s * double_weight d)) (of_int s * (1 / (1 + of_nat d)))"
    and "0 \<le> roundDouble (of_int s * double_weight d)"
proof -
  have s: "(0::rat) \<le> of_int s" using assms by simp
  have p: "0 \<le> of_int s * double_weight d"
    using s double_weight_accurate(2) [of d] by simp
  have "accurate 2 (of_int s * double_weight d) (of_int s * (1 / (1 + of_nat d)))"
    using double_weight_accurate(1) s by (rule accurate_scale)
  then have "accurate (Suc 2) (roundDouble (of_int s * double_weight d))
      (of_int s * (1 / (1 + of_nat d)))"
    using p by (rule accurate_round)
  then show "accurate 3 (roundDouble (of_int s * double_weight d))
      (of_int s * (1 / (1 + of_nat d)))"
    by (simp add: eval_nat_numeral)
  show "0 \<le> roundDouble (of_int s * double_weight d)"
    using roundDouble_roundoff(3) [OF p] .
qed

lemma weight_sum_pos:
  assumes "ps \<noteq> []"
  shows "0 < (\<Sum>p\<leftarrow>ps. 1 / (1 + of_nat (pd_depth p)) :: rat)"
  using assms
proof (induction ps)
  case Nil
  then show ?case by simp
next
  case (Cons a ps)
  have a: "(0::rat) < 1 / (1 + of_nat (pd_depth a))" by (simp add: add_pos_nonneg)
  have "(0::rat) \<le> (\<Sum>p\<leftarrow>ps. 1 / (1 + of_nat (pd_depth p)))"
    by (intro sum_list_nonneg) (auto simp: add_nonneg_nonneg)
  with a have "0 < 1 / (1 + of_nat (pd_depth a)) + (\<Sum>p\<leftarrow>ps. 1 / (1 + of_nat (pd_depth p)) :: rat)"
    by (rule add_pos_nonneg)
  then show ?case by simp
qed

lemma double_weightedMean_accurate:
  assumes "ps \<noteq> []" and "\<forall>p\<in>set ps. 0 \<le> f (scores p)"
  shows "accurate (2 * length ps + 7) (double_weightedMean f ps) (spec_weightedMean f ps)"
proof -
  let ?g = "\<lambda>p. roundDouble (of_int (f (scores p)) * double_weight (pd_depth p))"
  let ?h = "\<lambda>p. of_int (f (scores p)) * (1 / (1 + of_nat (pd_depth p))) :: rat"
  let ?w = "\<lambda>p. double_weight (pd_depth p)"
  let ?v = "\<lambda>p. 1 / (1 + of_nat (pd_depth p)) :: rat"
  have num: "\<forall>p\<in>set ps. accurate 3 (?g p) (?h p) \<and> 0 \<le> ?g p \<and> 0 \<le> ?h p"
    using assms(2) weighted_score_accurate by (auto simp: add_nonneg_nonneg)
  have den: "\<forall>p\<in>set ps. accurate 3 (?w p) (?v p) \<and> 0 \<le> ?w p \<and> 0 \<le> ?v p"
  proof
    fix p
    assume "p \<in> set ps"
    have pos: "0 \<le> ?w p" "0 \<le> ?v p"
      using double_weight_accurate(2) [of "pd_depth p"] by (simp_all add: add_nonneg_nonneg)
    have "accurate 3 (?w p) (?v p)"
      using double_weight_accurate(1) [of "pd_depth p"] _ pos by (rule accurate_mono) simp
    with pos show "accurate 3 (?w p) (?v p) \<and> 0 \<le> ?w p \<and> 0 \<le> ?v p" by simp
  qed
  note n = double_sum_accurate [OF num]
  note d = double_sum_accurate [OF den]
  have vpos: "0 < sum_list (map ?v ps)" using weight_sum_pos [OF assms(1)] .
  have wpos: "0 < double_sum (map ?w ps)" using d(1) vpos by (rule accurate_pos)
  have q: "accurate ((3 + length ps) + (3 + length ps))
      (double_sum (map ?g ps) / double_sum (map ?w ps))
      (sum_list (map ?h ps) / sum_list (map ?v ps))"
    using n(1) d(1) n(2) n(3) wpos vpos by (rule accurate_divide)
  have qp: "0 \<le> double_sum (map ?g ps) / double_sum (map ?w ps)"
    using n(2) wpos by simp
  have "accurate (Suc ((3 + length ps) + (3 + length ps)))
      (roundDouble (double_sum (map ?g ps) / double_sum (map ?w ps)))
      (sum_list (map ?h ps) / sum_list (map ?v ps))"
    using q qp by (rule accurate_round)
  moreover have "Suc ((3 + length ps) + (3 + length ps)) = 2 * length ps + 7" by simp
  ultimately show ?thesis
    by (simp only: double_weightedMean_def spec_weightedMean_def)
qed

lemma spec_weightedMean_range:
  assumes "ps \<noteq> []" and "\<forall>p\<in>set ps. 0 \<le> f (scores p) \<and> f (scores p) \<le> 100"
  shows "0 \<le> spec_weightedMean f ps" and "spec_weightedMean f ps \<le> 100"
proof -
  let ?h = "\<lambda>p. of_int (f (scores p)) * (1 / (1 + of_nat (pd_depth p))) :: rat"
  let ?v = "\<lambda>p. 1 / (1 + of_nat (pd_depth p)) :: rat"
  have vpos: "0 < sum_list (map ?v ps)" using weight_sum_pos [OF assms(1)] .
  have h0: "0 \<le> sum_list (map ?h ps)"
    using assms(2) by (intro sum_list_nonneg) (auto simp: add_nonneg_nonneg)
  have "sum_list (map ?h ps) \<le> sum_list (map (\<lambda>p. 100 * ?v p) ps)"
  proof (rule sum_list_mono)
    fix p
    assume "p \<in> set ps"
    then have "(of_int (f (scores p)) :: rat) \<le> 100"
      using assms(2) of_int_le_iff [of "f (scores p)" 100, where ?'a = rat] by simp
    moreover have "(0::rat) \<le> 1 / (1 + of_nat (pd_depth p))" by (simp add: add_nonneg_nonneg)
    ultimately show "?h p \<le> 100 * ?v p" by (rule mult_right_mono)
  qed
  also have "\<dots> = 100 * sum_list (map ?v ps)" by (simp only: sum_list_const_mult)
  finally have h100: "sum_list (map ?h ps) \<le> 100 * sum_list (map ?v ps)" .
  show "0 \<le> spec_weightedMean f ps"
    using h0 vpos by (simp add: spec_weightedMean_def)
  show "spec_weightedMean f ps \<le> 100"
    using h100 vpos by (simp add: spec_weightedMean_def pos_divide_le_eq)
qed

lemma double_weightedMean_close:
  assumes "ps \<noteq> []" and "\<forall>p\<in>set ps. 0 \<le> f (scores p) \<and> f (scores p) \<le> 100"
    and "length ps \<le> 1000"
  shows "\<bar>double_weightedMean f ps - spec_weightedMean f ps\<bar> \<le> 1 / 2 ^ 33"
proof -
  have nn: "\<forall>p\<in>set ps. 0 \<le> f (scores p)" using assms(2) by simp
  have k: "2 * length ps + 7 \<le> 2007" using assms(3) by simp
  show ?thesis
    using double_weightedMean_accurate [OF assms(1) nn] k
      spec_weightedMean_range [OF assms(1,2)]
    by (rule accurate_distance)
qed

lemma spec_clampRound_mono: "x \<le> y \<Longrightarrow> spec_clampRound x \<le> spec_clampRound y"
  unfolding spec_clampRound_def by (intro js_round_mono) (auto simp: max_def min_def)

lemma spec_clampRound_near:
  assumes "\<bar>x - y\<bar> \<le> 1"
  shows "\<bar>spec_clampRound x - spec_clampRound y\<bar> \<le> 1"
proof -
  have "\<bar>max 0 (min 100 x) - max 0 (min 100 y)\<bar> \<le> 1"
    using assms by (simp add: max_def min_def abs_if split: if_splits)
  then show ?thesis unfolding spec_clampRound_def js_round_def by linarith
qed

text \<open>
  Claim C3, as the code has it.  For every non-empty sequence of pages, each audit-level
  score (overall and the five categories) is the mean of the pages' corresponding scores
  weighted by 1 / (1 + depth), each category on its own, where the weights, the products,
  the running sums (in page order) and the final quotient are each rounded to the nearest
  double; the result is clamped to [0,100] and rounded.  For at most 1000 pages with
  scores in [0,100] this double mean lies within \<open>1 / 2 ^ 33\<close> of the exact weighted mean,
  so the score differs by at most one from the score of the exact mean, and equals it
  unless the exact mean lies that close to a rounding tie.
\<close>

theorem audit_scores_weighted_mean:
  assumes "ps \<noteq> []"
  shows "fst (calculateAuditScores ps) =
     \<lparr>overall = spec_clampRound (double_weightedMean overall ps),
      seo = spec_clampRound (double_weightedMean seo ps),
      performance = spec_clampRound (double_weightedMean performance ps),
      accessibility = spec_clampRound (double_weightedMean accessibility ps),
      content = spec_clampRound (double_weightedMean content ps),
      uxDesign = spec_clampRound (double_weightedMean uxDesign ps)\<rparr> \<and>
    ((\<forall>p\<in>set ps. 0 \<le> f (scores p) \<and> f (scores p) \<le> 100) \<and> length ps \<le> 1000 \<longrightarrow>
       \<bar>double_weightedMean f ps - spec_weightedMean f ps\<bar> \<le> 1 / 2 ^ 33 \<and>
       \<bar>spec_clampRound (double_weightedMean f ps) -
          spec_clampRound (spec_weightedMean f ps)\<bar> \<le> 1 \<and>
       (spec_clampRound (spec_weightedMean f ps - 1 / 2 ^ 33) =
          spec_clampRound (spec_weightedMean f ps + 1 / 2 ^ 33) \<longrightarrow>
        spec_clampRound (double_weightedMean f ps) =
          spec_clampRound (spec_weightedMean f ps)))"
proof (intro conjI impI)
  show "fst (calculateAuditScores ps) =
     \<lparr>overall = spec_clampRound (double_weightedMean overall ps),
      seo = spec_clampRound (double_weightedMean seo ps),
      performance = spec_clampRound (double_weightedMean performance ps),
      accessibility = spec_clampRound (double_weightedMean accessibility ps),
      content = spec_clampRound (double_weightedMean content ps),
      uxDesign = spec_clampRound (double_weightedMean uxDesign ps)\<rparr>"
    using assms by (rule calculateAuditScores_double)
next
  assume h: "(\<forall>p\<in>set ps. 0 \<le> f (scores p) \<and> f (scores p) \<le> 100) \<and> length ps \<le> 1000"
  then show close: "\<bar>double_weightedMean f ps - spec_weightedMean f ps\<bar> \<le> 1 / 2 ^ 33"
    using double_weightedMean_close [OF assms, of f] by simp
  have "(1::rat) / 2 ^ 33 \<le> 1" by simp
  with close have "\<bar>double_weightedMean f ps - spec_weightedMean f ps\<bar> \<le> 1" by linarith
  then show "\<bar>spec_clampRound (double_weightedMean f ps) -
      spec_clampRound (spec_weightedMean f ps)\<bar> \<le> 1"
    by (rule spec_clampRound_near)
  assume tie: "spec_clampRound (spec_weightedMean f ps - 1 / 2 ^ 33) =
      spec_clampRound (spec_weightedMean f ps + 1 / 2 ^ 33)"
  have lo: "spec_weightedMean f ps - 1 / 2 ^ 33 \<le> double_weightedMean f ps"
    and hi: "double_weightedMean f ps \<le> spec_weightedMean f ps + 1 / 2 ^ 33"
    using close by linarith+
  have m1: "spec_clampRound (spec_weightedMean f ps - 1 / 2 ^ 33)
      \<le> spec_clampRound (spec_weightedMean f ps)"
    and m2: "spec_clampRound (spec_weightedMean f ps)
      \<le> spec_clampRound (spec_weightedMean f ps + 1 / 2 ^ 33)"
    by (rule spec_clampRound_mono, simp)+
  show "spec_clampRound (double_weightedMean f ps) = spec_clampRound (spec_weightedMean f ps)"
    using spec_clampRound_mono [OF lo] spec_clampRound_mono [OF hi] m1 m2 tie by linarith
qed

text \<open>
  The weighted mean on two pages, the seed at depth 0 and one page at depth 1: the seed
  counts twice as much.  No exact mean of the six lies near a tie, so the double
  arithmetic of the code yields the scores of the exact means.
\<close>

theorem audit_scores_weighted_mean_witness:
  "scoredPages \<noteq> [] \<and>
   fst (calculateAuditScores scoredPages) =
     \<lparr>overall = 80, seo = 70, performance = 75, accessibility = 90, content = 82,
      uxDesign = 82\<rparr>"
proof -
  have ne: "scoredPages \<noteq> []" by (simp add: scoredPages_def)
  have len: "length scoredPages \<le> 1000" by (simp add: scoredPages_def)
  have range: "\<forall>p\<in>set scoredPages. 0 \<le> overall (scores p) \<and> overall (scores p) \<le> 100"
    "\<forall>p\<in>set scoredPages. 0 \<le> seo (scores p) \<and> seo (scores p) \<le> 100"
    "\<forall>p\<in>set scoredPages. 0 \<le> performance (scores p) \<and> performance (scores p) \<le> 100"
    "\<forall>p\<in>set scoredPages. 0 \<le> accessibility (scores p) \<and> accessibility (scores p) \<le> 100"
    "\<forall>p\<in>set scoredPages. 0 \<le> content (scores p) \<and> content (scores p) \<le> 100"
    "\<forall>p\<in>set scoredPages. 0 \<le> uxDesign (scores p) \<and> uxDesign (scores p) \<le> 100"
    by (simp_all add: scoredPages_def examplePage_def)
  have means: "spec_weightedMean overall scoredPages = 80"
    "spec_weightedMean seo scoredPages = 70"
    "spec_weightedMean performance scoredPages = 226 / 3"
    "spec_weightedMean accessibility scoredPages = 90"
    "spec_weightedMean content scoredPages = 245 / 3"
    "spec_weightedMean uxDesign scoredPages = 245 / 3"
    by (simp_all add: spec_weightedMean_def scoredPages_def examplePage_def)
  have rounds: "spec_clampRound 80 = 80" "spec_clampRound 70 = 70"
    "spec_clampRound (226 / 3) = 75" "spec_clampRound 90 = 90"
    "spec_clampRound (245 / 3) = 82"
    by (simp_all add: spec_clampRound_def js_round_def floor_rat_numeral_div)
  have below: "spec_clampRound (80 - 1 / 2 ^ 33) = 80" "spec_clampRound (70 - 1 / 2 ^ 33) = 70"
    "spec_clampRound (226 / 3 - 1 / 2 ^ 33) = 75" "spec_clampRound (90 - 1 / 2 ^ 33) = 90"
    "spec_clampRound (245 / 3 - 1 / 2 ^ 33) = 82"
    by (simp_all add: spec_clampRound_def js_round_def floor_rat_numeral_div)
  have above: "spec_clampRound (80 + 1 / 2 ^ 33) = 80" "spec_clampRound (70 + 1 / 2 ^ 33) = 70"
    "spec_clampRound (226 / 3 + 1 / 2 ^ 33) = 75" "spec_clampRound (90 + 1 / 2 ^ 33) = 90"
    "spec_clampRound (245 / 3 + 1 / 2 ^ 33) = 82"
    by (simp_all add: spec_clampRound_def js_round_def floor_rat_numeral_div)
  have scores: "spec_clampRound (double_weightedMean overall scoredPages) = 80"
    "spec_clampRound (double_weightedMean seo scoredPages) = 70"
    "spec_clampRound (double_weightedMean performance scoredPages) = 75"
    "spec_clampRound (double_weightedMean accessibility scoredPages) = 90"
    "spec_clampRound (double_weightedMean content scoredPages) = 82"
    "spec_clampRound (double_weightedMean uxDesign scoredPages) = 82"
    using audit_scores_weighted_mean [OF ne, of overall] audit_scores_weighted_mean [OF ne, of seo]
      audit_scores_weighted_mean [OF ne, of performance]
      audit_scores_weighted_mean [OF ne, of accessibility]
      audit_scores_weighted_mean [OF ne, of content]
      audit_scores_weighted_mean [OF ne, of uxDesign] range len
    by (simp_all only: means rounds below above simp_thms)
  show ?thesis
    using ne audit_scores_weighted_mean [OF ne, of overall] by (simp only: scores simp_thms)
qed

text \<open>The running totals of the loop on four pages at depths 0, 1, 1 and 2.\<close>

lemma tiePages_totals:
  "foldl addWeighted (zeroScores, 0) tiePages =
     (\<lparr>overall = 8784364898178389 / 70368744177664, seo = 135,
       performance = 5054821456762197 / 35184372088832, accessibility = 125,
       content = 3665038759253333 / 35184372088832,
       uxDesign = 8186230572668245 / 70368744177664\<rparr>,
      5254199565265579 / 2251799813685248)"
proof -
  have s1: "addWeighted (zeroScores, 0)
      (examplePage\<lparr>scores := \<lparr>overall = 55, seo = 60, performance = 73, accessibility = 50,
                                content = 45, uxDesign = 47\<rparr>\<rparr>) =
     (\<lparr>overall = 55, seo = 60, performance = 73, accessibility = 50, content = 45,
       uxDesign = 47\<rparr>, 1)"
    by code_simp
  have s2: "addWeighted
      (\<lparr>overall = 55, seo = 60, performance = 73, accessibility = 50, content = 45,
        uxDesign = 47\<rparr>, 1)
      (examplePage\<lparr>pd_id := ''p1'', pd_url := ''http://site.test/a'', pd_depth := 1,
        scores := \<lparr>overall = 60, seo = 70, performance = 66, accessibility = 60,
                    content = 50, uxDesign = 54\<rparr>\<rparr>) =
     (\<lparr>overall = 85, seo = 95, performance = 106, accessibility = 80, content = 70,
       uxDesign = 74\<rparr>, 3 / 2)"
    by code_simp
  have s3: "addWeighted
      (\<lparr>overall = 85, seo = 95, performance = 106, accessibility = 80, content = 70,
        uxDesign = 74\<rparr>, 3 / 2)
      (examplePage\<lparr>pd_id := ''p2'', pd_url := ''http://site.test/b'', pd_depth := 1,
        scores := \<lparr>overall = 41, seo = 40, performance = 36, accessibility = 50,
                    content = 35, uxDesign = 44\<rparr>\<rparr>) =
     (\<lparr>overall = 211 / 2, seo = 115, performance = 124, accessibility = 105,
       content = 175 / 2, uxDesign = 96\<rparr>, 2)"
    by code_simp
  have s4: "addWeighted
      (\<lparr>overall = 211 / 2, seo = 115, performance = 124, accessibility = 105,
        content = 175 / 2, uxDesign = 96\<rparr>, 2)
      (examplePage\<lparr>pd_id := ''p3'', pd_url := ''http://site.test/a/c'', pd_depth := 2,
        scores := \<lparr>overall = 58, seo = 60, performance = 59, accessibility = 60,
                    content = 50, uxDesign = 61\<rparr>\<rparr>) =
     (\<lparr>overall = 8784364898178389 / 70368744177664, seo = 135,
       performance = 5054821456762197 / 35184372088832, accessibility = 125,
       content = 3665038759253333 / 35184372088832,
       uxDesign = 8186230572668245 / 70368744177664\<rparr>,
      5254199565265579 / 2251799813685248)"
    by code_simp
  show ?thesis
    unfolding tiePages_def by (simp only: foldl_Cons foldl_Nil s1 s2 s3 s4)
qed

text \<open>
  Claim C3 as stated, with the exact weighted mean, fails on four pages with overall
  scores 55, 60, 41, 58 at depths 0, 1, 1, 2: the exact mean is 53.5, which rounds to 54;
  the doubles of the code add up to 53.49999999999999, and the code returns 53.
\<close>

theorem weighted_mean_tie_counterexample:
  "overall (fst (calculateAuditScores tiePages)) = 53 \<and>
   spec_clampRound (spec_weightedMean overall tiePages) = 54"
proof -
  have ne: "length tiePages \<noteq> 0" by (simp add: tiePages_def)
  have q: "clampScore (roundDouble
      (8784364898178389 / 70368744177664 / (5254199565265579 / 2251799813685248))) = 53"
    by code_simp
  have code: "overall (fst (calculateAuditScores tiePages)) = 53"
    by (simp only: calculateAuditScores_def Let_def ne if_False tiePages_totals fst_conv
        snd_conv Scores.select_convs q)
  have mean: "spec_weightedMean overall tiePages = 107 / 2"
    by (simp add: spec_weightedMean_def tiePages_def examplePage_def)
  have spec: "spec_clampRound (spec_weightedMean overall tiePages) = 54"
    unfolding mean by (simp add: spec_clampRound_def js_round_def floor_rat_numeral_div)
  show ?thesis using code spec by simp
qed


section \<open>Properties of the analyzers and of the page records\<close>

lemma clampScore_of_int: "clampScore (of_int n) = max 0 (min 100 n)"
  by (simp add: clampScore_def js_round_of_int)

lemma scoreCategory_penaltySum:
  "scoreCategory base iss cat extra = max 0 (min 100 (base - penaltySum iss cat - extra))"
  using clampScore_of_int [of "base - penaltySum iss cat - extra"]
  by (simp add: scoreCategory_def penaltySum_def foldl_penalty)

lemma penaltySum_cores:
  "penaltySum iss cat =
     (\<Sum>c\<leftarrow>filter (\<lambda>c. fst c = cat) (map issueCore iss). severityPenalty (fst (snd (snd c))))"
  by (induction iss) (auto simp: penaltySum_def issueCore_def)

lemma map_issueCore_ids:
  "map (issueCore \<circ> (\<lambda>(idx, issue). issue\<lparr>issue_id := f idx, pageUrl := g\<rparr>)) (enumerate n xs)
     = map issueCore xs"
  by (induction xs arbitrary: n) (auto simp: issueCore_def)

lemma calculatePageScores_scores_irrelevant:
  "calculatePageScores (p\<lparr>scores := s\<rparr>) = calculatePageScores p"
  by (simp add: calculatePageScores_def seoPenalty_def accessibilityPenalty_def
      contentPenalty_def uxPenalty_def Let_def cong: option.case_cong)

lemma scores_of_scored:
  "scores (sp\<lparr>scores := calculatePageScores sp\<rparr>)
     = calculatePageScores (sp\<lparr>scores := calculatePageScores sp\<rparr>)"
  by (simp add: calculatePageScores_scores_irrelevant)

lemma buildPage_scores:
  "scores (buildPage inboundMap pid raw analysis)
     = calculatePageScores (buildPage inboundMap pid raw analysis)"
  unfolding buildPage_def Let_def by (simp only: scores_of_scored)

lemma buildPage_analyzed:
  fixes inboundMap pid raw analysis
  defines "p \<equiv> buildPage inboundMap pid raw analysis"
  shows "map issueCore (issues p) =
           map issueCore (ao_issues analysis) @
           orphanCores (case inboundMap (url raw) of None \<Rightarrow> 0 | Some n \<Rightarrow> n) (depth raw)"
    and "performanceData p = ao_performanceData analysis"
    and "seoData p = ao_seoData analysis"
    and "accessibilityData p = ao_accessibilityData analysis"
    and "designUxData p = ao_designUxData analysis"
    and "pd_depth p = depth raw"
  unfolding p_def
  by (simp_all add: buildPage_def Let_def applyContentGraphIssues_def map_issueCore_ids
      orphanCores_def issueCore_def)

lemma processPage_parsed:
  assumes "\<not> truthy (error raw)" and "html raw \<noteq> []" and "parse env (html raw) = Some doc"
  shows "processPage env inboundMap pid raw =
           Some (buildPage inboundMap pid raw (analyzeDocument env raw doc))"
  using assms by (simp add: processPage_def analyzePage_def)

lemma analyzeSeo_offPerformance:
  "i \<in> set (snd (analyzeSeo doc u)) \<Longrightarrow> offPerformance i"
  by (auto simp: analyzeSeo_def Let_def createIssue_def offPerformance_def split: if_splits)

lemma analyzeAccessibility_offPerformance:
  "i \<in> set (snd (analyzeAccessibility doc u)) \<Longrightarrow> offPerformance i"
  by (auto simp: analyzeAccessibility_def Let_def createIssue_def offPerformance_def
      split: if_splits)

lemma analyzeContentStructure_offPerformance:
  "i \<in> set (snd (analyzeContentStructure env doc page)) \<Longrightarrow> offPerformance i"
  by (auto simp: analyzeContentStructure_def Let_def createIssue_def offPerformance_def
      split: if_splits)

lemma analyzeDesignUx_offPerformance:
  "i \<in> set (snd (analyzeDesignUx markup doc u)) \<Longrightarrow> offPerformance i"
  by (auto simp: analyzeDesignUx_def Let_def createIssue_def offPerformance_def
      split: if_splits)

lemma analyzePerformance_category:
  "i \<in> set (snd (analyzePerformance env u)) \<Longrightarrow> category i = Performance"
  by (auto simp: analyzePerformance_def Let_def createIssue_def
      split: if_splits PsiOutcome.splits option.splits)

lemma filter_cores_off:
  assumes "\<And>i. i \<in> set xs \<Longrightarrow> offPerformance i"
  shows "filter (\<lambda>c. fst c = Performance \<or> fst (snd c) = ''PERFORMANCE_DATA_UNAVAILABLE'')
           (map issueCore xs) = []"
    and "filter (\<lambda>c. fst c = Performance) (map issueCore xs) = []"
  using assms by (auto simp: filter_empty_conv issueCore_def offPerformance_def)

lemma filter_cores_on:
  assumes "\<And>i. i \<in> set xs \<Longrightarrow> category i = Performance"
  shows "filter (\<lambda>c. fst c = Performance \<or> fst (snd c) = ''PERFORMANCE_DATA_UNAVAILABLE'')
           (map issueCore xs) = map issueCore xs"
    and "filter (\<lambda>c. fst c = Performance) (map issueCore xs) = map issueCore xs"
  using assms by (auto simp: filter_id_conv issueCore_def)

lemma analyzeDocument_issues:
  "ao_issues (analyzeDocument env raw doc) =
           snd (analyzeSeo doc (url raw)) @
           snd (if depth raw = 0 then analyzePerformance env (url raw) else (None, [])) @
           snd (analyzeAccessibility doc (url raw)) @
           snd (analyzeContentStructure env doc raw) @
           snd (analyzeDesignUx (html raw) doc (url raw))"
  "ao_performanceData (analyzeDocument env raw doc) =
           fst (if depth raw = 0 then analyzePerformance env (url raw) else (None, []))"
  by (simp_all add: analyzeDocument_def Let_def)

lemma analyzeDocument_seed_performance:
  assumes "depth raw = 0"
  shows "filter (\<lambda>c. fst c = Performance \<or> fst (snd c) = ''PERFORMANCE_DATA_UNAVAILABLE'')
           (map issueCore (ao_issues (analyzeDocument env raw doc)))
         = map issueCore (snd (analyzePerformance env (url raw)))"
    and "filter (\<lambda>c. fst c = Performance)
           (map issueCore (ao_issues (analyzeDocument env raw doc)))
         = map issueCore (snd (analyzePerformance env (url raw)))"
    and "ao_performanceData (analyzeDocument env raw doc) = fst (analyzePerformance env (url raw))"
  using assms
  by (simp_all add: analyzeDocument_issues
      filter_cores_off [OF analyzeSeo_offPerformance]
      filter_cores_off [OF analyzeAccessibility_offPerformance]
      filter_cores_off [OF analyzeContentStructure_offPerformance]
      filter_cores_off [OF analyzeDesignUx_offPerformance]
      filter_cores_on [OF analyzePerformance_category])

lemma seed_page_performance:
  assumes "depth raw = 0"
  shows "performanceCores (buildPage inboundMap pid raw (analyzeDocument env raw doc))
           = map issueCore (snd (analyzePerformance env (url raw)))"
    and "filter (\<lambda>c. fst c = Performance)
           (map issueCore (issues (buildPage inboundMap pid raw (analyzeDocument env raw doc))))
           = map issueCore (snd (analyzePerformance env (url raw)))"
    and "performanceData (buildPage inboundMap pid raw (analyzeDocument env raw doc))
           = fst (analyzePerformance env (url raw))"
  using assms
  by (simp_all add: performanceCores_def buildPage_analyzed analyzeDocument_seed_performance
      orphanCores_def)

lemma buildPage_performance_score:
  "performance (scores (buildPage inboundMap pid raw analysis)) =
     scorePerformance (performanceData (buildPage inboundMap pid raw analysis))
       (issues (buildPage inboundMap pid raw analysis))"
  by (simp add: buildPage_scores calculatePageScores_def Let_def)

lemma scorePerformance_unmeasured:
  assumes "(case pdata of None \<Rightarrow> None | Some d \<Rightarrow> performanceScore d) = None"
  shows "scorePerformance pdata iss = max 0 (min 100 (80 - penaltySum iss Performance))"
  using assms by (simp add: scorePerformance_def scoreCategory_penaltySum)

lemma seed_unconfigured:
  fixes env inboundMap pid raw doc
  assumes "depth raw = 0" and "\<not> truthy (apiKey env)"
  defines "p \<equiv> buildPage inboundMap pid raw (analyzeDocument env raw doc)"
  shows "performanceData p = None"
    and "performanceCores p =
           [(Performance, ''PERFORMANCE_DATA_UNAVAILABLE'', Minor,
             ''PageSpeed API key not configured; using placeholder score'')]"
    and "performance (scores p) = 73"
proof -
  have pa: "analyzePerformance env (url raw) =
      (None, [createIssue Performance ''PERFORMANCE_DATA_UNAVAILABLE'' Minor
            ''PageSpeed API key not configured; using placeholder score'' (Some (url raw))])"
    using assms(2) by (simp add: analyzePerformance_def)
  show d: "performanceData p = None"
    unfolding p_def by (simp add: seed_page_performance(3) [OF assms(1)] pa)
  show "performanceCores p =
           [(Performance, ''PERFORMANCE_DATA_UNAVAILABLE'', Minor,
             ''PageSpeed API key not configured; using placeholder score'')]"
    unfolding p_def
    by (simp add: seed_page_performance(1) [OF assms(1)] pa issueCore_def createIssue_def)
  have "penaltySum (issues p) Performance = 7"
    unfolding p_def
    by (simp add: penaltySum_cores seed_page_performance(2) [OF assms(1)] pa issueCore_def
        createIssue_def)
  then show "performance (scores p) = 73"
    using d unfolding p_def
    by (simp add: buildPage_performance_score scorePerformance_unmeasured)
qed

lemma seed_failed_request:
  fixes env inboundMap pid raw doc
  assumes "depth raw = 0" and "truthy (apiKey env)"
    and "pageSpeed env (url raw) = PsiThrew msg"
  defines "p \<equiv> buildPage inboundMap pid raw (analyzeDocument env raw doc)"
  shows "performanceData p =
           Some \<lparr>performanceScore = None, firstContentfulPaintMs = None,
                 largestContentfulPaintMs = None, totalBlockingTimeMs = None,
                 cumulativeLayoutShift = None, strategy = None, perf_error = msg\<rparr>"
    and "performanceCores p =
           [(Performance, ''PERFORMANCE_DATA_UNAVAILABLE'', Minor,
             ''Failed to retrieve PageSpeed data'')]"
    and "performance (scores p) = 73"
proof -
  have pa: "analyzePerformance env (url raw) =
      (Some \<lparr>performanceScore = None, firstContentfulPaintMs = None,
                 largestContentfulPaintMs = None, totalBlockingTimeMs = None,
                 cumulativeLayoutShift = None, strategy = None, perf_error = msg\<rparr>,
       [createIssue Performance ''PERFORMANCE_DATA_UNAVAILABLE'' Minor
            ''Failed to retrieve PageSpeed data'' (Some (url raw))])"
    using assms(2,3) by (simp add: analyzePerformance_def)
  show d: "performanceData p =
           Some \<lparr>performanceScore = None, firstContentfulPaintMs = None,
                 largestContentfulPaintMs = None, totalBlockingTimeMs = None,
                 cumulativeLayoutShift = None, strategy = None, perf_error = msg\<rparr>"
    unfolding p_def by (simp add: seed_page_performance(3) [OF assms(1)] pa)
  show "performanceCores p =
           [(Performance, ''PERFORMANCE_DATA_UNAVAILABLE'', Minor,
             ''Failed to retrieve PageSpeed data'')]"
    unfolding p_def
    by (simp add: seed_page_performance(1) [OF assms(1)] pa issueCore_def createIssue_def)
  have "penaltySum (issues p) Performance = 7"
    unfolding p_def
    by (simp add: penaltySum_cores seed_page_performance(2) [OF assms(1)] pa issueCore_def
        createIssue_def)
  then show "performance (scores p) = 73"
    using d unfolding p_def
    by (simp add: buildPage_performance_score scorePerformance_unmeasured)
qed

text \<open>
  Claim C1, as the code has it.  For a seed page (depth 0) that was fetched with markup
  and whose analysis does not throw: when no API key is configured the page record has no
  performance snapshot, exactly one issue that concerns performance, the minor
  PERFORMANCE_DATA_UNAVAILABLE, and the performance score 73 (base 80 minus the minor
  penalty 7); when the request is made and throws, the snapshot holds only the error
  message, the only performance issue is again the minor PERFORMANCE_DATA_UNAVAILABLE,
  and the score is again 73.
\<close>

theorem seed_performance_unavailable:
  assumes "\<not> truthy (error raw)" and "html raw \<noteq> []" and "depth raw = 0"
    and "parse env (html raw) = Some doc"
  shows "(\<not> truthy (apiKey env) \<longrightarrow>
            (\<exists>p. processPage env inboundMap pid raw = Some p \<and>
               performanceData p = None \<and>
               performanceCores p =
                 [(Performance, ''PERFORMANCE_DATA_UNAVAILABLE'', Minor,
                   ''PageSpeed API key not configured; using placeholder score'')] \<and>
               performance (scores p) = 73)) \<and>
         (truthy (apiKey env) \<and> pageSpeed env (url raw) = PsiThrew msg \<longrightarrow>
            (\<exists>p. processPage env inboundMap pid raw = Some p \<and>
               performanceData p =
                 Some \<lparr>performanceScore = None, firstContentfulPaintMs = None,
                       largestContentfulPaintMs = None, totalBlockingTimeMs = None,
                       cumulativeLayoutShift = None, strategy = None, perf_error = msg\<rparr> \<and>
               performanceCores p =
                 [(Performance, ''PERFORMANCE_DATA_UNAVAILABLE'', Minor,
                   ''Failed to retrieve PageSpeed data'')] \<and>
               performance (scores p) = 73))"
  by (simp add: processPage_parsed [OF assms(1,2,4)] seed_unconfigured [OF assms(3)]
      seed_failed_request [OF assms(3)])

text \<open>A seed page analysed without an API key, and with a key and a failing request.\<close>

theorem seed_performance_unavailable_witness:
  "(\<exists>p. processPage unconfiguredEnv Map.empty ''p0'' seedResult = Some p \<and>
        performanceData p = None \<and> performance (scores p) = 73) \<and>
   (\<exists>p. processPage failingEnv Map.empty ''p0'' seedResult = Some p \<and>
        performance (scores p) = 73)"
proof -
  have r: "\<not> truthy (error seedResult)" "html seedResult \<noteq> []" "depth seedResult = 0"
    by (simp_all add: seedResult_def)
  have d: "parse unconfiguredEnv (html seedResult) = Some exampleDom"
    "parse failingEnv (html seedResult) = Some exampleDom"
    by (simp_all add: unconfiguredEnv_def failingEnv_def)
  have k: "\<not> truthy (apiKey unconfiguredEnv)" "truthy (apiKey failingEnv)"
    "pageSpeed failingEnv (url seedResult) = PsiThrew (Some ''timeout of 15000ms exceeded'')"
    by (simp_all add: unconfiguredEnv_def failingEnv_def)
  show ?thesis
    using seed_performance_unavailable
        [OF r d(1), where inboundMap = Map.empty and pid = "''p0''"]
      seed_performance_unavailable
        [OF r d(2), where inboundMap = Map.empty and pid = "''p0''"
          and msg = "Some ''timeout of 15000ms exceeded''"] k
    by blast
qed

text \<open>
  Claim C1 as stated fails: the unconfigured seed page is not scored 70 and the seed page
  whose request failed is not scored 50.
\<close>

theorem seed_placeholder_counterexample:
  "map_option (performance \<circ> scores)
     (processPage unconfiguredEnv Map.empty ''p0'' seedResult) = Some 73 \<and>
   map_option (performance \<circ> scores)
     (processPage unconfiguredEnv Map.empty ''p0'' seedResult) \<noteq> Some 70 \<and>
   map_option (performance \<circ> scores)
     (processPage failingEnv Map.empty ''p0'' seedResult) = Some 73 \<and>
   map_option (performance \<circ> scores)
     (processPage failingEnv Map.empty ''p0'' seedResult) \<noteq> Some 50"
proof -
  have r: "\<not> truthy (error seedResult)" "html seedResult \<noteq> []" "depth seedResult = 0"
    by (simp_all add: seedResult_def)
  have d: "parse unconfiguredEnv (html seedResult) = Some exampleDom"
    "parse failingEnv (html seedResult) = Some exampleDom"
    by (simp_all add: unconfiguredEnv_def failingEnv_def)
  have k: "\<not> truthy (apiKey unconfiguredEnv)" "truthy (apiKey failingEnv)"
    "pageSpeed failingEnv (url seedResult) = PsiThrew (Some ''timeout of 15000ms exceeded'')"
    by (simp_all add: unconfiguredEnv_def failingEnv_def)
  show ?thesis
    by (simp add: processPage_parsed [OF r(1,2) d(1)] processPage_parsed [OF r(1,2) d(2)]
        seed_unconfigured(3) [OF r(3) k(1)] seed_failed_request(3) [OF r(3) k(2,3)])
qed

text \<open>
  Claim C6, as the code has it.  When the PageSpeed request answers, the performance
  analyzer emits, in this order, a critical SLOW_LCP_MOBILE issue when the largest
  contentful paint is above 4000 ms, a major HIGH_TBT issue when the total blocking time
  is above 600 ms, and a critical POOR_PERFORMANCE_SCORE issue when the rounded score is
  below 50, and no other issue.
\<close>

theorem performance_issue_rules:
  assumes "truthy (apiKey env)" and "pageSpeed env u = PsiResponse lh"
  shows "map (\<lambda>i. (category i, code i, severity i)) (snd (analyzePerformance env u)) =
           (if (case lh_largestContentfulPaint lh of None \<Rightarrow> False | Some lcp \<Rightarrow> lcp > 4000)
            then [(Performance, ''SLOW_LCP_MOBILE'', Critical)] else []) @
           (if (case lh_totalBlockingTime lh of None \<Rightarrow> False | Some tbt \<Rightarrow> tbt > 600)
            then [(Performance, ''HIGH_TBT'', Major)] else []) @
           (if js_round ((case lh_score lh of None \<Rightarrow> 0 | Some sc \<Rightarrow> sc) * 100) < 50
            then [(Performance, ''POOR_PERFORMANCE_SCORE'', Critical)] else [])"
  using assms
  by (simp add: analyzePerformance_def Let_def createIssue_def split: option.splits)

text \<open>A largest contentful paint of 5 s gives the critical issue alone.\<close>

theorem performance_issue_rules_witness:
  "map (\<lambda>i. (category i, code i, severity i))
     (snd (analyzePerformance slowEnv ''http://site.test/''))
   = [(Performance, ''SLOW_LCP_MOBILE'', Critical)]"
proof -
  have k: "truthy (apiKey slowEnv)"
    "pageSpeed slowEnv ''http://site.test/'' =
       PsiResponse (measuredLighthouse\<lparr>lh_largestContentfulPaint := Some 5000\<rparr>)"
    by (simp_all add: slowEnv_def failingEnv_def unconfiguredEnv_def)
  have v: "js_round 90 = 90"
    using js_round_of_int [of 90] by simp
  show ?thesis
    using performance_issue_rules [OF k] by (simp add: measuredLighthouse_def v)
qed

text \<open>
  Claim C6 as stated fails: a largest contentful paint of 3 s (above 2.5 s) together with
  a layout shift of 0.5 gives no issue at all.
\<close>

theorem performance_issue_counterexample:
  "snd (analyzePerformance measuredEnv ''http://site.test/'') = []"
proof -
  have v: "js_round 90 = 90"
    using js_round_of_int [of 90] by simp
  show ?thesis
    by (simp add: analyzePerformance_def measuredEnv_def failingEnv_def unconfiguredEnv_def
        measuredLighthouse_def Let_def v)
qed

lemma analyzePage_empty_markup:
  assumes "html raw = []"
  shows "analyzePage env raw = Some (unreachableAnalysis raw)"
  using assms by (simp add: analyzePage_def unreachableAnalysis_def)

lemma processPage_empty_markup:
  assumes "\<not> truthy (error raw)" and "html raw = []"
  shows "processPage env inboundMap pid raw =
           Some (buildPage inboundMap pid raw (unreachableAnalysis raw))"
  using assms by (simp add: processPage_def analyzePage_empty_markup)

lemma scoreCategory_no_issue:
  assumes "filter (\<lambda>c. fst c = cat) (map issueCore iss) = []"
  shows "scoreCategory base iss cat extra = max 0 (min 100 (base - extra))"
  by (simp add: scoreCategory_penaltySum penaltySum_cores assms)

lemma empty_markup_cores:
  "map issueCore (issues (buildPage inboundMap pid raw (unreachableAnalysis raw))) =
     (Content, ''PAGE_UNREACHABLE'', Critical, ''Page could not be retrieved'') #
     orphanCores (case inboundMap (url raw) of None \<Rightarrow> 0 | Some n \<Rightarrow> n) (depth raw)"
  by (simp add: buildPage_analyzed(1) unreachableAnalysis_def issueCore_def createIssue_def)

lemma empty_markup_data:
  "seoData (buildPage inboundMap pid raw (unreachableAnalysis raw)) = None"
  "performanceData (buildPage inboundMap pid raw (unreachableAnalysis raw)) = None"
  "accessibilityData (buildPage inboundMap pid raw (unreachableAnalysis raw)) = None"
  "contentData (buildPage inboundMap pid raw (unreachableAnalysis raw)) = None"
  "designUxData (buildPage inboundMap pid raw (unreachableAnalysis raw)) = None"
  by (simp_all add: buildPage_def Let_def unreachableAnalysis_def applyContentGraphIssues_def)

lemma empty_markup_scores:
  fixes inboundMap pid raw
  defines "p \<equiv> buildPage inboundMap pid raw (unreachableAnalysis raw)"
  shows "seo (scores p) = 100"
    and "accessibility (scores p) = 100"
    and "uxDesign (scores p) = 100"
    and "performance (scores p) = 80"
proof -
  have none: "filter (\<lambda>c. fst c = cat) (map issueCore (issues p)) = []"
    if "cat \<noteq> Content" for cat
    using that unfolding p_def by (auto simp: empty_markup_cores orphanCores_def)
  note d = empty_markup_data [of inboundMap pid raw, folded p_def]
  have sc: "scores p = calculatePageScores p"
    unfolding p_def by (rule buildPage_scores)
  show "seo (scores p) = 100"
    by (simp add: sc calculatePageScores_def Let_def scoreCategory_no_issue [OF none]
        seoPenalty_def d)
  show "accessibility (scores p) = 100"
    by (simp add: sc calculatePageScores_def Let_def scoreCategory_no_issue [OF none]
        accessibilityPenalty_def d)
  show "uxDesign (scores p) = 100"
    by (simp add: sc calculatePageScores_def Let_def scoreCategory_no_issue [OF none]
        uxPenalty_def d)
  show "performance (scores p) = 80"
    by (simp add: sc calculatePageScores_def Let_def scorePerformance_def
        scoreCategory_no_issue [OF none] d)
qed

text \<open>
  Claim C10.  For a crawl result without fetch error and with empty markup,
  \<open>analyzePage\<close> returns the single critical content issue PAGE_UNREACHABLE and no
  snapshot, and the page record built from it is scored 100 in seo, accessibility and
  uxDesign and 80 in performance: it is not the zero-score record.
\<close>

theorem empty_markup_page:
  assumes "\<not> truthy (error raw)" and "html raw = []"
  shows "analyzePage env raw =
           Some \<lparr>ao_issues =
              [createIssue Content ''PAGE_UNREACHABLE'' Critical ''Page could not be retrieved''
                 (Some (url raw))],
            ao_seoData = None, ao_performanceData = None, ao_accessibilityData = None,
            ao_contentData = None, ao_designUxData = None\<rparr> \<and>
         (\<exists>p. processPage env inboundMap pid raw = Some p \<and>
            seoData p = None \<and> performanceData p = None \<and> accessibilityData p = None \<and>
            contentData p = None \<and> designUxData p = None \<and>
            seo (scores p) = 100 \<and> accessibility (scores p) = 100 \<and>
            uxDesign (scores p) = 100 \<and> performance (scores p) = 80 \<and>
            scores p \<noteq> zeroScores)"
proof -
  let ?p = "buildPage inboundMap pid raw (unreachableAnalysis raw)"
  have "seo (scores ?p) \<noteq> seo (zeroScores :: int Scores)"
    by (simp add: empty_markup_scores(1) zeroScores_def)
  then have nz: "scores ?p \<noteq> zeroScores"
    by auto
  have a: "analyzePage env raw =
           Some \<lparr>ao_issues =
              [createIssue Content ''PAGE_UNREACHABLE'' Critical ''Page could not be retrieved''
                 (Some (url raw))],
            ao_seoData = None, ao_performanceData = None, ao_accessibilityData = None,
            ao_contentData = None, ao_designUxData = None\<rparr>"
    using analyzePage_empty_markup [OF assms(2), of env] by (simp add: unreachableAnalysis_def)
  have "processPage env inboundMap pid raw = Some ?p \<and>
            seoData ?p = None \<and> performanceData ?p = None \<and> accessibilityData ?p = None \<and>
            contentData ?p = None \<and> designUxData ?p = None \<and>
            seo (scores ?p) = 100 \<and> accessibility (scores ?p) = 100 \<and>
            uxDesign (scores ?p) = 100 \<and> performance (scores ?p) = 80 \<and>
            scores ?p \<noteq> zeroScores"
    using nz
    by (simp add: processPage_empty_markup [OF assms] empty_markup_data empty_markup_scores)
  with a show ?thesis by blast
qed

text \<open>A PDF answer at depth 1: no error, no markup.\<close>

theorem empty_markup_page_witness:
  "map_option ao_issues (analyzePage unconfiguredEnv pdfResult) =
     Some [createIssue Content ''PAGE_UNREACHABLE'' Critical ''Page could not be retrieved''
        (Some ''http://site.test/menu.pdf'')] \<and>
   (\<exists>p. processPage unconfiguredEnv Map.empty ''p1'' pdfResult = Some p \<and>
      seo (scores p) = 100 \<and> accessibility (scores p) = 100 \<and>
      uxDesign (scores p) = 100 \<and> performance (scores p) = 80)"
proof -
  have r: "\<not> truthy (error pdfResult)" "html pdfResult = []"
    by (simp_all add: pdfResult_def)
  have u: "url pdfResult = ''http://site.test/menu.pdf''"
    by (simp add: pdfResult_def)
  from empty_markup_page
      [OF r, where env = unconfiguredEnv and inboundMap = Map.empty and pid = "''p1''"]
  have "analyzePage unconfiguredEnv pdfResult =
           Some \<lparr>ao_issues =
              [createIssue Content ''PAGE_UNREACHABLE'' Critical ''Page could not be retrieved''
                 (Some ''http://site.test/menu.pdf'')],
            ao_seoData = None, ao_performanceData = None, ao_accessibilityData = None,
            ao_contentData = None, ao_designUxData = None\<rparr>"
    and "\<exists>p. processPage unconfiguredEnv Map.empty ''p1'' pdfResult = Some p \<and>
      seo (scores p) = 100 \<and> accessibility (scores p) = 100 \<and>
      uxDesign (scores p) = 100 \<and> performance (scores p) = 80"
    unfolding u by blast+
  then show ?thesis by simp
qed


section \<open>Properties of the crawler\<close>

lemma scanAnchor_cases:
  "scanAnchor env domain maxDepth visited currentUrl d (il, el, q) href =
     (case resolveAnchor env currentUrl href of
        None \<Rightarrow> (il, el, q)
      | Some (a, h) \<Rightarrow>
          if h = domain then
            (il @ [a], el,
             if int d < maxDepth \<and> a \<notin> visited \<and> a \<notin> set (map q_url q)
             then q @ [\<lparr>q_url = a, q_depth = d + 1\<rparr>] else q)
          else (il, el @ [a], q))"
  by (auto simp: scanAnchor_def Let_def list_ex_iff split: option.splits)

lemma scan_internal:
  "fst (foldl (scanAnchor env domain maxDepth visited currentUrl d) (il, el, q) hs) =
     il @ map fst (filter (\<lambda>(a, h). h = domain)
                     (List.map_filter (resolveAnchor env currentUrl) hs))"
proof (induction hs arbitrary: il el q)
  case Nil
  show ?case by (simp add: List.map_filter_simps)
next
  case (Cons x hs)
  show ?case
    by (cases "resolveAnchor env currentUrl x")
       (auto simp: scanAnchor_cases Cons.IH List.map_filter_simps)
qed

lemma scan_external:
  "fst (snd (foldl (scanAnchor env domain maxDepth visited currentUrl d) (il, el, q) hs)) =
     el @ map fst (filter (\<lambda>(a, h). h \<noteq> domain)
                     (List.map_filter (resolveAnchor env currentUrl) hs))"
proof (induction hs arbitrary: il el q)
  case Nil
  show ?case by (simp add: List.map_filter_simps)
next
  case (Cons x hs)
  show ?case
    by (cases "resolveAnchor env currentUrl x")
       (auto simp: scanAnchor_cases Cons.IH List.map_filter_simps)
qed

lemma scan_queue_closed:
  assumes "\<not> int d < maxDepth"
  shows "snd (snd (foldl (scanAnchor env domain maxDepth visited currentUrl d) (il, el, q) hs)) = q"
  using assms
proof (induction hs arbitrary: il el q)
  case Nil
  show ?case by simp
next
  case (Cons x hs)
  then show ?case
    by (cases "resolveAnchor env currentUrl x") (auto simp: scanAnchor_cases)
qed

lemma scan_queue_new:
  "\<exists>new. snd (snd (foldl (scanAnchor env domain maxDepth visited currentUrl d) (il, el, q) hs))
            = q @ new \<and>
         (\<forall>item \<in> set new.
            q_depth item = d + 1 \<and> int d < maxDepth \<and> q_url item \<notin> visited \<and>
            q_url item \<in> set (fst (foldl (scanAnchor env domain maxDepth visited currentUrl d)
                                      (il, el, q) hs)))"
proof (induction hs arbitrary: il el q)
  case Nil
  show ?case by simp
next
  case (Cons x hs)
  obtain il' el' q' where st: "scanAnchor env domain maxDepth visited currentUrl d (il, el, q) x
      = (il', el', q')"
    by (cases "scanAnchor env domain maxDepth visited currentUrl d (il, el, q) x") auto
  let ?final = "foldl (scanAnchor env domain maxDepth visited currentUrl d) (il', el', q') hs"
  from Cons.IH [of il' el' q'] obtain new where
    new: "snd (snd ?final) = q' @ new"
      "\<forall>item \<in> set new. q_depth item = d + 1 \<and> int d < maxDepth \<and> q_url item \<notin> visited \<and>
         q_url item \<in> set (fst ?final)"
    by blast
  have pre: "set il' \<subseteq> set (fst ?final)"
    by (simp add: scan_internal)
  from st have "\<exists>first. q' = q @ first \<and>
      (\<forall>item \<in> set first. q_depth item = d + 1 \<and> int d < maxDepth \<and> q_url item \<notin> visited \<and>
         q_url item \<in> set il')"
    by (cases "resolveAnchor env currentUrl x")
       (auto simp: scanAnchor_cases split: if_splits)
  then obtain first where first: "q' = q @ first"
      "\<forall>item \<in> set first. q_depth item = d + 1 \<and> int d < maxDepth \<and> q_url item \<notin> visited \<and>
         q_url item \<in> set il'"
    by blast
  have "snd (snd ?final) = q @ (first @ new)"
    using new(1) first(1) by simp
  moreover have "\<forall>item \<in> set (first @ new).
      q_depth item = d + 1 \<and> int d < maxDepth \<and> q_url item \<notin> visited \<and>
      q_url item \<in> set (fst ?final)"
    using new(2) first(2) pre by auto
  ultimately show ?case
    unfolding foldl_Cons st by blast
qed

lemma scan_queue_distinct:
  assumes "distinct (map q_url q)"
  shows "distinct (map q_url
           (snd (snd (foldl (scanAnchor env domain maxDepth visited currentUrl d) (il, el, q) hs))))"
  using assms
proof (induction hs arbitrary: il el q)
  case Nil
  then show ?case by simp
next
  case (Cons x hs)
  then show ?case
    by (cases "resolveAnchor env currentUrl x") (auto simp: scanAnchor_cases)
qed

lemma visitPage_threw:
  assumes "fetch env (q_url next) = FetchThrew msg"
  shows "visitPage env domain maxDepth visited next queue =
           (\<lparr>url = q_url next, statusCode = 0, html = [], depth = q_depth next,
             internalLinks = [], externalLinks = [], error = Some msg\<rparr>, queue)"
  using assms by (simp add: visitPage_def)

lemma visitPage_not_html:
  assumes "fetch env (q_url next) = FetchResponse response" and "\<not> isHtmlResponse response"
  shows "visitPage env domain maxDepth visited next queue =
           (\<lparr>url = q_url next, statusCode = resp_status response, html = [],
             depth = q_depth next, internalLinks = [], externalLinks = [], error = None\<rparr>,
            queue)"
  using assms
  by (auto simp: visitPage_def isHtmlResponse_def Let_def split: ResponseData.splits)

lemma visitPage_fields:
  "url (fst (visitPage env domain maxDepth visited next queue)) = q_url next"
  "depth (fst (visitPage env domain maxDepth visited next queue)) = q_depth next"
  by (simp_all add: visitPage_def Let_def split: FetchOutcome.splits)

lemma visitPage_queue_closed:
  assumes "\<not> int (q_depth next) < maxDepth"
  shows "snd (visitPage env domain maxDepth visited next queue) = queue"
  using assms
  by (simp add: visitPage_def Let_def scan_queue_closed split: FetchOutcome.splits)

lemma visitPage_queue_new:
  "\<exists>new. snd (visitPage env domain maxDepth visited next queue) = queue @ new \<and>
         (\<forall>item \<in> set new.
            q_depth item = q_depth next + 1 \<and> int (q_depth next) < maxDepth \<and>
            q_url item \<notin> visited \<and>
            q_url item \<in> set (internalLinks (fst (visitPage env domain maxDepth visited next queue))))"
proof (cases "fetch env (q_url next)")
  case (FetchThrew msg)
  then show ?thesis by (simp add: visitPage_threw)
next
  case (FetchResponse response)
  show ?thesis
    using scan_queue_new [of env domain maxDepth visited "q_url next" "q_depth next" "[]" "[]" queue]
    by (simp add: visitPage_def Let_def FetchResponse)
qed

lemma visitPage_queue_distinct:
  assumes "distinct (map q_url queue)"
  shows "distinct (map q_url (snd (visitPage env domain maxDepth visited next queue)))"
  using assms
  by (simp add: visitPage_def Let_def scan_queue_distinct split: FetchOutcome.splits)

lemma crawl_loop_empty:
  "crawl_loop env domain maxPages maxDepth [] visited results = results"
  by (simp add: crawl_loop.simps)

lemma crawl_loop_full:
  assumes "\<not> int (length results) < maxPages"
  shows "crawl_loop env domain maxPages maxDepth queue visited results = results"
  using assms by (simp add: crawl_loop.simps split: list.splits)

lemma crawl_loop_seen:
  assumes "int (length results) < maxPages" and "q_url next \<in> visited"
  shows "crawl_loop env domain maxPages maxDepth (next # rest) visited results =
           crawl_loop env domain maxPages maxDepth rest visited results"
  using assms by (subst crawl_loop.simps) simp

lemma crawl_loop_visit:
  assumes "int (length results) < maxPages" and "q_url next \<notin> visited"
  shows "crawl_loop env domain maxPages maxDepth (next # rest) visited results =
           crawl_loop env domain maxPages maxDepth
             (snd (visitPage env domain maxDepth (insert (q_url next) visited) next rest))
             (insert (q_url next) visited)
             (results @ [fst (visitPage env domain maxDepth (insert (q_url next) visited) next rest)])"
  using assms by (subst crawl_loop.simps) (simp add: Let_def)

lemma crawl_loop_extends:
  "\<exists>more. crawl_loop env domain maxPages maxDepth queue visited results = results @ more"
proof (induction env domain maxPages maxDepth queue visited results rule: crawl_loop.induct)
  case (1 env domain maxPages maxDepth queue visited results)
  show ?case
  proof (cases queue)
    case Nil
    then show ?thesis by (simp add: crawl_loop_empty)
  next
    case (Cons nxt rest)
    show ?thesis
    proof (cases "int (length results) < maxPages")
      case False
      then show ?thesis by (simp add: crawl_loop_full)
    next
      case room: True
      show ?thesis
      proof (cases "q_url nxt \<in> visited")
        case True
        with "1.IH"(1) [OF Cons _ True] room show ?thesis
          by (simp add: Cons crawl_loop_seen)
      next
        case False
        from "1.IH"(2) [OF Cons _ False refl refl] room
        obtain more where
          "crawl_loop env domain maxPages maxDepth
             (snd (visitPage env domain maxDepth (insert (q_url nxt) visited) nxt rest))
             (insert (q_url nxt) visited)
             (results @ [fst (visitPage env domain maxDepth (insert (q_url nxt) visited) nxt rest)])
           = (results @ [fst (visitPage env domain maxDepth (insert (q_url nxt) visited) nxt rest)])
             @ more"
          by auto
        then show ?thesis
          by (simp add: Cons crawl_loop_visit [OF room False])
      qed
    qed
  qed
qed

lemma discovered_mono:
  assumes "discovered startUrl maxDepth rs u d" and "set rs \<subseteq> set rs'"
  shows "discovered startUrl maxDepth rs' u d"
  using assms by (auto simp: discovered_def list_ex_iff)

lemma discovered_bound:
  assumes "discovered startUrl maxDepth rs u d"
  shows "d = 0 \<or> int d \<le> maxDepth" and "u \<noteq> startUrl \<Longrightarrow> int d \<le> maxDepth"
  using assms by (auto simp: discovered_def list_ex_iff)

lemma crawl_loop_discovered:
  assumes "\<forall>item \<in> set queue. discovered startUrl maxDepth results (q_url item) (q_depth item)"
    and "\<forall>r \<in> set results. discovered startUrl maxDepth results (url r) (depth r)"
  shows "\<forall>r \<in> set (crawl_loop env domain maxPages maxDepth queue visited results).
           discovered startUrl maxDepth
             (crawl_loop env domain maxPages maxDepth queue visited results) (url r) (depth r)"
  using assms
proof (induction env domain maxPages maxDepth queue visited results rule: crawl_loop.induct)
  case (1 env domain maxPages maxDepth queue visited results)
  show ?case
  proof (cases queue)
    case Nil
    with "1.prems"(2) show ?thesis by (simp add: crawl_loop_empty)
  next
    case (Cons nxt rest)
    show ?thesis
    proof (cases "int (length results) < maxPages")
      case False
      with "1.prems"(2) show ?thesis by (simp add: crawl_loop_full)
    next
      case room: True
      show ?thesis
      proof (cases "q_url nxt \<in> visited")
        case True
        have "\<forall>item \<in> set rest. discovered startUrl maxDepth results (q_url item) (q_depth item)"
          using "1.prems"(1) Cons by simp
        from "1.IH"(1) [OF Cons _ True this "1.prems"(2)] room show ?thesis
          by (simp add: Cons crawl_loop_seen [OF room True])
      next
        case False
        let ?step = "visitPage env domain maxDepth (insert (q_url nxt) visited) nxt rest"
        let ?results = "results @ [fst ?step]"
        obtain new where new: "snd ?step = rest @ new"
          "\<forall>item \<in> set new.
             q_depth item = q_depth nxt + 1 \<and> int (q_depth nxt) < maxDepth \<and>
             q_url item \<notin> insert (q_url nxt) visited \<and>
             q_url item \<in> set (internalLinks (fst ?step))"
          using visitPage_queue_new [of env domain maxDepth "insert (q_url nxt) visited" nxt rest]
          by blast
        have old: "discovered startUrl maxDepth ?results u d"
          if "discovered startUrl maxDepth results u d" for u d
          using that by (rule discovered_mono) auto
        have page: "discovered startUrl maxDepth ?results (url (fst ?step)) (depth (fst ?step))"
          using "1.prems"(1) Cons by (simp add: visitPage_fields old)
        have fresh: "discovered startUrl maxDepth ?results (q_url item) (q_depth item)"
          if "item \<in> set new" for item
          using new(2) that
          by (auto simp: discovered_def list_ex_iff visitPage_fields)
        have q: "\<forall>item \<in> set (snd ?step).
                   discovered startUrl maxDepth ?results (q_url item) (q_depth item)"
          using "1.prems"(1) Cons fresh old by (auto simp: new(1))
        have r: "\<forall>r \<in> set ?results. discovered startUrl maxDepth ?results (url r) (depth r)"
          using "1.prems"(2) page old by auto
        from "1.IH"(2) [OF Cons _ False refl refl q r] room show ?thesis
          by (simp add: Cons crawl_loop_visit [OF room False])
      qed
    qed
  qed
qed

lemma crawlSite_loop:
  "crawlSite env startUrl options =
     (case hostname env startUrl of
        None \<Rightarrow> []
      | Some domain \<Rightarrow>
          crawl_loop env domain (effectiveMaxPages options) (effectiveMaxDepth options)
            [\<lparr>q_url = startUrl, q_depth = 0\<rparr>] {} [])"
  by (simp add: crawlSite_def effectiveMaxPages_def effectiveMaxDepth_def DEFAULT_OPTIONS_def
      split: option.splits)

lemma crawlSite_discovered:
  "\<forall>r \<in> set (crawlSite env startUrl options).
     discovered startUrl (effectiveMaxDepth options) (crawlSite env startUrl options)
       (url r) (depth r)"
proof (cases "hostname env startUrl")
  case None
  then show ?thesis by (simp add: crawlSite_loop)
next
  case (Some domain)
  have "\<forall>item \<in> set [\<lparr>q_url = startUrl, q_depth = 0\<rparr>].
          discovered startUrl (effectiveMaxDepth options) [] (q_url item) (q_depth item)"
    by (simp add: discovered_def)
  from crawl_loop_discovered [OF this, of env domain "effectiveMaxPages options" "{}"]
  show ?thesis by (simp add: crawlSite_loop Some)
qed

text \<open>
  Claim C7.  In every crawl, each result is either the seed at depth 0 or has a parent
  among the results that links to it, lies exactly one level above it and lies strictly
  below the depth limit; a page whose depth is not strictly below maxDepth leaves the
  queue as it found it, so links are enqueued only from pages strictly below the limit.
  Consequently every result other than the seed has a depth of at most maxDepth, and so
  has the seed, which is fetched at depth 0 whatever the limit, whenever maxDepth is not
  negative, as it is by default (2) and in the call of the orchestrator (2): no result
  has a depth greater than maxDepth.
\<close>

theorem crawl_depth_policy:
  "(\<forall>r \<in> set (crawlSite env startUrl options).
      ((url r = startUrl \<and> depth r = 0) \<or>
       (\<exists>p \<in> set (crawlSite env startUrl options).
          url r \<in> set (internalLinks p) \<and> depth r = depth p + 1 \<and>
          int (depth p) < effectiveMaxDepth options)) \<and>
      (url r \<noteq> startUrl \<longrightarrow> int (depth r) \<le> effectiveMaxDepth options) \<and>
      (0 \<le> effectiveMaxDepth options \<longrightarrow> int (depth r) \<le> effectiveMaxDepth options)) \<and>
   (\<not> int (q_depth next) < maxDepth \<longrightarrow>
      snd (visitPage env domain maxDepth visited next queue) = queue)"
proof -
  have "(url r = startUrl \<and> depth r = 0) \<or>
       (\<exists>p \<in> set (crawlSite env startUrl options).
          url r \<in> set (internalLinks p) \<and> depth r = depth p + 1 \<and>
          int (depth p) < effectiveMaxDepth options)"
    and "url r \<noteq> startUrl \<longrightarrow> int (depth r) \<le> effectiveMaxDepth options"
    and "0 \<le> effectiveMaxDepth options \<longrightarrow> int (depth r) \<le> effectiveMaxDepth options"
    if "r \<in> set (crawlSite env startUrl options)" for r
  proof -
    from crawlSite_discovered that
    have d: "discovered startUrl (effectiveMaxDepth options) (crawlSite env startUrl options)
               (url r) (depth r)"
      by blast
    then show "(url r = startUrl \<and> depth r = 0) \<or>
       (\<exists>p \<in> set (crawlSite env startUrl options).
          url r \<in> set (internalLinks p) \<and> depth r = depth p + 1 \<and>
          int (depth p) < effectiveMaxDepth options)"
      by (simp add: discovered_def list_ex_iff)
    from discovered_bound [OF d]
    show "url r \<noteq> startUrl \<longrightarrow> int (depth r) \<le> effectiveMaxDepth options"
      and "0 \<le> effectiveMaxDepth options \<longrightarrow> int (depth r) \<le> effectiveMaxDepth options"
      by auto
  qed
  then show ?thesis
    by (simp add: visitPage_queue_closed)
qed

lemma exampleCrawl_eq:
  "crawlSite exampleWeb ''http://site.test/'' defaultOptions = exampleCrawl"
  by code_simp

text \<open>
  The example site with the default limits: the seed and the page it links to lie within
  the limit, and a page at the depth ceiling enqueues nothing.
\<close>

theorem crawl_depth_policy_witness:
  "int (depth (crawlSite exampleWeb ''http://site.test/'' defaultOptions ! 0))
     \<le> effectiveMaxDepth defaultOptions \<and>
   int (depth (crawlSite exampleWeb ''http://site.test/'' defaultOptions ! 1))
     \<le> effectiveMaxDepth defaultOptions \<and>
   url (crawlSite exampleWeb ''http://site.test/'' defaultOptions ! 1) \<noteq> ''http://site.test/'' \<and>
   0 \<le> effectiveMaxDepth defaultOptions \<and>
   \<not> int (q_depth \<lparr>q_url = ''http://site.test/'', q_depth = 2\<rparr>) < 2 \<and>
   snd (visitPage exampleWeb ''site.test'' 2 {''http://site.test/''}
          \<lparr>q_url = ''http://site.test/'', q_depth = 2\<rparr> []) = []"
proof -
  let ?R = "crawlSite exampleWeb ''http://site.test/'' defaultOptions"
  have m: "?R ! 1 \<in> set ?R" and m0: "?R ! 0 \<in> set ?R"
    by (simp_all add: exampleCrawl_eq exampleCrawl_def)
  have u: "url (?R ! 1) \<noteq> ''http://site.test/''"
    by (simp add: exampleCrawl_eq exampleCrawl_def)
  have d: "0 \<le> effectiveMaxDepth defaultOptions"
    by (simp add: effectiveMaxDepth_def defaultOptions_def)
  have c: "\<not> int (q_depth \<lparr>q_url = ''http://site.test/'', q_depth = 2\<rparr>) < 2"
    by simp
  from crawl_depth_policy [of exampleWeb "''http://site.test/''" defaultOptions
      "\<lparr>q_url = ''http://site.test/'', q_depth = 2\<rparr>" 2 "''site.test''"
      "{''http://site.test/''}" "[]"]
  have all: "\<forall>r \<in> set ?R. url r \<noteq> ''http://site.test/'' \<longrightarrow>
               int (depth r) \<le> effectiveMaxDepth defaultOptions"
    and every: "\<forall>r \<in> set ?R. 0 \<le> effectiveMaxDepth defaultOptions \<longrightarrow>
               int (depth r) \<le> effectiveMaxDepth defaultOptions"
    and closed: "\<not> int (q_depth \<lparr>q_url = ''http://site.test/'', q_depth = 2\<rparr>) < 2 \<longrightarrow>
      snd (visitPage exampleWeb ''site.test'' 2 {''http://site.test/''}
             \<lparr>q_url = ''http://site.test/'', q_depth = 2\<rparr> []) = []"
    by blast+
  from all m u have "int (depth (?R ! 1)) \<le> effectiveMaxDepth defaultOptions"
    by blast
  moreover from every m0 d have "int (depth (?R ! 0)) \<le> effectiveMaxDepth defaultOptions"
    by blast
  ultimately show ?thesis
    using u d c closed by blast
qed

lemma crawl_loop_all:
  assumes "\<And>visited next queue. P (fst (visitPage env domain maxDepth visited next queue))"
    and "\<forall>r \<in> set results. P r"
  shows "\<forall>r \<in> set (crawl_loop env domain maxPages maxDepth queue visited results). P r"
  using assms
proof (induction env domain maxPages maxDepth queue visited results rule: crawl_loop.induct)
  case (1 env domain maxPages maxDepth queue visited results)
  show ?case
  proof (cases queue)
    case Nil
    with "1.prems"(2) show ?thesis by (simp add: crawl_loop_empty)
  next
    case (Cons nxt rest)
    show ?thesis
    proof (cases "int (length results) < maxPages")
      case False
      with "1.prems"(2) show ?thesis by (simp add: crawl_loop_full)
    next
      case room: True
      show ?thesis
      proof (cases "q_url nxt \<in> visited")
        case True
        from "1.IH"(1) [OF Cons _ True "1.prems"] room show ?thesis
          by (simp add: Cons crawl_loop_seen [OF room True])
      next
        case False
        have "\<forall>r \<in> set (results @
                 [fst (visitPage env domain maxDepth (insert (q_url nxt) visited) nxt rest)]). P r"
          using "1.prems" by auto
        from "1.IH"(2) [OF Cons _ False refl refl "1.prems"(1) this] room show ?thesis
          by (simp add: Cons crawl_loop_visit [OF room False])
      qed
    qed
  qed
qed

lemma visitPage_records:
  "recordsFetch env (fst (visitPage env domain maxDepth visited next queue))"
  by (cases "fetch env (q_url next)")
     (auto simp: recordsFetch_def visitPage_def Let_def isHtmlResponse_def
        split: ResponseData.splits)

lemma visitPage_links:
  "linksFollowAnchors env domain (fst (visitPage env domain maxDepth visited next queue))"
  by (cases "fetch env (q_url next)")
     (auto simp: linksFollowAnchors_def visitPage_def Let_def scan_internal scan_external
        usableLinks_def)

lemma crawlSite_all:
  assumes "\<And>domain maxDepth visited next queue.
      hostname env startUrl = Some domain \<Longrightarrow>
      P (fst (visitPage env domain maxDepth visited next queue))"
  shows "\<forall>r \<in> set (crawlSite env startUrl options). P r"
proof (cases "hostname env startUrl")
  case None
  then show ?thesis by (simp add: crawlSite_loop)
next
  case (Some domain)
  have "\<forall>r \<in> set ([] :: PageResult list). P r" by simp
  from crawl_loop_all [where P = P, OF assms [OF Some] this]
  show ?thesis by (simp add: crawlSite_loop Some)
qed

lemma crawlSite_records:
  "\<forall>r \<in> set (crawlSite env startUrl options). recordsFetch env r"
  by (rule crawlSite_all) (rule visitPage_records)

lemma crawlSite_links:
  assumes "hostname env startUrl = Some domain"
  shows "\<forall>r \<in> set (crawlSite env startUrl options). linksFollowAnchors env domain r"
proof (rule crawlSite_all)
  fix d maxDepth visited "next" queue
  assume "hostname env startUrl = Some d"
  with assms have "d = domain" by simp
  then show "linksFollowAnchors env domain (fst (visitPage env d maxDepth visited next queue))"
    by (simp add: visitPage_links)
qed

text \<open>
  Claim C4, as the code has it.  Every result of a crawl records the fetch of its URL:
  when the request throws, the result has empty markup, status code 0 and the error
  message; when there is a response, the result has the observed status code and NO
  error, and it has empty markup and no links when the response carries no markup (its
  content type is not HTML or its body is not a string).  Neither failure stops the
  crawl: whenever the loop fetches a URL (there is room for a result and the URL was not
  visited) and the fetch fails in one of these two ways, the loop goes on with the rest
  of the queue after recording the result, which is part of what the crawl returns.
\<close>

theorem fetch_failure_recorded:
  assumes "int (length results) < maxPages" and "q_url next \<notin> visited"
  shows "(\<forall>r \<in> set (crawlSite env startUrl options). recordsFetch env r) \<and>
         (fetch env (q_url next) = FetchThrew msg \<longrightarrow>
            crawl_loop env domain maxPages maxDepth (next # rest) visited results =
              crawl_loop env domain maxPages maxDepth rest (insert (q_url next) visited)
                (results @ [\<lparr>url = q_url next, statusCode = 0, html = [], depth = q_depth next,
                              internalLinks = [], externalLinks = [], error = Some msg\<rparr>]) \<and>
            take (length results + 1)
                (crawl_loop env domain maxPages maxDepth (next # rest) visited results) =
              results @ [\<lparr>url = q_url next, statusCode = 0, html = [], depth = q_depth next,
                            internalLinks = [], externalLinks = [], error = Some msg\<rparr>]) \<and>
         (fetch env (q_url next) = FetchResponse response \<and> \<not> isHtmlResponse response \<longrightarrow>
            crawl_loop env domain maxPages maxDepth (next # rest) visited results =
              crawl_loop env domain maxPages maxDepth rest (insert (q_url next) visited)
                (results @ [\<lparr>url = q_url next, statusCode = resp_status response, html = [],
                              depth = q_depth next, internalLinks = [], externalLinks = [],
                              error = None\<rparr>]) \<and>
            take (length results + 1)
                (crawl_loop env domain maxPages maxDepth (next # rest) visited results) =
              results @ [\<lparr>url = q_url next, statusCode = resp_status response, html = [],
                            depth = q_depth next, internalLinks = [], externalLinks = [],
                            error = None\<rparr>])"
proof -
  have keep: "take (Suc (length results))
      (crawl_loop env domain maxPages maxDepth q v (results @ [r])) = results @ [r]" for q v r
    using crawl_loop_extends [of env domain maxPages maxDepth q v "results @ [r]"] by auto
  have steps: "(fetch env (q_url next) = FetchThrew msg \<longrightarrow>
            crawl_loop env domain maxPages maxDepth (next # rest) visited results =
              crawl_loop env domain maxPages maxDepth rest (insert (q_url next) visited)
                (results @ [\<lparr>url = q_url next, statusCode = 0, html = [], depth = q_depth next,
                              internalLinks = [], externalLinks = [], error = Some msg\<rparr>]) \<and>
            take (length results + 1)
                (crawl_loop env domain maxPages maxDepth (next # rest) visited results) =
              results @ [\<lparr>url = q_url next, statusCode = 0, html = [], depth = q_depth next,
                            internalLinks = [], externalLinks = [], error = Some msg\<rparr>]) \<and>
         (fetch env (q_url next) = FetchResponse response \<and> \<not> isHtmlResponse response \<longrightarrow>
            crawl_loop env domain maxPages maxDepth (next # rest) visited results =
              crawl_loop env domain maxPages maxDepth rest (insert (q_url next) visited)
                (results @ [\<lparr>url = q_url next, statusCode = resp_status response, html = [],
                              depth = q_depth next, internalLinks = [], externalLinks = [],
                              error = None\<rparr>]) \<and>
            take (length results + 1)
                (crawl_loop env domain maxPages maxDepth (next # rest) visited results) =
              results @ [\<lparr>url = q_url next, statusCode = resp_status response, html = [],
                            depth = q_depth next, internalLinks = [], externalLinks = [],
                            error = None\<rparr>])"
    by (auto simp: crawl_loop_visit [OF assms] visitPage_threw visitPage_not_html keep)
  from crawlSite_records steps show ?thesis by blast
qed

text \<open>The PDF and the unreachable page of the example site, fetched on their own.\<close>

theorem fetch_failure_recorded_witness:
  "crawl_loop exampleWeb ''site.test'' 20 2
     [\<lparr>q_url = ''http://site.test/menu.pdf'', q_depth = 1\<rparr>] {} [] =
     [\<lparr>url = ''http://site.test/menu.pdf'', statusCode = 200, html = [], depth = 1,
       internalLinks = [], externalLinks = [], error = None\<rparr>] \<and>
   crawl_loop exampleWeb ''site.test'' 20 2
     [\<lparr>q_url = ''http://site.test/b'', q_depth = 1\<rparr>] {} [] =
     [\<lparr>url = ''http://site.test/b'', statusCode = 0, html = [], depth = 1,
       internalLinks = [], externalLinks = [], error = Some ''connect ECONNREFUSED''\<rparr>] \<and>
   recordsFetch exampleWeb (crawlSite exampleWeb ''http://site.test/'' defaultOptions ! 2)"
proof -
  let ?R = "crawlSite exampleWeb ''http://site.test/'' defaultOptions"
  have room: "int (length ([] :: PageResult list)) < 20" by simp
  have pdf: "fetch exampleWeb (q_url \<lparr>q_url = ''http://site.test/menu.pdf'', q_depth = 1\<rparr>) =
      FetchResponse \<lparr>resp_status = 200, resp_contentType = Some ''application/pdf'',
                      resp_data = StringData ''%PDF-1.4''\<rparr>"
    by (simp add: exampleWeb_def)
  have nohtml: "\<not> isHtmlResponse \<lparr>resp_status = 200, resp_contentType = Some ''application/pdf'',
                      resp_data = StringData ''%PDF-1.4''\<rparr>"
    by (simp add: isHtmlResponse_def)
  have b: "fetch exampleWeb (q_url \<lparr>q_url = ''http://site.test/b'', q_depth = 1\<rparr>) =
      FetchThrew ''connect ECONNREFUSED''"
    by (simp add: exampleWeb_def)
  have fresh: "q_url \<lparr>q_url = ''http://site.test/menu.pdf'', q_depth = 1\<rparr> \<notin> {}"
    "q_url \<lparr>q_url = ''http://site.test/b'', q_depth = 1\<rparr> \<notin> {}"
    by simp_all
  have m: "?R ! 2 \<in> set ?R"
    unfolding exampleCrawl_eq by (simp add: exampleCrawl_def)
  note pdf_case = fetch_failure_recorded
    [OF room fresh(1), where env = exampleWeb and domain = "''site.test''" and maxDepth = 2
       and rest = "[]" and startUrl = "''http://site.test/''" and options = defaultOptions
       and response = "\<lparr>resp_status = 200,
         resp_contentType = Some ''application/pdf'', resp_data = StringData ''%PDF-1.4''\<rparr>"]
  from pdf_case pdf nohtml
  have one: "crawl_loop exampleWeb ''site.test'' 20 2
     [\<lparr>q_url = ''http://site.test/menu.pdf'', q_depth = 1\<rparr>] {} [] =
     [\<lparr>url = ''http://site.test/menu.pdf'', statusCode = 200, html = [], depth = 1,
       internalLinks = [], externalLinks = [], error = None\<rparr>]"
    by (simp add: crawl_loop_empty)
  from pdf_case m have three: "recordsFetch exampleWeb (?R ! 2)"
    by blast
  from fetch_failure_recorded
    [OF room fresh(2), where env = exampleWeb and domain = "''site.test''" and maxDepth = 2
       and rest = "[]" and msg = "''connect ECONNREFUSED''"] b
  have two: "crawl_loop exampleWeb ''site.test'' 20 2
     [\<lparr>q_url = ''http://site.test/b'', q_depth = 1\<rparr>] {} [] =
     [\<lparr>url = ''http://site.test/b'', statusCode = 0, html = [], depth = 1,
       internalLinks = [], externalLinks = [], error = Some ''connect ECONNREFUSED''\<rparr>]"
    by (simp add: crawl_loop_empty)
  from one two three show ?thesis by blast
qed

text \<open>
  Claim C4 as stated fails for a non-HTML answer: the example crawl records the PDF
  without an error.
\<close>

theorem non_html_without_error_counterexample:
  "fetch exampleWeb (url (crawlSite exampleWeb ''http://site.test/'' defaultOptions ! 1)) =
     FetchResponse \<lparr>resp_status = 200, resp_contentType = Some ''application/pdf'',
                     resp_data = StringData ''%PDF-1.4''\<rparr> \<and>
   error (crawlSite exampleWeb ''http://site.test/'' defaultOptions ! 1) = None"
  unfolding exampleCrawl_eq by (simp add: exampleCrawl_def exampleWeb_def)

text \<open>
  Claim C5, as the code has it.  In every crawl result with markup and a status in
  [200,400), internalLinks lists the absolute URL of every usable anchor on the crawl's
  host and externalLinks that of every usable anchor on another host, in document order
  and once per anchor, so that a URL linked twice is listed twice.  It is the work queue
  that stays free of duplicates when a page is scanned.
\<close>

theorem link_lists_follow_anchors:
  assumes "hostname env startUrl = Some domain"
  shows "(\<forall>r \<in> set (crawlSite env startUrl options).
            html r \<noteq> [] \<and> 200 \<le> statusCode r \<and> statusCode r < 400 \<longrightarrow>
            internalLinks r =
              map fst (filter (\<lambda>(a, h). h = domain) (usableLinks env (url r) (html r))) \<and>
            externalLinks r =
              map fst (filter (\<lambda>(a, h). h \<noteq> domain) (usableLinks env (url r) (html r)))) \<and>
         (distinct (map q_url queue) \<longrightarrow>
            distinct (map q_url (snd (visitPage env domain maxDepth visited item queue))))"
proof -
  have "internalLinks r =
              map fst (filter (\<lambda>(a, h). h = domain) (usableLinks env (url r) (html r))) \<and>
        externalLinks r =
              map fst (filter (\<lambda>(a, h). h \<noteq> domain) (usableLinks env (url r) (html r)))"
    if "r \<in> set (crawlSite env startUrl options)"
      and "html r \<noteq> [] \<and> 200 \<le> statusCode r \<and> statusCode r < 400" for r
    using crawlSite_links [OF assms, of options] that
    by (auto simp: linksFollowAnchors_def)
  then show ?thesis
    by (simp add: visitPage_queue_distinct)
qed

text \<open>The seed of the example site.\<close>

theorem link_lists_follow_anchors_witness:
  "internalLinks (hd (crawlSite exampleWeb ''http://site.test/'' defaultOptions)) =
     [''http://site.test/menu.pdf'', ''http://site.test/menu.pdf'', ''http://site.test/b''] \<and>
   externalLinks (hd (crawlSite exampleWeb ''http://site.test/'' defaultOptions)) =
     [''http://other.test/''] \<and>
   distinct (map q_url (snd (visitPage exampleWeb ''site.test'' 2 {''http://site.test/''}
      \<lparr>q_url = ''http://site.test/'', q_depth = 0\<rparr> [])))"
proof -
  let ?R = "crawlSite exampleWeb ''http://site.test/'' defaultOptions"
  have h: "hostname exampleWeb ''http://site.test/'' = Some ''site.test''"
    by (simp add: exampleWeb_def)
  have m: "hd ?R \<in> set ?R"
    unfolding exampleCrawl_eq by (simp add: exampleCrawl_def)
  have page: "html (hd ?R) \<noteq> [] \<and> 200 \<le> statusCode (hd ?R) \<and> statusCode (hd ?R) < 400"
    unfolding exampleCrawl_eq by (simp add: exampleCrawl_def seedMarkup_def)
  have u: "url (hd ?R) = ''http://site.test/''" "html (hd ?R) = seedMarkup"
    unfolding exampleCrawl_eq by (simp_all add: exampleCrawl_def)
  have links: "usableLinks exampleWeb ''http://site.test/'' seedMarkup =
      [(''http://site.test/menu.pdf'', ''site.test''), (''http://site.test/menu.pdf'', ''site.test''),
       (''http://site.test/b'', ''site.test''), (''http://other.test/'', ''other.test'')]"
    by code_simp
  note inst = link_lists_follow_anchors [OF h, where options = defaultOptions and maxDepth = 2
      and visited = "{''http://site.test/''}" and queue = "[]"
      and item = "\<lparr>q_url = ''http://site.test/'', q_depth = 0\<rparr>"]
  from inst m page have
    "internalLinks (hd ?R) =
       map fst (filter (\<lambda>(a, h). h = ''site.test'') (usableLinks exampleWeb (url (hd ?R)) (html (hd ?R))))"
    "externalLinks (hd ?R) =
       map fst (filter (\<lambda>(a, h). h \<noteq> ''site.test'') (usableLinks exampleWeb (url (hd ?R)) (html (hd ?R))))"
    by blast+
  moreover from inst have
    "distinct (map q_url (snd (visitPage exampleWeb ''site.test'' 2 {''http://site.test/''}
      \<lparr>q_url = ''http://site.test/'', q_depth = 0\<rparr> [])))"
    by simp
  ultimately show ?thesis
    by (simp add: u links)
qed

text \<open>
  Claim C5 as stated fails: the seed of the example site answers 200 with markup that
  links twice to the same PDF, and internalLinks holds that URL twice.
\<close>

theorem duplicate_links_counterexample:
  "statusCode (hd (crawlSite exampleWeb ''http://site.test/'' defaultOptions)) = 200 \<and>
   html (hd (crawlSite exampleWeb ''http://site.test/'' defaultOptions)) \<noteq> [] \<and>
   \<not> distinct (internalLinks (hd (crawlSite exampleWeb ''http://site.test/'' defaultOptions)))"
  by (simp add: exampleCrawl_eq exampleCrawl_def seedMarkup_def)


section \<open>Properties of the store and of the orchestrator\<close>

lemma findIndex_range:
  "findIndex P xs = - 1 \<or> (0 \<le> findIndex P xs \<and> findIndex P xs < int (length xs))"
  by (induction xs) (auto simp: Let_def)

lemma storage_update_Cons:
  "storage_update (a # as) i u =
     (if a_id a = i then mergeAudit a u # as else a # storage_update as i u)"
proof (cases "a_id a = i")
  case True
  then show ?thesis by (simp add: storage_update_def)
next
  case False
  from findIndex_range [of "\<lambda>a. a_id a = i" as] show ?thesis
  proof
    assume "findIndex (\<lambda>a. a_id a = i) as = - 1"
    with False show ?thesis by (simp add: storage_update_def)
  next
    assume r: "0 \<le> findIndex (\<lambda>a. a_id a = i) as \<and>
      findIndex (\<lambda>a. a_id a = i) as < int (length as)"
    then have "nat (findIndex (\<lambda>a. a_id a = i) as + 1) = Suc (nat (findIndex (\<lambda>a. a_id a = i) as))"
      by linarith
    with r False show ?thesis
      by (auto simp: storage_update_def Let_def)
  qed
qed

lemma storage_get_update:
  assumes "storage_get db i = Some a" and "u_id u = None"
  shows "storage_get (storage_update db i u) i = Some (mergeAudit a u)"
  using assms
proof (induction db)
  case Nil
  then show ?case by (simp add: storage_get_def)
next
  case (Cons x db)
  then show ?case
    by (auto simp: storage_get_def storage_update_Cons mergeAudit_def split: if_splits)
qed

lemma merge_running:
  "mergeAudit a (noUpdates\<lparr>u_status := Some RUNNING\<rparr>) = a\<lparr>status := RUNNING\<rparr>"
  by (simp add: mergeAudit_def noUpdates_def)

lemma merge_failed:
  "mergeAudit a (noUpdates\<lparr>u_status := Some FAILED, u_completedAt := Some now\<rparr>) =
     a\<lparr>status := FAILED, completedAt := Some now\<rparr>"
  by (simp add: mergeAudit_def noUpdates_def)

lemma merge_completed:
  "mergeAudit a (noUpdates\<lparr>u_status := Some COMPLETED, u_completedAt := Some now,
      u_scores := Some sc, u_issuesSummary := Some sm, u_pages := Some ps,
      u_reportMarkdown := Some rep\<rparr>) =
     a\<lparr>status := COMPLETED, completedAt := Some now, a_scores := sc, issuesSummary := sm,
       pages := ps, reportMarkdown := Some rep\<rparr>"
  by (simp add: mergeAudit_def noUpdates_def)

lemma startAudit_failed:
  assumes "storage_get db auditId = Some audit"
    and "crawlSite cenv (a_url audit) (runnerOptions maxPages) = []"
  shows "map (\<lambda>d. storage_get d auditId) (startAudit cenv aenv uuid now db auditId maxPages) =
           [Some (audit\<lparr>status := RUNNING\<rparr>),
            Some (audit\<lparr>status := FAILED, completedAt := Some now\<rparr>)]"
proof -
  let ?db1 = "storage_update db auditId (noUpdates\<lparr>u_status := Some RUNNING\<rparr>)"
  have g1: "storage_get ?db1 auditId = Some (audit\<lparr>status := RUNNING\<rparr>)"
    using storage_get_update [OF assms(1), of "noUpdates\<lparr>u_status := Some RUNNING\<rparr>"]
    by (simp add: merge_running) (simp add: noUpdates_def)
  have g2: "storage_get (storage_update ?db1 auditId
                (noUpdates\<lparr>u_status := Some FAILED, u_completedAt := Some now\<rparr>)) auditId =
            Some (audit\<lparr>status := FAILED, completedAt := Some now\<rparr>)"
    using storage_get_update [OF g1,
        of "noUpdates\<lparr>u_status := Some FAILED, u_completedAt := Some now\<rparr>"]
    by (simp add: merge_failed) (simp add: noUpdates_def)
  show ?thesis
    using assms g1 g2 by (simp add: startAudit_def Let_def runnerOptions_def)
qed

lemma startAudit_aborted:
  assumes "storage_get db auditId = Some audit"
    and "crawlSite cenv (a_url audit) (runnerOptions maxPages) \<noteq> []"
    and "analyzeAll aenv uuid (crawlSite cenv (a_url audit) (runnerOptions maxPages)) = None"
  shows "map (\<lambda>d. storage_get d auditId) (startAudit cenv aenv uuid now db auditId maxPages) =
           [Some (audit\<lparr>status := RUNNING\<rparr>),
            Some (audit\<lparr>status := FAILED, completedAt := Some now\<rparr>)]"
proof -
  let ?db1 = "storage_update db auditId (noUpdates\<lparr>u_status := Some RUNNING\<rparr>)"
  have g1: "storage_get ?db1 auditId = Some (audit\<lparr>status := RUNNING\<rparr>)"
    using storage_get_update [OF assms(1), of "noUpdates\<lparr>u_status := Some RUNNING\<rparr>"]
    by (simp add: merge_running) (simp add: noUpdates_def)
  have g2: "storage_get (storage_update ?db1 auditId
                (noUpdates\<lparr>u_status := Some FAILED, u_completedAt := Some now\<rparr>)) auditId =
            Some (audit\<lparr>status := FAILED, completedAt := Some now\<rparr>)"
    using storage_get_update [OF g1,
        of "noUpdates\<lparr>u_status := Some FAILED, u_completedAt := Some now\<rparr>"]
    by (simp add: merge_failed) (simp add: noUpdates_def)
  show ?thesis
    using assms g1 g2 by (simp add: startAudit_def Let_def runnerOptions_def)
qed

lemma startAudit_completed:
  assumes "storage_get db auditId = Some audit"
    and "crawlSite cenv (a_url audit) (runnerOptions maxPages) \<noteq> []"
    and "analyzeAll aenv uuid (crawlSite cenv (a_url audit) (runnerOptions maxPages)) = Some ps"
  shows "map (\<lambda>d. storage_get d auditId) (startAudit cenv aenv uuid now db auditId maxPages) =
           [Some (audit\<lparr>status := RUNNING\<rparr>),
            Some (audit\<lparr>status := COMPLETED, completedAt := Some now,
               a_scores := fst (calculateAuditScores ps),
               issuesSummary := snd (calculateAuditScores ps),
               pages := ps,
               reportMarkdown := Some (generateReport (a_url audit)
                 (fst (calculateAuditScores ps)) (snd (calculateAuditScores ps)))\<rparr>)]"
proof -
  let ?db1 = "storage_update db auditId (noUpdates\<lparr>u_status := Some RUNNING\<rparr>)"
  have g1: "storage_get ?db1 auditId = Some (audit\<lparr>status := RUNNING\<rparr>)"
    using storage_get_update [OF assms(1), of "noUpdates\<lparr>u_status := Some RUNNING\<rparr>"]
    by (simp add: merge_running) (simp add: noUpdates_def)
  have g2: "storage_get (storage_update ?db1 auditId
                (noUpdates\<lparr>u_status := Some COMPLETED, u_completedAt := Some now,
                   u_scores := Some sc, u_issuesSummary := Some sm, u_pages := Some qs,
                   u_reportMarkdown := Some rep\<rparr>)) auditId =
            Some (audit\<lparr>status := COMPLETED, completedAt := Some now, a_scores := sc,
                    issuesSummary := sm, pages := qs, reportMarkdown := Some rep\<rparr>)"
    for sc sm qs rep
    using storage_get_update [OF g1,
        of "noUpdates\<lparr>u_status := Some COMPLETED, u_completedAt := Some now,
                   u_scores := Some sc, u_issuesSummary := Some sm, u_pages := Some qs,
                   u_reportMarkdown := Some rep\<rparr>"]
    by (simp add: merge_completed) (simp add: noUpdates_def)
  show ?thesis
    using assms g1 g2 by (simp add: startAudit_def Let_def runnerOptions_def)
qed

lemma length_filter_concat:
  "length (filter P (concat xss)) = (\<Sum>xs\<leftarrow>xss. length (filter P xs))"
  by (induction xss) auto

lemma summarize_counts:
  "critical (summarize (concat (map issues ps))) = spec_issueCount (\<lambda>i. severity i = Critical) ps"
  "major (summarize (concat (map issues ps))) = spec_issueCount (\<lambda>i. severity i = Major) ps"
  "minor (summarize (concat (map issues ps))) = spec_issueCount (\<lambda>i. severity i = Minor) ps"
  "byCategory (summarize (concat (map issues ps))) c = spec_issueCount (\<lambda>i. category i = c) ps"
  by (simp_all add: summarize_def spec_issueCount_def length_filter_concat comp_def)

lemma calculateAuditScores_summary:
  "snd (calculateAuditScores ps) = summarize (concat (map issues ps))"
  by (simp add: calculateAuditScores_def Let_def summarize_def)

lemma completed_consistent:
  "summaryConsistent
     (audit\<lparr>status := COMPLETED, completedAt := t, a_scores := sc,
        issuesSummary := snd (calculateAuditScores ps), pages := ps, reportMarkdown := rep\<rparr>)"
  by (simp add: summaryConsistent_def calculateAuditScores_summary summarize_counts)

text \<open>
  Claim C8.  If the audit is in the store and the crawl of its URL returns no page, the
  orchestrator writes the store twice: first the audit with status Running, then the
  audit with status Failed and the completion time.  Nothing else changes: scores,
  summary, pages and report are those the audit had (the pages of a new audit stay
  empty).
\<close>

theorem zero_pages_fails_audit:
  assumes "storage_get db auditId = Some audit"
    and "crawlSite cenv (a_url audit) (runnerOptions maxPages) = []"
  shows "map (\<lambda>d. storage_get d auditId) (startAudit cenv aenv uuid now db auditId maxPages) =
           [Some (audit\<lparr>status := RUNNING\<rparr>),
            Some (audit\<lparr>status := FAILED, completedAt := Some now\<rparr>)] \<and>
         map (\<lambda>d. map_option (\<lambda>a. (a_scores a, issuesSummary a, pages a, reportMarkdown a))
                    (storage_get d auditId))
             (startAudit cenv aenv uuid now db auditId maxPages) =
           [Some (a_scores audit, issuesSummary audit, pages audit, reportMarkdown audit),
            Some (a_scores audit, issuesSummary audit, pages audit, reportMarkdown audit)]"
proof -
  have trace: "map (\<lambda>d. storage_get d auditId)
      (startAudit cenv aenv uuid now db auditId maxPages) =
      [Some (audit\<lparr>status := RUNNING\<rparr>), Some (audit\<lparr>status := FAILED, completedAt := Some now\<rparr>)]"
    by (rule startAudit_failed [OF assms])
  have "map (\<lambda>d. map_option (\<lambda>a. (a_scores a, issuesSummary a, pages a, reportMarkdown a))
                    (storage_get d auditId))
             (startAudit cenv aenv uuid now db auditId maxPages) =
        map (map_option (\<lambda>a. (a_scores a, issuesSummary a, pages a, reportMarkdown a)))
          (map (\<lambda>d. storage_get d auditId) (startAudit cenv aenv uuid now db auditId maxPages))"
    by (simp add: comp_def)
  also have "\<dots> = [Some (a_scores audit, issuesSummary audit, pages audit, reportMarkdown audit),
            Some (a_scores audit, issuesSummary audit, pages audit, reportMarkdown audit)]"
    unfolding trace by simp
  finally show ?thesis
    using trace by simp
qed

lemma freshStore_get:
  "storage_get (freshStore u) ''audit-1'' =
     Some \<lparr>a_id = ''audit-1'', a_url = u, status = QUEUED,
            createdAt = ''2024-01-01T00:00:00.000Z'', completedAt = None,
            a_scores = zeroScores,
            issuesSummary = \<lparr>critical = 0, major = 0, minor = 0, byCategory = (\<lambda>c. 0)\<rparr>,
            pages = [], reportMarkdown = None\<rparr>"
  by (simp add: freshStore_def storage_create_def storage_get_def Let_def)

lemma malformed_seed:
  "crawlSite exampleWeb ''not a url'' (runnerOptions 20) = []"
  by (simp add: crawlSite_def exampleWeb_def)

text \<open>A new audit whose URL cannot be parsed.\<close>

theorem zero_pages_fails_audit_witness:
  "map (\<lambda>d. map_option (\<lambda>a. (status a, completedAt a, pages a, reportMarkdown a))
              (storage_get d ''audit-1''))
     (startAudit exampleWeb unconfiguredEnv exampleUuid ''2024-01-01T00:05:00.000Z''
        (freshStore ''not a url'') ''audit-1'' 20) =
   [Some (RUNNING, None, [], None),
    Some (FAILED, Some ''2024-01-01T00:05:00.000Z'', [], None)]"
proof -
  let ?T = "startAudit exampleWeb unconfiguredEnv exampleUuid ''2024-01-01T00:05:00.000Z''
        (freshStore ''not a url'') ''audit-1'' 20"
  have crawl: "crawlSite exampleWeb
      (a_url \<lparr>a_id = ''audit-1'', a_url = ''not a url'', status = QUEUED,
            createdAt = ''2024-01-01T00:00:00.000Z'', completedAt = None,
            a_scores = zeroScores,
            issuesSummary = \<lparr>critical = 0, major = 0, minor = 0, byCategory = (\<lambda>c. 0)\<rparr>,
            pages = [], reportMarkdown = None\<rparr>) (runnerOptions 20) = []"
    by (simp add: malformed_seed)
  from zero_pages_fails_audit [OF freshStore_get crawl, of unconfiguredEnv exampleUuid
      "''2024-01-01T00:05:00.000Z''"]
  have trace: "map (\<lambda>d. storage_get d ''audit-1'') ?T =
      [Some \<lparr>a_id = ''audit-1'', a_url = ''not a url'', status = RUNNING,
            createdAt = ''2024-01-01T00:00:00.000Z'', completedAt = None,
            a_scores = zeroScores,
            issuesSummary = \<lparr>critical = 0, major = 0, minor = 0, byCategory = (\<lambda>c. 0)\<rparr>,
            pages = [], reportMarkdown = None\<rparr>,
       Some \<lparr>a_id = ''audit-1'', a_url = ''not a url'', status = FAILED,
            createdAt = ''2024-01-01T00:00:00.000Z'',
            completedAt = Some ''2024-01-01T00:05:00.000Z'',
            a_scores = zeroScores,
            issuesSummary = \<lparr>critical = 0, major = 0, minor = 0, byCategory = (\<lambda>c. 0)\<rparr>,
            pages = [], reportMarkdown = None\<rparr>]"
    by simp
  have "map (\<lambda>d. map_option (\<lambda>a. (status a, completedAt a, pages a, reportMarkdown a))
              (storage_get d ''audit-1'')) ?T =
        map (map_option (\<lambda>a. (status a, completedAt a, pages a, reportMarkdown a)))
          (map (\<lambda>d. storage_get d ''audit-1'') ?T)"
    by (simp add: comp_def)
  then show ?thesis
    unfolding trace by simp
qed

text \<open>
  Claim C9.  In every store content that the orchestrator writes, the audit's summary
  equals the re-enumerated counts over the issues of its pages (by severity and by
  category), unless the orchestrator has not written summary and pages at all, which
  only happens while the status is not Completed.  When the crawl returns pages and
  their analysis does not throw, the last write gives status Completed with a consistent
  summary.
\<close>

theorem persisted_summary_consistent:
  assumes "storage_get db auditId = Some audit"
  shows "(\<forall>d \<in> set (startAudit cenv aenv uuid now db auditId maxPages).
            \<exists>a. storage_get d auditId = Some a \<and>
                (summaryConsistent a \<or>
                 (status a \<noteq> COMPLETED \<and> issuesSummary a = issuesSummary audit \<and>
                  pages a = pages audit))) \<and>
         (crawlSite cenv (a_url audit) (runnerOptions maxPages) \<noteq> [] \<and>
          analyzeAll aenv uuid (crawlSite cenv (a_url audit) (runnerOptions maxPages)) \<noteq> None
          \<longrightarrow>
            (\<exists>a. storage_get (last (startAudit cenv aenv uuid now db auditId maxPages)) auditId
                   = Some a \<and>
                 status a = COMPLETED \<and> summaryConsistent a))"
proof -
  let ?T = "startAudit cenv aenv uuid now db auditId maxPages"
  let ?crawl = "crawlSite cenv (a_url audit) (runnerOptions maxPages)"
  have untouched: ?thesis
    if trace: "map (\<lambda>d. storage_get d auditId) ?T =
        [Some (audit\<lparr>status := RUNNING\<rparr>), Some (audit\<lparr>status := FAILED, completedAt := Some now\<rparr>)]"
      and stop: "?crawl = [] \<or> analyzeAll aenv uuid ?crawl = None"
  proof -
    have "\<exists>a. storage_get d auditId = Some a \<and>
                (summaryConsistent a \<or>
                 (status a \<noteq> COMPLETED \<and> issuesSummary a = issuesSummary audit \<and>
                  pages a = pages audit))" if "d \<in> set ?T" for d
    proof -
      from that have "storage_get d auditId \<in> set (map (\<lambda>d. storage_get d auditId) ?T)"
        by simp
      then show ?thesis
        unfolding trace by auto
    qed
    then have every: "\<forall>d \<in> set ?T. \<exists>a. storage_get d auditId = Some a \<and>
                (summaryConsistent a \<or>
                 (status a \<noteq> COMPLETED \<and> issuesSummary a = issuesSummary audit \<and>
                  pages a = pages audit))"
      by blast
    from stop have "\<not> (?crawl \<noteq> [] \<and> analyzeAll aenv uuid ?crawl \<noteq> None)"
      by simp
    with every show ?thesis
      by (intro conjI impI) (assumption, simp)
  qed
  show ?thesis
  proof (cases "?crawl = []")
    case True
    from startAudit_failed [OF assms True, of aenv uuid now] True show ?thesis
      by (intro untouched) simp_all
  next
    case False
    show ?thesis
    proof (cases "analyzeAll aenv uuid ?crawl")
      case None
      from startAudit_aborted [OF assms False None, of now] None show ?thesis
        by (intro untouched) simp_all
    next
      case (Some ps)
      let ?done = "audit\<lparr>status := COMPLETED, completedAt := Some now,
               a_scores := fst (calculateAuditScores ps),
               issuesSummary := snd (calculateAuditScores ps),
               pages := ps,
               reportMarkdown := Some (generateReport (a_url audit)
                 (fst (calculateAuditScores ps)) (snd (calculateAuditScores ps)))\<rparr>"
      from startAudit_completed [OF assms False Some, of now]
      have trace: "map (\<lambda>d. storage_get d auditId) ?T =
          [Some (audit\<lparr>status := RUNNING\<rparr>), Some ?done]" .
      have ok: "summaryConsistent ?done"
        by (rule completed_consistent)
      have each: "\<exists>a. storage_get d auditId = Some a \<and>
                (summaryConsistent a \<or>
                 (status a \<noteq> COMPLETED \<and> issuesSummary a = issuesSummary audit \<and>
                  pages a = pages audit))" if "d \<in> set ?T" for d
      proof -
        from that have "storage_get d auditId \<in> set (map (\<lambda>d. storage_get d auditId) ?T)"
          by simp
        then have "storage_get d auditId = Some (audit\<lparr>status := RUNNING\<rparr>) \<or>
               storage_get d auditId = Some ?done"
          unfolding trace by simp
        then show ?thesis
          using ok by auto
      qed
      have ne: "?T \<noteq> []" using trace by auto
      have "storage_get (last ?T) auditId = last (map (\<lambda>d. storage_get d auditId) ?T)"
        using ne by (simp add: last_map)
      then have "storage_get (last ?T) auditId = Some ?done"
        unfolding trace by simp
      with ok have "\<exists>a. storage_get (last ?T) auditId = Some a \<and> status a = COMPLETED \<and>
          summaryConsistent a"
        by simp
      with each show ?thesis by blast
    qed
  qed
qed

lemma example_crawl_runner:
  "crawlSite exampleWeb ''http://site.test/'' (runnerOptions 20) \<noteq> []"
  by code_simp

lemma example_analysis_runner:
  "analyzeAll unconfiguredEnv exampleUuid
     (crawlSite exampleWeb ''http://site.test/'' (runnerOptions 20)) \<noteq> None"
  by code_simp

text \<open>A new audit of the example site, run to completion.\<close>

theorem persisted_summary_consistent_witness:
  "\<exists>a. storage_get (last (startAudit exampleWeb unconfiguredEnv exampleUuid
             ''2024-01-01T00:05:00.000Z'' (freshStore ''http://site.test/'') ''audit-1'' 20))
          ''audit-1'' = Some a \<and>
       status a = COMPLETED \<and> summaryConsistent a"
proof -
  have crawl: "crawlSite exampleWeb
      (a_url \<lparr>a_id = ''audit-1'', a_url = ''http://site.test/'', status = QUEUED,
            createdAt = ''2024-01-01T00:00:00.000Z'', completedAt = None,
            a_scores = zeroScores,
            issuesSummary = \<lparr>critical = 0, major = 0, minor = 0, byCategory = (\<lambda>c. 0)\<rparr>,
            pages = [], reportMarkdown = None\<rparr>) (runnerOptions 20) \<noteq> []"
    using example_crawl_runner by simp
  have analysis: "analyzeAll unconfiguredEnv exampleUuid (crawlSite exampleWeb
      (a_url \<lparr>a_id = ''audit-1'', a_url = ''http://site.test/'', status = QUEUED,
            createdAt = ''2024-01-01T00:00:00.000Z'', completedAt = None,
            a_scores = zeroScores,
            issuesSummary = \<lparr>critical = 0, major = 0, minor = 0, byCategory = (\<lambda>c. 0)\<rparr>,
            pages = [], reportMarkdown = None\<rparr>) (runnerOptions 20)) \<noteq> None"
    using example_analysis_runner by simp
  from persisted_summary_consistent [OF freshStore_get, of exampleWeb unconfiguredEnv exampleUuid
      "''2024-01-01T00:05:00.000Z''" "''http://site.test/''" 20] crawl analysis
  show ?thesis by blast
qed

end
